(* ===== verification/Ras_Prelude.thy ===== *)
theory Ras_Prelude
  imports Main "HOL-Library.Word" "HOL-Library.While_Combinator"
begin

text \<open>
  What the components share: the machine types, the ways in which the C process can
  die, statement sequencing over a state that a statement may fail to return, the
  backward calculus \<open>ends\<close> for such blocks, and generic facts on modular counters and
  while-loops.
\<close>

unbundle bit_operations_syntax

type_synonym byte = "8 word"
type_synonym u16 = "16 word"
type_synonym u32 = "32 word"

text \<open>
  How a C function can fail to return: a null message handed to a library function that
  dereferences it, the library's own abort when a message buffer has no room left, an
  access past the end of an array, a failed assertion, a call of \<open>exit\<close>, a signed integer
  that overflows, a loop that never ends.
\<close>

datatype fault = NullDeref | MsgbAbort | ArrayOverrun | AssertFailed | ExitFailure | IntOverflow | Hang

text \<open>The error number the program returns negated.\<close>

abbreviation (input) EINVAL :: int where "EINVAL \<equiv> 22"

named_theorems wp "backward rules for the calls a handler makes"

section \<open>Sequencing of statements\<close>

text \<open>\<open>seqs [f, g, h] s\<close> is the C block \<open>f; g; h\<close> run from state \<open>s\<close>.\<close>

primrec seqs :: "('s \<Rightarrow> fault + 's) list \<Rightarrow> 's \<Rightarrow> fault + 's" where
  "seqs [] s = Inr s"
| "seqs (f # fs) s = (case f s of Inl e \<Rightarrow> Inl e | Inr t \<Rightarrow> seqs fs t)"

text \<open>An assignment: a statement that always returns.\<close>

definition upd :: "('s \<Rightarrow> 's) \<Rightarrow> 's \<Rightarrow> fault + 's" where
  "upd f s = Inr (f s)"

text \<open>
  \<open>ends E Q r\<close>: the run \<open>r\<close> returned in a state with \<open>Q\<close>, or failed in one of the ways in
  \<open>E\<close>. With \<open>E = {}\<close> this is total correctness; with \<open>E = UNIV\<close> it speaks only of runs
  that return. The equations below compute it backwards over a block of statements, so
  that a proof about a handler is a proof about the calls it makes.
\<close>

definition ends :: "fault set \<Rightarrow> ('s \<Rightarrow> bool) \<Rightarrow> fault + 's \<Rightarrow> bool" where
  "ends E Q r \<longleftrightarrow> (case r of Inl e \<Rightarrow> e \<in> E | Inr t \<Rightarrow> Q t)"

lemma upd_simp [simp]: "upd f s = Inr (f s)"
  by (simp add: upd_def)

lemma ends_Inr [simp]: "ends E Q (Inr t) = Q t"
  by (simp add: ends_def)

lemma ends_Inl [simp]: "ends E Q (Inl e) = (e \<in> E)"
  by (simp add: ends_def)

lemma ends_seqs_Cons [simp]: "ends E Q (seqs (f # fs) s) = ends E (\<lambda>t. ends E Q (seqs fs t)) (f s)"
  by (cases "f s") auto

declare seqs.simps(2) [simp del]

lemma seqs_upd [simp]: "seqs (upd f # fs) s = seqs fs (f s)"
  by (simp add: seqs.simps)

lemma ends_mono: "ends E P r \<Longrightarrow> E \<subseteq> F \<Longrightarrow> (\<And>t. P t \<Longrightarrow> Q t) \<Longrightarrow> ends F Q r"
  by (cases r) auto

lemma ends_conj: "ends E P r \<Longrightarrow> ends F Q r \<Longrightarrow> ends (E \<inter> F) (\<lambda>t. P t \<and> Q t) r"
  by (cases r) auto

lemma ends_total: "ends {} Q r \<longleftrightarrow> (\<exists>t. r = Inr t \<and> Q t)"
  by (cases r) auto

lemma ends_returns: "ends UNIV Q r \<longleftrightarrow> (\<forall>t. r = Inr t \<longrightarrow> Q t)"
  by (cases r) auto

lemma ends_eq_Inr: "r = Inr t \<Longrightarrow> Q t \<Longrightarrow> ends E Q r"
  by simp

section \<open>Counters modulo a window\<close>

text \<open>How far \<open>b\<close> is ahead of \<open>a\<close> on the ring of size \<open>m\<close>.\<close>

definition ring_dist :: "nat \<Rightarrow> nat \<Rightarrow> nat \<Rightarrow> nat" where
  "ring_dist m a b = (b + m - a) mod m"

lemma ring_dist_less: "0 < m \<Longrightarrow> ring_dist m a b < m"
  by (simp add: ring_dist_def)

lemma ring_dist_self [simp]: "0 < m \<Longrightarrow> ring_dist m a a = 0"
  by (simp add: ring_dist_def)

lemma ring_dist_ge: "a \<le> b \<Longrightarrow> b < m \<Longrightarrow> ring_dist m a b = b - a"
  by (simp add: ring_dist_def mod_if)

lemma ring_dist_lt: "b < a \<Longrightarrow> a < m \<Longrightarrow> ring_dist m a b = b + m - a"
  by (simp add: ring_dist_def)

lemmas ring_dist_cases = ring_dist_ge ring_dist_lt

lemma ring_dist_eq_0: "a < m \<Longrightarrow> b < m \<Longrightarrow> ring_dist m a b = 0 \<longleftrightarrow> a = b"
  by (cases "a \<le> b") (auto simp: ring_dist_cases)

lemma Suc_mod_ring: "a < m \<Longrightarrow> Suc a mod m = (if Suc a = m then 0 else Suc a)"
  by auto

lemma ring_dist_step:
  assumes "a < m" and "b < m" and "a \<noteq> b"
  shows "ring_dist m (Suc a mod m) b = ring_dist m a b - 1"
  using assms by (cases "a \<le> b") (auto simp: Suc_mod_ring ring_dist_def mod_if)

lemma ring_dist_add:
  assumes "a < m" and "k < m"
  shows "ring_dist m a ((a + k) mod m) = k"
proof (cases "a + k < m")
  case True
  then show ?thesis by (simp add: ring_dist_ge)
next
  case False
  then have "(a + k) mod m = a + k - m"
    using assms by (simp add: mod_if)
  with False assms show ?thesis by (simp add: ring_dist_lt)
qed

lemma ring_dist_Suc:
  assumes "a < m" and "b < m" and "Suc (ring_dist m a b) < m"
  shows "ring_dist m a (Suc b mod m) = Suc (ring_dist m a b)"
  using assms by (cases "a \<le> b") (auto simp: Suc_mod_ring ring_dist_cases ring_dist_def mod_if)

lemma ring_dist_inverse: "a < m \<Longrightarrow> b < m \<Longrightarrow> (a + ring_dist m a b) mod m = b"
  by (cases "a \<le> b") (auto simp: ring_dist_cases)

text \<open>Moving both ends of a stretch of the ring, and moving its start.\<close>

lemma ring_dist_shift:
  assumes "a < m" and "i \<le> k" and "k < m"
  shows "ring_dist m ((a + i) mod m) ((a + k) mod m) = k - i"
proof -
  let ?b = "(a + i) mod m"
  have "(?b + (k - i)) mod m = (a + k) mod m"
    using assms(2) mod_add_left_eq [of "a + i" m "k - i"] by simp
  moreover have "ring_dist m ?b ((?b + (k - i)) mod m) = k - i"
    using assms by (intro ring_dist_add) auto
  ultimately show ?thesis by simp
qed

lemma ex_le_Suc: "(\<exists>k \<le> Suc d. P k) \<longleftrightarrow> P 0 \<or> (\<exists>k \<le> d. P (Suc k))"
proof
  assume "\<exists>k \<le> Suc d. P k"
  then obtain k where "k \<le> Suc d" and "P k" by blast
  then show "P 0 \<or> (\<exists>k \<le> d. P (Suc k))" by (cases k) auto
qed auto

section \<open>Bytes\<close>

text \<open>A fact about all bytes can be checked on the 256 of them.\<close>

lemma byte_all: "\<forall>i\<in>set [0..<256]. P (of_nat i :: byte) \<Longrightarrow> P w"
proof -
  assume all: "\<forall>i\<in>set [0..<256]. P (of_nat i :: byte)"
  have "unat w < 2 ^ LENGTH(8)"
    by (rule unsigned_less)
  then have "unat w \<in> set [0..<256]"
    by simp
  with all have "P (of_nat (unat w))"
    by blast
  then show "P w" by simp
qed

section \<open>Loops\<close>

text \<open>
  A loop whose body goes down a well-founded relation, or lowers a measure, while the
  invariant holds ends, in a state that satisfies the invariant and no longer the guard.
\<close>

lemma while_option_ends_wf:
  assumes "wf r" and "P s" and step: "\<And>s. P s \<Longrightarrow> b s \<Longrightarrow> P (c s) \<and> (c s, s) \<in> r"
  shows "\<exists>t. while_option b c s = Some t \<and> P t \<and> \<not> b t"
proof -
  have "wf {(t, s). (P s \<and> b s) \<and> t = c s}"
    using assms(1) by (rule wf_subset) (use step in auto)
  then obtain t where t: "while_option b c s = Some t"
    using wf_while_option_Some [of P b c s] assms(2) step by blast
  moreover have "P t"
    using t step by (rule_tac while_option_rule [of P b c s t]) (auto intro: assms(2))
  moreover have "\<not> b t"
    using t by (rule while_option_stop)
  ultimately show ?thesis by blast
qed

lemma while_option_ends:
  assumes "P s" and "\<And>s. P s \<Longrightarrow> b s \<Longrightarrow> P (c s) \<and> f (c s) < (f s :: nat)"
  shows "\<exists>t. while_option b c s = Some t \<and> P t \<and> \<not> b t"
  using assms by (intro while_option_ends_wf [OF wf_measure [of f]]) auto

section \<open>Arrays\<close>

text \<open>Storing bytes into a buffer from an offset on.\<close>

definition store :: "byte list \<Rightarrow> nat \<Rightarrow> byte list \<Rightarrow> byte list" where
  "store buf i bs = take i buf @ bs @ drop (i + length bs) buf"

lemma length_store: "i + length bs \<le> length buf \<Longrightarrow> length (store buf i bs) = length buf"
  by (simp add: store_def)

section \<open>Writing\<close>

text \<open>
  What a \<open>write\<close> of \<open>bs\<close> that returned \<open>rc\<close> took: nothing when it failed, and no more than it was
  given. \<open>written W n bss\<close> is what the writes number \<open>n\<close>, \<open>n + 1\<close> and so on took of \<open>bss\<close> together,
  \<open>W\<close> telling what they returned.
\<close>

definition took :: "int \<Rightarrow> byte list \<Rightarrow> byte list" where
  "took rc bs = take (nat rc) bs"

primrec written :: "(nat \<Rightarrow> int) \<Rightarrow> nat \<Rightarrow> byte list list \<Rightarrow> byte list" where
  "written W n [] = []"
| "written W n (bs # bss) = took (W n) bs @ written W (Suc n) bss"

lemma took_all [simp]: "took (int (length bs)) bs = bs"
  by (simp add: took_def)

lemma written_append: "written W n (bss @ css) = written W n bss @ written W (n + length bss) css"
  by (induction bss arbitrary: n) simp_all

text \<open>When every write takes all it is given, nothing is lost.\<close>

lemma written_all: "(\<And>k. k < length bss \<Longrightarrow> W (n + k) = int (length (bss ! k))) \<Longrightarrow> written W n bss = concat bss"
proof (induction bss arbitrary: n)
  case (Cons bs bss)
  have "written W (Suc n) bss = concat bss"
    using Cons.prems [of "Suc _"] by (intro Cons.IH) simp
  moreover have "W n = int (length bs)"
    using Cons.prems [of 0] by simp
  ultimately show ?case by simp
qed simp

end
