(* ===== verification/Osmo_Core.thy ===== *)
theory Osmo_Core
  imports Ras_Prelude
begin

text \<open>
  The part of libosmocore the program calls, as a parameter: a record of the library's
  operations over abstract message buffers \<open>'m\<close>, message queues \<open>'q\<close> and timers \<open>'t\<close>, and
  locales with the documented behaviour the program relies on. The library is not part
  of the repository, so every definition of the components takes such a record as an
  argument and every theorem about them assumes only the laws stated here.

  Buffers: \<open>msgb_data\<close> are the used bytes, between head room and tail room. The checked
  operations \<open>msgb_put\<close> and \<open>msgb_push\<close> abort the process when there is no room: \<open>None\<close>.
  \<open>msgb_rd\<close> and \<open>msgb_wr\<close> are the C accesses \<open>msg->data[i]\<close>; outside the used bytes
  nothing is known about them. Of \<open>msgb_headlen\<close> no law is assumed.

  Timers: a timer holds a call-back, may be pending, and \<open>timer_expire\<close> is what the event
  loop does to a timer that is due, just before it calls the call-back.
\<close>

datatype timer_fn = X75_t1timer_expiry | X75_t2timer_expiry | Suart_rx_timer_cb
  | Disconnect_close_cb | Force_exit_cb

record ('m, 'q) msgb_api =
  msgb_alloc :: "nat \<Rightarrow> 'm option"
  msgb_alloc_headroom :: "nat \<Rightarrow> nat \<Rightarrow> 'm option"
  msgb_reserve :: "'m \<Rightarrow> nat \<Rightarrow> 'm"
  msgb_put :: "'m \<Rightarrow> nat \<Rightarrow> 'm option"
  msgb_push :: "'m \<Rightarrow> nat \<Rightarrow> 'm option"
  msgb_pull :: "'m \<Rightarrow> nat \<Rightarrow> 'm"
  msgb_reset :: "'m \<Rightarrow> 'm"
  msgb_copy :: "'m \<Rightarrow> 'm option"
  msgb_headlen :: "'m \<Rightarrow> nat"
  msgb_rd :: "'m \<Rightarrow> nat \<Rightarrow> byte"
  msgb_wr :: "'m \<Rightarrow> nat \<Rightarrow> byte \<Rightarrow> 'm"
  msgb_data :: "'m \<Rightarrow> byte list"
  msgb_headroom :: "'m \<Rightarrow> nat"
  msgb_tailroom :: "'m \<Rightarrow> nat"
  msgb_queue_init :: 'q
  msgb_enqueue_count :: "'q \<Rightarrow> 'm \<Rightarrow> nat \<Rightarrow> 'q \<times> nat"
  msgb_dequeue_count :: "'q \<Rightarrow> nat \<Rightarrow> 'm option \<times> 'q \<times> nat"
  msgb_enqueue :: "'q \<Rightarrow> 'm \<Rightarrow> 'q"
  msgb_dequeue :: "'q \<Rightarrow> 'm option \<times> 'q"
  msgb_queue_free :: "'q \<Rightarrow> 'q"
  msgb_queue :: "'q \<Rightarrow> 'm list"

record ('m, 'q, 't) osmo_api = "('m, 'q) msgb_api" +
  timer_setup :: "'t \<Rightarrow> timer_fn option \<Rightarrow> 't"
  timer_del :: "'t \<Rightarrow> 't"
  timer_schedule :: "'t \<Rightarrow> nat \<Rightarrow> nat \<Rightarrow> 't"
  timer_expire :: "'t \<Rightarrow> 't"
  timer_pending :: "'t \<Rightarrow> bool"
  timer_cb :: "'t \<Rightarrow> timer_fn option"
  timer_tv_sec :: "'t \<Rightarrow> nat"

text \<open>Consecutive stores through a pointer, \<open>*dptr++ = b\<close> or \<open>memcpy\<close>, from offset \<open>i\<close>.\<close>

primrec msgb_wrs :: "('m, 'q, 'z) msgb_api_scheme \<Rightarrow> 'm \<Rightarrow> nat \<Rightarrow> byte list \<Rightarrow> 'm" where
  "msgb_wrs L m i [] = m"
| "msgb_wrs L m i (b # bs) = msgb_wrs L (msgb_wr L m i b) (Suc i) bs"

section \<open>Message buffers and queues\<close>

locale msgb_lib =
  fixes L :: "('m, 'q, 'z) msgb_api_scheme"
  assumes alloc:
      "msgb_alloc L n = Some m \<Longrightarrow> n < 65536 \<Longrightarrow>
       msgb_data L m = [] \<and> msgb_headroom L m = 0 \<and> msgb_tailroom L m = n"
    and alloc_headroom:
      "msgb_alloc_headroom L n k = Some m \<Longrightarrow> n < 65536 \<Longrightarrow> k \<le> n \<Longrightarrow>
       msgb_data L m = [] \<and> msgb_headroom L m = k \<and> msgb_tailroom L m = n - k"
    and reserve:
      "msgb_data L m = [] \<Longrightarrow> n \<le> msgb_tailroom L m \<Longrightarrow>
       msgb_data L (msgb_reserve L m n) = [] \<and>
       msgb_headroom L (msgb_reserve L m n) = msgb_headroom L m + n \<and>
       msgb_tailroom L (msgb_reserve L m n) = msgb_tailroom L m - n"
    and put_ok:
      "n \<le> msgb_tailroom L m \<Longrightarrow>
       \<exists>m' bs. msgb_put L m n = Some m' \<and> length bs = n \<and>
         msgb_data L m' = msgb_data L m @ bs \<and>
         msgb_headroom L m' = msgb_headroom L m \<and>
         msgb_tailroom L m' = msgb_tailroom L m - n"
    and push_ok:
      "n \<le> msgb_headroom L m \<Longrightarrow>
       \<exists>m' bs. msgb_push L m n = Some m' \<and> length bs = n \<and>
         msgb_data L m' = bs @ msgb_data L m \<and>
         msgb_headroom L m' = msgb_headroom L m - n \<and>
         msgb_tailroom L m' = msgb_tailroom L m"
    and put_abort: "msgb_tailroom L m < n \<Longrightarrow> msgb_put L m n = None"
    and push_abort: "msgb_headroom L m < n \<Longrightarrow> msgb_push L m n = None"
    and pull:
      "n \<le> length (msgb_data L m) \<Longrightarrow>
       msgb_data L (msgb_pull L m n) = drop n (msgb_data L m) \<and>
       msgb_headroom L (msgb_pull L m n) = msgb_headroom L m + n"
    and copy:
      "msgb_copy L m = Some m' \<Longrightarrow>
       msgb_data L m' = msgb_data L m \<and> msgb_headroom L m' = msgb_headroom L m \<and>
       msgb_tailroom L m' = msgb_tailroom L m"
    and rd: "i < length (msgb_data L m) \<Longrightarrow> msgb_rd L m i = msgb_data L m ! i"
    and wr:
      "i < length (msgb_data L m) \<Longrightarrow>
       msgb_data L (msgb_wr L m i b) = (msgb_data L m)[i := b] \<and>
       msgb_headroom L (msgb_wr L m i b) = msgb_headroom L m \<and>
       msgb_tailroom L (msgb_wr L m i b) = msgb_tailroom L m"
    and queue_init: "msgb_queue L (msgb_queue_init L) = []"
    and enqueue:
      "msgb_enqueue_count L q m c = (q', c') \<Longrightarrow>
       msgb_queue L q' = msgb_queue L q @ [m] \<and> c' = Suc c"
    and dequeue_empty: "msgb_queue L q = [] \<Longrightarrow> msgb_dequeue_count L q c = (None, q, c)"
    and dequeue_some:
      "msgb_queue L q = m # ms \<Longrightarrow>
       \<exists>q' c'. msgb_dequeue_count L q c = (Some m, q', c') \<and> msgb_queue L q' = ms \<and>
         (0 < c \<longrightarrow> c' = c - 1)"
    and reset:
      "msgb_data L (msgb_reset L m) = [] \<and> msgb_headroom L (msgb_reset L m) = 0 \<and>
       msgb_tailroom L (msgb_reset L m) =
         msgb_headroom L m + length (msgb_data L m) + msgb_tailroom L m"
    and enqueue_plain: "msgb_queue L (msgb_enqueue L q m) = msgb_queue L q @ [m]"
    and dequeue_plain_empty: "msgb_queue L q = [] \<Longrightarrow> msgb_dequeue L q = (None, q)"
    and dequeue_plain_some:
      "msgb_queue L q = m # ms \<Longrightarrow>
       \<exists>q'. msgb_dequeue L q = (Some m, q') \<and> msgb_queue L q' = ms"
    and queue_free: "msgb_queue L (msgb_queue_free L q) = []"
begin

lemma put_1:
  assumes "1 \<le> msgb_tailroom L m"
  obtains m' b where "msgb_put L m 1 = Some m'" and "msgb_data L m' = msgb_data L m @ [b]"
    and "msgb_headroom L m' = msgb_headroom L m"
  using put_ok [OF assms] by (auto simp: length_Suc_conv)

lemma push_1:
  assumes "1 \<le> msgb_headroom L m"
  obtains m' b where "msgb_push L m 1 = Some m'" and "msgb_data L m' = b # msgb_data L m"
    and "msgb_headroom L m' = msgb_headroom L m - 1"
  using push_ok [OF assms] by (auto simp: length_Suc_conv)

lemma wrs:
  assumes "msgb_data L m = xs @ old @ ys" and "length xs = i" and "length old = length bs"
  shows "msgb_data L (msgb_wrs L m i bs) = xs @ bs @ ys \<and>
         msgb_headroom L (msgb_wrs L m i bs) = msgb_headroom L m"
  using assms
proof (induction bs arbitrary: m xs old i)
  case Nil
  then show ?case by simp
next
  case (Cons b bs)
  then obtain o1 old' where old: "old = o1 # old'" and len: "length old' = length bs"
    by (cases old) auto
  let ?m = "msgb_wr L m i b"
  have "i < length (msgb_data L m)"
    using Cons.prems old by simp
  then have m: "msgb_data L ?m = (msgb_data L m)[i := b]"
    and h: "msgb_headroom L ?m = msgb_headroom L m"
    using wr by blast+
  have "msgb_data L ?m = (xs @ [b]) @ old' @ ys"
    using m Cons.prems old by (auto simp: list_update_append)
  from Cons.IH [OF this, of "Suc i"] show ?case
    using Cons.prems len h by simp
qed

text \<open>Filling a new message: allocation, \<open>msgb_put\<close> and a copy.\<close>

lemma put_all:
  assumes "msgb_data L m = []" and "length bs \<le> msgb_tailroom L m"
  obtains m' where "msgb_put L m (length bs) = Some m'" and "msgb_data L (msgb_wrs L m' 0 bs) = bs"
    and "msgb_headroom L (msgb_wrs L m' 0 bs) = msgb_headroom L m"
proof -
  obtain m' old where m': "msgb_put L m (length bs) = Some m'" and "length old = length bs"
    and "msgb_data L m' = msgb_data L m @ old" and "msgb_headroom L m' = msgb_headroom L m"
    using put_ok [OF assms(2)] by auto
  with assms(1) wrs [of m' "[]" old "[]" 0 bs] show ?thesis
    by (intro that [of m']) simp_all
qed

lemma dequeue_cases:
  obtains (empty) "msgb_queue L q = []" and "msgb_dequeue_count L q c = (None, q, c)"
  | (some) m ms q' c' where "msgb_queue L q = m # ms"
      and "msgb_dequeue_count L q c = (Some m, q', c')" and "msgb_queue L q' = ms"
      and "0 < c \<Longrightarrow> c' = c - 1"
proof (cases "msgb_queue L q")
  case Nil
  then show ?thesis by (intro empty dequeue_empty)
next
  case (Cons m ms)
  then show ?thesis using dequeue_some [OF Cons, of c] some by blast
qed

end

text \<open>An allocator that never runs out of memory.\<close>

locale msgb_mem = msgb_lib +
  assumes alloc_some: "\<exists>m. msgb_alloc L n = Some m"
    and alloc_headroom_some: "\<exists>m. msgb_alloc_headroom L n k = Some m"
    and copy_some: "\<exists>m'. msgb_copy L m = Some m'"

text \<open>The sizes of a message are 16 bit integers, and so is the argument of \<open>msgb_alloc\<close>.\<close>

locale msgb_word = msgb_lib +
  assumes size16: "msgb_headroom L m + length (msgb_data L m) + msgb_tailroom L m < 65536"

section \<open>Timers\<close>

locale timer_lib =
  fixes L :: "('m, 'q, 't, 'z) osmo_api_scheme"
  assumes pending_setup: "timer_pending L (timer_setup L t f) = timer_pending L t"
    and pending_del: "\<not> timer_pending L (timer_del L t)"
    and pending_schedule: "timer_pending L (timer_schedule L t s u)"
    and pending_expire: "\<not> timer_pending L (timer_expire L t)"
    and cb_setup: "timer_cb L (timer_setup L t f) = f"
    and cb_del: "timer_cb L (timer_del L t) = timer_cb L t"
    and cb_schedule: "timer_cb L (timer_schedule L t s u) = timer_cb L t"
    and cb_expire: "timer_cb L (timer_expire L t) = timer_cb L t"
begin

lemmas timer_simps = pending_setup pending_del pending_schedule pending_expire
  cb_setup cb_del cb_schedule cb_expire

end

locale osmo_lib = msgb_lib L + timer_lib L
  for L :: "('m, 'q, 't) osmo_api"

locale osmo_mem = msgb_mem L + timer_lib L
  for L :: "('m, 'q, 't) osmo_api"

sublocale osmo_mem \<subseteq> osmo_lib
  by unfold_locales

lemma osmo_mem_lib: "osmo_mem L \<Longrightarrow> osmo_lib L"
  by (auto intro!: osmo_lib.intro dest: osmo_mem.axioms msgb_mem.axioms)

section \<open>A list implementation of the interface\<close>

text \<open>
  Buffers as three counted regions, queues as lists, timers as a call-back and an
  optional delay. It satisfies every law above, so theorems that assume the interface
  can be run on concrete inputs.
\<close>

record buf =
  buf_head :: nat
  buf_data :: "byte list"
  buf_tail :: nat

record tmr =
  tmr_cb :: "timer_fn option"
  tmr_due :: "(nat \<times> nat) option"

definition list_osmo :: "(buf, buf list, tmr) osmo_api" where
  "list_osmo = \<lparr>
     msgb_alloc = (\<lambda>n. Some \<lparr>buf_head = 0, buf_data = [], buf_tail = n\<rparr>),
     msgb_alloc_headroom = (\<lambda>n k. Some \<lparr>buf_head = k, buf_data = [], buf_tail = n - k\<rparr>),
     msgb_reserve = (\<lambda>m n. m\<lparr>buf_head := buf_head m + n, buf_tail := buf_tail m - n\<rparr>),
     msgb_put = (\<lambda>m n. if n \<le> buf_tail m
        then Some (m\<lparr>buf_data := buf_data m @ replicate n 0, buf_tail := buf_tail m - n\<rparr>)
        else None),
     msgb_push = (\<lambda>m n. if n \<le> buf_head m
        then Some (m\<lparr>buf_data := replicate n 0 @ buf_data m, buf_head := buf_head m - n\<rparr>)
        else None),
     msgb_pull = (\<lambda>m n. m\<lparr>buf_data := drop n (buf_data m), buf_head := buf_head m + n\<rparr>),
     msgb_reset = (\<lambda>m. \<lparr>buf_head = 0, buf_data = [],
        buf_tail = buf_head m + length (buf_data m) + buf_tail m\<rparr>),
     msgb_copy = Some,
     msgb_headlen = (\<lambda>m. length (buf_data m)),
     msgb_rd = (\<lambda>m i. if i < length (buf_data m) then buf_data m ! i else 0),
     msgb_wr = (\<lambda>m i b. m\<lparr>buf_data := (buf_data m)[i := b]\<rparr>),
     msgb_data = buf_data,
     msgb_headroom = buf_head,
     msgb_tailroom = buf_tail,
     msgb_queue_init = [],
     msgb_enqueue_count = (\<lambda>q m c. (q @ [m], c + 1)),
     msgb_dequeue_count = (\<lambda>q c. case q of [] \<Rightarrow> (None, q, c) | m # ms \<Rightarrow> (Some m, ms, c - 1)),
     msgb_enqueue = (\<lambda>q m. q @ [m]),
     msgb_dequeue = (\<lambda>q. case q of [] \<Rightarrow> (None, q) | m # ms \<Rightarrow> (Some m, ms)),
     msgb_queue_free = (\<lambda>q. []),
     msgb_queue = (\<lambda>q. q),
     timer_setup = (\<lambda>t f. t\<lparr>tmr_cb := f\<rparr>),
     timer_del = (\<lambda>t. t\<lparr>tmr_due := None\<rparr>),
     timer_schedule = (\<lambda>t s u. t\<lparr>tmr_due := Some (s, u)\<rparr>),
     timer_expire = (\<lambda>t. t\<lparr>tmr_due := None\<rparr>),
     timer_pending = (\<lambda>t. tmr_due t \<noteq> None),
     timer_cb = tmr_cb,
     timer_tv_sec = (\<lambda>t. case tmr_due t of None \<Rightarrow> 0 | Some (s, u) \<Rightarrow> s)\<rparr>"

interpretation lo: osmo_mem list_osmo
  by unfold_locales (auto simp: list_osmo_def)

text \<open>The same with the sizes of a message limited to 16 bits.\<close>

definition clip :: "buf \<Rightarrow> buf" where
  "clip m =
     (let h = min (buf_head m) 65535; d = take (65535 - h) (buf_data m)
      in \<lparr>buf_head = h, buf_data = d, buf_tail = min (buf_tail m) (65535 - h - length d)\<rparr>)"

lemma clip_id [simp]: "buf_head m + length (buf_data m) + buf_tail m < 65536 \<Longrightarrow> clip m = m"
  by (simp add: clip_def Let_def)

lemma clip_size: "buf_head (clip m) + length (buf_data (clip m)) + buf_tail (clip m) < 65536"
  by (auto simp: clip_def Let_def min_def)

lemma clip_clip [simp]: "clip (clip m) = clip m"
  using clip_size by (rule clip_id)

text \<open>Moving bytes between the regions of a clipped message keeps it clipped.\<close>

lemma clip_ops [simp]:
  "n \<le> buf_tail (clip m) \<Longrightarrow>
   clip (clip m\<lparr>buf_head := buf_head (clip m) + n, buf_tail := buf_tail (clip m) - n\<rparr>) =
     clip m\<lparr>buf_head := buf_head (clip m) + n, buf_tail := buf_tail (clip m) - n\<rparr>"
  "length bs \<le> buf_tail (clip m) \<Longrightarrow>
   clip (clip m\<lparr>buf_data := buf_data (clip m) @ bs, buf_tail := buf_tail (clip m) - length bs\<rparr>) =
     clip m\<lparr>buf_data := buf_data (clip m) @ bs, buf_tail := buf_tail (clip m) - length bs\<rparr>"
  "length bs \<le> buf_head (clip m) \<Longrightarrow>
   clip (clip m\<lparr>buf_data := bs @ buf_data (clip m), buf_head := buf_head (clip m) - length bs\<rparr>) =
     clip m\<lparr>buf_data := bs @ buf_data (clip m), buf_head := buf_head (clip m) - length bs\<rparr>"
  "n \<le> length (buf_data (clip m)) \<Longrightarrow>
   clip (clip m\<lparr>buf_data := drop n (buf_data (clip m)), buf_head := buf_head (clip m) + n\<rparr>) =
     clip m\<lparr>buf_data := drop n (buf_data (clip m)), buf_head := buf_head (clip m) + n\<rparr>"
  "clip (clip m\<lparr>buf_data := (buf_data (clip m))[i := b]\<rparr>) = clip m\<lparr>buf_data := (buf_data (clip m))[i := b]\<rparr>"
  "clip \<lparr>buf_head = 0, buf_data = [], buf_tail = buf_head (clip m) + length (buf_data (clip m)) + buf_tail (clip m)\<rparr> =
     \<lparr>buf_head = 0, buf_data = [], buf_tail = buf_head (clip m) + length (buf_data (clip m)) + buf_tail (clip m)\<rparr>"
  using clip_size [of m] by (auto intro!: clip_id)

definition list16_osmo :: "(buf, buf list, tmr) osmo_api" where
  "list16_osmo = list_osmo\<lparr>
     msgb_alloc := (\<lambda>n. Some (clip \<lparr>buf_head = 0, buf_data = [], buf_tail = n\<rparr>)),
     msgb_alloc_headroom := (\<lambda>n k. Some (clip \<lparr>buf_head = k, buf_data = [], buf_tail = n - k\<rparr>)),
     msgb_reserve := (\<lambda>m n. clip (msgb_reserve list_osmo (clip m) n)),
     msgb_put := (\<lambda>m n. msgb_put list_osmo (clip m) n),
     msgb_push := (\<lambda>m n. msgb_push list_osmo (clip m) n),
     msgb_pull := (\<lambda>m n. clip (msgb_pull list_osmo (clip m) n)),
     msgb_reset := (\<lambda>m. clip (msgb_reset list_osmo (clip m))),
     msgb_copy := (\<lambda>m. Some (clip m)),
     msgb_rd := (\<lambda>m. msgb_rd list_osmo (clip m)),
     msgb_wr := (\<lambda>m i b. clip (msgb_wr list_osmo (clip m) i b)),
     msgb_headlen := (\<lambda>m. length (buf_data (clip m))),
     msgb_data := (\<lambda>m. buf_data (clip m)),
     msgb_headroom := (\<lambda>m. buf_head (clip m)),
     msgb_tailroom := (\<lambda>m. buf_tail (clip m))\<rparr>"

interpretation lo16: osmo_mem list16_osmo
  using clip_ops(2,3) [of "replicate n 0" for n]
  by unfold_locales (auto simp: list16_osmo_def list_osmo_def)

interpretation lw16: msgb_word list16_osmo
  using clip_size by unfold_locales (simp add: list16_osmo_def)

end
