(* ===== verification/X75_Base.thy ===== *)
theory X75_Base
  imports Osmo_Core
begin

text \<open>
  The data of the X.75 link layer (\<open>src/x75/x75.h\<close>, \<open>src/x75/x75_int.h\<close>), the call-back
  wrappers of \<open>src/x75/x75_iface.c\<close> and the starting and stopping of the two timers of
  \<open>src/x75/x75_timer.c\<close>.

  The control block is a record over the state \<open>'d\<close> that the registered call-backs act
  on and the library's types. Sequence variables are natural numbers: the code only ever
  assigns them \<open>0\<close> or a value reduced modulo 8 or 128. The two queue counters are natural
  numbers as well; the retry counters and the timer periods, which do wrap, are 16 bits
  wide, as in the C declaration.
\<close>

section \<open>Constants\<close>

abbreviation (input) X75_ACK_PENDING_CONDITION :: byte where "X75_ACK_PENDING_CONDITION \<equiv> 0x01"
abbreviation (input) X75_REJECT_CONDITION :: byte where "X75_REJECT_CONDITION \<equiv> 0x02"
abbreviation (input) X75_PEER_RX_BUSY_CONDITION :: byte where "X75_PEER_RX_BUSY_CONDITION \<equiv> 0x04"

abbreviation (input) X75_I :: u16 where "X75_I \<equiv> 0x00"
abbreviation (input) X75_S :: u16 where "X75_S \<equiv> 0x01"
abbreviation (input) X75_U :: u16 where "X75_U \<equiv> 0x03"
abbreviation (input) X75_RR :: u16 where "X75_RR \<equiv> 0x01"
abbreviation (input) X75_RNR :: u16 where "X75_RNR \<equiv> 0x05"
abbreviation (input) X75_REJ :: u16 where "X75_REJ \<equiv> 0x09"
abbreviation (input) X75_SABM :: u16 where "X75_SABM \<equiv> 0x2F"
abbreviation (input) X75_SABME :: u16 where "X75_SABME \<equiv> 0x6F"
abbreviation (input) X75_DISC :: u16 where "X75_DISC \<equiv> 0x43"
abbreviation (input) X75_DM :: u16 where "X75_DM \<equiv> 0x0F"
abbreviation (input) X75_UA :: u16 where "X75_UA \<equiv> 0x63"
abbreviation (input) X75_FRMR :: u16 where "X75_FRMR \<equiv> 0x87"
abbreviation (input) X75_ILLEGAL :: u16 where "X75_ILLEGAL \<equiv> 0x100"

abbreviation (input) X75_SPF :: byte where "X75_SPF \<equiv> 0x10"
abbreviation (input) X75_EPF :: byte where "X75_EPF \<equiv> 0x01"
abbreviation (input) X75_FRMR_W :: byte where "X75_FRMR_W \<equiv> 0x01"
abbreviation (input) X75_FRMR_Z :: byte where "X75_FRMR_Z \<equiv> 0x08"
abbreviation (input) X75_POLLOFF :: byte where "X75_POLLOFF \<equiv> 0"
abbreviation (input) X75_POLLON :: byte where "X75_POLLON \<equiv> 1"
abbreviation (input) X75_COMMAND :: byte where "X75_COMMAND \<equiv> 1"
abbreviation (input) X75_RESPONSE :: byte where "X75_RESPONSE \<equiv> 2"
abbreviation (input) X75_ADDR_A :: byte where "X75_ADDR_A \<equiv> 0x03"
abbreviation (input) X75_ADDR_B :: byte where "X75_ADDR_B \<equiv> 0x01"
abbreviation (input) X75_ADDR_C :: byte where "X75_ADDR_C \<equiv> 0x0F"
abbreviation (input) X75_ADDR_D :: byte where "X75_ADDR_D \<equiv> 0x07"

abbreviation (input) X75_HEADER_LEN :: nat where "X75_HEADER_LEN \<equiv> 20"
abbreviation (input) HZ :: nat where "HZ \<equiv> 1000"
abbreviation (input) X75_DEFAULT_WINDOW :: byte where "X75_DEFAULT_WINDOW \<equiv> 7"
abbreviation (input) X75_DEFAULT_T1 :: u16 where "X75_DEFAULT_T1 \<equiv> 5000"
abbreviation (input) X75_DEFAULT_T2 :: u16 where "X75_DEFAULT_T2 \<equiv> 1000"
abbreviation (input) X75_DEFAULT_N2 :: u16 where "X75_DEFAULT_N2 \<equiv> 20"
abbreviation (input) X75_SMODULUS :: nat where "X75_SMODULUS \<equiv> 8"
abbreviation (input) X75_EMODULUS :: nat where "X75_EMODULUS \<equiv> 128"

abbreviation (input) X75_OK :: nat where "X75_OK \<equiv> 0"
abbreviation (input) X75_INVALUE :: nat where "X75_INVALUE \<equiv> 2"
abbreviation (input) X75_CONNECTED :: nat where "X75_CONNECTED \<equiv> 3"
abbreviation (input) X75_NOTCONNECTED :: nat where "X75_NOTCONNECTED \<equiv> 4"
abbreviation (input) X75_REFUSED :: nat where "X75_REFUSED \<equiv> 5"
abbreviation (input) X75_TIMEDOUT :: nat where "X75_TIMEDOUT \<equiv> 6"

abbreviation (input) X75_STANDARD :: u32 where "X75_STANDARD \<equiv> 0x00"
abbreviation (input) X75_EXTENDED :: u32 where "X75_EXTENDED \<equiv> 0x01"
abbreviation (input) X75_SLP :: u32 where "X75_SLP \<equiv> 0x00"
abbreviation (input) X75_MLP :: u32 where "X75_MLP \<equiv> 0x02"
abbreviation (input) X75_DTE :: u32 where "X75_DTE \<equiv> 0x00"
abbreviation (input) X75_DCE :: u32 where "X75_DCE \<equiv> 0x04"

section \<open>Data\<close>

datatype x75_state = X75_STATE_0 | X75_STATE_1 | X75_STATE_2 | X75_STATE_3 | X75_STATE_4

record ('d, 'm) x75_register_struct =
  connect_confirmation :: "('d \<Rightarrow> nat \<Rightarrow> 'd) option"
  connect_indication :: "('d \<Rightarrow> nat \<Rightarrow> 'd) option"
  disconnect_confirmation :: "('d \<Rightarrow> nat \<Rightarrow> 'd) option"
  disconnect_indication :: "('d \<Rightarrow> nat \<Rightarrow> 'd) option"
  data_indication :: "('d \<Rightarrow> 'm \<Rightarrow> int \<times> 'd) option"
  data_transmit :: "('d \<Rightarrow> 'm \<Rightarrow> 'd) option"

record x75_parms_struct =
  p_t1 :: u32
  p_t1timer :: u32
  p_t2 :: u32
  p_t2timer :: u32
  p_n2 :: u32
  p_n2count :: u32
  p_window :: u32
  p_state :: x75_state
  p_mode :: u32

record x75_frame =
  f_type :: u16
  f_nr :: nat
  f_ns :: nat
  f_cr :: byte
  f_pf :: byte
  f_control0 :: byte
  f_control1 :: byte

record ('d, 'm, 'q, 't) x75_cb =
  dev :: 'd
  mode :: u32
  state :: x75_state
  vs :: nat
  vr :: nat
  va :: nat
  condition :: byte
  n2 :: u16
  n2count :: u16
  t1 :: u16
  t2 :: u16
  t1timer :: 't
  t2timer :: 't
  t1timer_running :: bool
  t2timer_running :: bool
  write_queue :: 'q
  write_queue_count :: nat
  ack_queue :: 'q
  ack_queue_count :: nat
  window :: byte
  callbacks :: "('d, 'm) x75_register_struct"
  frmr_data :: x75_frame
  frmr_type :: byte

text \<open>Tests of the mode word and of the condition byte, and the modulus they select.\<close>

abbreviation extended :: "('d, 'm, 'q, 't) x75_cb \<Rightarrow> bool" where
  "extended x \<equiv> mode x AND X75_EXTENDED \<noteq> 0"

abbreviation cond :: "byte \<Rightarrow> ('d, 'm, 'q, 't) x75_cb \<Rightarrow> bool" where
  "cond c x \<equiv> condition x AND c \<noteq> 0"

abbreviation set_cond :: "byte \<Rightarrow> ('d, 'm, 'q, 't) x75_cb \<Rightarrow> ('d, 'm, 'q, 't) x75_cb" where
  "set_cond c x \<equiv> x\<lparr>condition := condition x OR c\<rparr>"

abbreviation clr_cond :: "byte \<Rightarrow> ('d, 'm, 'q, 't) x75_cb \<Rightarrow> ('d, 'm, 'q, 't) x75_cb" where
  "clr_cond c x \<equiv> x\<lparr>condition := condition x AND NOT c\<rparr>"

definition modulus :: "('d, 'm, 'q, 't) x75_cb \<Rightarrow> nat" where
  "modulus x = (if extended x then X75_EMODULUS else X75_SMODULUS)"

section \<open>Call-backs\<close>

definition x75_connect_confirmation ::
    "nat \<Rightarrow> ('d, 'm, 'q, 't) x75_cb \<Rightarrow> ('d, 'm, 'q, 't) x75_cb" where
  "x75_connect_confirmation reason x = x\<lparr>dev :=
     (case connect_confirmation (callbacks x) of None \<Rightarrow> dev x | Some f \<Rightarrow> f (dev x) reason)\<rparr>"

definition x75_connect_indication ::
    "nat \<Rightarrow> ('d, 'm, 'q, 't) x75_cb \<Rightarrow> ('d, 'm, 'q, 't) x75_cb" where
  "x75_connect_indication reason x = x\<lparr>dev :=
     (case connect_indication (callbacks x) of None \<Rightarrow> dev x | Some f \<Rightarrow> f (dev x) reason)\<rparr>"

definition x75_disconnect_confirmation ::
    "nat \<Rightarrow> ('d, 'm, 'q, 't) x75_cb \<Rightarrow> ('d, 'm, 'q, 't) x75_cb" where
  "x75_disconnect_confirmation reason x = x\<lparr>dev :=
     (case disconnect_confirmation (callbacks x) of None \<Rightarrow> dev x | Some f \<Rightarrow> f (dev x) reason)\<rparr>"

definition x75_disconnect_indication ::
    "nat \<Rightarrow> ('d, 'm, 'q, 't) x75_cb \<Rightarrow> ('d, 'm, 'q, 't) x75_cb" where
  "x75_disconnect_indication reason x = x\<lparr>dev :=
     (case disconnect_indication (callbacks x) of None \<Rightarrow> dev x | Some f \<Rightarrow> f (dev x) reason)\<rparr>"

definition x75_data_indication ::
    "'m \<Rightarrow> ('d, 'm, 'q, 't) x75_cb \<Rightarrow> int \<times> ('d, 'm, 'q, 't) x75_cb" where
  "x75_data_indication skb x =
     (case data_indication (callbacks x) of
        None \<Rightarrow> (-1, x)
      | Some f \<Rightarrow> (let (rc, d) = f (dev x) skb in (rc, x\<lparr>dev := d\<rparr>)))"

definition x75_data_transmit ::
    "'m \<Rightarrow> ('d, 'm, 'q, 't) x75_cb \<Rightarrow> bool \<times> ('d, 'm, 'q, 't) x75_cb" where
  "x75_data_transmit skb x =
     (case data_transmit (callbacks x) of
        None \<Rightarrow> (False, x)
      | Some f \<Rightarrow> (True, x\<lparr>dev := f (dev x) skb\<rparr>))"

section \<open>Starting and stopping the timers\<close>

text \<open>\<open>x75_start_t2timer\<close> hands the T2 call-back to the T1 timer, as the source does.\<close>

definition x75_start_t1timer ::
    "('m, 'q, 't) osmo_api \<Rightarrow> ('d, 'm, 'q, 't) x75_cb \<Rightarrow> ('d, 'm, 'q, 't) x75_cb" where
  "x75_start_t1timer L x =
     (let x = x\<lparr>t1timer := timer_del L (t1timer x)\<rparr>;
          x = x\<lparr>t1timer := timer_setup L (t1timer x) (Some X75_t1timer_expiry)\<rparr>;
          x = x\<lparr>t1timer_running := True\<rparr>
      in x\<lparr>t1timer := timer_schedule L (t1timer x) 0 (unat (t1 x) * 1000)\<rparr>)"

definition x75_start_t2timer ::
    "('m, 'q, 't) osmo_api \<Rightarrow> ('d, 'm, 'q, 't) x75_cb \<Rightarrow> ('d, 'm, 'q, 't) x75_cb" where
  "x75_start_t2timer L x =
     (let x = x\<lparr>t2timer := timer_del L (t2timer x)\<rparr>;
          x = x\<lparr>t1timer := timer_setup L (t1timer x) (Some X75_t2timer_expiry)\<rparr>;
          x = x\<lparr>t2timer_running := True\<rparr>
      in x\<lparr>t2timer := timer_schedule L (t2timer x) 0 (unat (t2 x) * 1000)\<rparr>)"

definition x75_stop_t1timer ::
    "('m, 'q, 't) osmo_api \<Rightarrow> ('d, 'm, 'q, 't) x75_cb \<Rightarrow> ('d, 'm, 'q, 't) x75_cb" where
  "x75_stop_t1timer L x = x\<lparr>t1timer_running := False, t1timer := timer_del L (t1timer x)\<rparr>"

definition x75_stop_t2timer ::
    "('m, 'q, 't) osmo_api \<Rightarrow> ('d, 'm, 'q, 't) x75_cb \<Rightarrow> ('d, 'm, 'q, 't) x75_cb" where
  "x75_stop_t2timer L x = x\<lparr>t2timer_running := False, t2timer := timer_del L (t2timer x)\<rparr>"

definition x75_t1timer_running :: "('d, 'm, 'q, 't) x75_cb \<Rightarrow> bool" where
  "x75_t1timer_running x = t1timer_running x"

end
