(* ===== verification/X75_Subr.thy ===== *)
theory X75_Subr
  imports X75_Base
begin

text \<open>
  The subroutines of the link layer, \<open>src/x75/x75_subr.c\<close>, with \<open>x75_transmit_buffer\<close> of
  \<open>src/x75/x75_out.c\<close>, which they call: the queues of unsent and unacknowledged frames,
  the check of a received N(R), and the wire format of every frame the layer sends and
  parses.
\<close>

section \<open>Queue accesses\<close>

text \<open>
  The four uses of the counted queue operations: \<open>msgb_dequeue_count\<close> and
  \<open>msgb_enqueue_count\<close> on the write queue and on the acknowledgement queue.
\<close>

definition deq_write :: "('m, 'q, 't) osmo_api \<Rightarrow> ('d, 'm, 'q, 't) x75_cb
    \<Rightarrow> 'm option \<times> ('d, 'm, 'q, 't) x75_cb" where
  "deq_write L x =
     (let (skb, q, c) = msgb_dequeue_count L (write_queue x) (write_queue_count x)
      in (skb, x\<lparr>write_queue := q, write_queue_count := c\<rparr>))"

definition deq_ack :: "('m, 'q, 't) osmo_api \<Rightarrow> ('d, 'm, 'q, 't) x75_cb
    \<Rightarrow> 'm option \<times> ('d, 'm, 'q, 't) x75_cb" where
  "deq_ack L x =
     (let (skb, q, c) = msgb_dequeue_count L (ack_queue x) (ack_queue_count x)
      in (skb, x\<lparr>ack_queue := q, ack_queue_count := c\<rparr>))"

definition enq_write :: "('m, 'q, 't) osmo_api \<Rightarrow> 'm \<Rightarrow> ('d, 'm, 'q, 't) x75_cb
    \<Rightarrow> ('d, 'm, 'q, 't) x75_cb" where
  "enq_write L skb x =
     (let (q, c) = msgb_enqueue_count L (write_queue x) skb (write_queue_count x)
      in x\<lparr>write_queue := q, write_queue_count := c\<rparr>)"

definition enq_ack :: "('m, 'q, 't) osmo_api \<Rightarrow> 'm \<Rightarrow> ('d, 'm, 'q, 't) x75_cb
    \<Rightarrow> ('d, 'm, 'q, 't) x75_cb" where
  "enq_ack L skb x =
     (let (q, c) = msgb_enqueue_count L (ack_queue x) skb (ack_queue_count x)
      in x\<lparr>ack_queue := q, ack_queue_count := c\<rparr>)"

section \<open>Queues and acknowledgements\<close>

definition x75_clear_queues ::
    "('m, 'q, 't) osmo_api \<Rightarrow> ('d, 'm, 'q, 't) x75_cb \<Rightarrow> ('d, 'm, 'q, 't) x75_cb" where
  "x75_clear_queues L x =
     x\<lparr>write_queue := msgb_queue_free L (write_queue x),
       ack_queue := msgb_queue_free L (ack_queue x)\<rparr>"

definition x75_frames_acked ::
    "('m, 'q, 't) osmo_api \<Rightarrow> nat \<Rightarrow> ('d, 'm, 'q, 't) x75_cb \<Rightarrow> fault + ('d, 'm, 'q, 't) x75_cb" where
  "x75_frames_acked L nr x =
     (if va x \<noteq> nr then
        (case while_option
            (\<lambda>x. ack_queue_count x \<noteq> 0 \<and> va x \<noteq> nr)
            (\<lambda>x. let (skb, x) = deq_ack L x in x\<lparr>va := (va x + 1) mod modulus x\<rparr>) x of
           None \<Rightarrow> Inl Hang
         | Some y \<Rightarrow> Inr y)
      else Inr x)"

definition x75_requeue_frames ::
    "('m, 'q, 't) osmo_api \<Rightarrow> ('d, 'm, 'q, 't) x75_cb \<Rightarrow> fault + ('d, 'm, 'q, 't) x75_cb" where
  "x75_requeue_frames L x =
     (case while_option
         (\<lambda>(skb, x). skb \<noteq> None)
         (\<lambda>(skb, x). case skb of None \<Rightarrow> (skb, x) | Some m \<Rightarrow> deq_ack L (enq_write L m x))
         (deq_ack L x) of
        None \<Rightarrow> Inl Hang
      | Some (skb, y) \<Rightarrow> Inr y)"

text \<open>
  The loop of \<open>x75_validate_nr\<close> carries the counter \<open>vc\<close> and the value of an early
  return, if there was one.
\<close>

definition x75_validate_nr :: "('d, 'm, 'q, 't) x75_cb \<Rightarrow> nat \<Rightarrow> fault + bool" where
  "x75_validate_nr x nr =
     (case while_option
         (\<lambda>(vc, ret). ret = None \<and> vc \<noteq> vs x)
         (\<lambda>(vc, ret). if nr = vc then (vc, Some True) else ((vc + 1) mod modulus x, None))
         (va x, None) of
        None \<Rightarrow> Inl Hang
      | Some (vc, Some r) \<Rightarrow> Inr r
      | Some (vc, None) \<Rightarrow> Inr (nr = vs x))"

section \<open>Parsing a frame\<close>

text \<open>
  The command/response field is only assigned for the two expected addresses; for any
  other it keeps what the caller's stack held, \<open>old\<close>.
\<close>

definition x75_addr_cr :: "u32 \<Rightarrow> byte \<Rightarrow> byte \<Rightarrow> byte" where
  "x75_addr_cr md a old =
     (if md AND X75_MLP \<noteq> 0 then
        if md AND X75_DCE \<noteq> 0 then
          if a = X75_ADDR_D then X75_COMMAND else if a = X75_ADDR_C then X75_RESPONSE else old
        else
          if a = X75_ADDR_C then X75_COMMAND else if a = X75_ADDR_D then X75_RESPONSE else old
      else
        if md AND X75_DCE \<noteq> 0 then
          if a = X75_ADDR_B then X75_COMMAND else if a = X75_ADDR_A then X75_RESPONSE else old
        else
          if a = X75_ADDR_A then X75_COMMAND else if a = X75_ADDR_B then X75_RESPONSE else old)"

text \<open>The control field, extended (modulo 128) format: \<open>None\<close> when it is cut short.\<close>

definition x75_decode_ext ::
    "('m, 'q, 't) osmo_api \<Rightarrow> 'm \<Rightarrow> x75_frame \<Rightarrow> ('m \<times> x75_frame) option" where
  "x75_decode_ext L skb frame =
     (let d0 = msgb_rd L skb 0; d1 = msgb_rd L skb 1 in
      if d0 AND 0x01 = 0 then
        if msgb_headlen L skb < 2 then None
        else Some (msgb_pull L skb 2,
          frame\<lparr>f_type := X75_I,
                f_ns := unat (drop_bit 1 d0 AND 0x7F),
                f_nr := unat (drop_bit 1 d1 AND 0x7F),
                f_pf := d1 AND X75_EPF,
                f_control0 := d0, f_control1 := d1\<rparr>)
      else if d0 AND 0x03 = 1 then
        if msgb_headlen L skb < 2 then None
        else Some (msgb_pull L skb 2,
          frame\<lparr>f_type := ucast (d0 AND 0x0F),
                f_nr := unat (drop_bit 1 d1 AND 0x7F),
                f_pf := d1 AND X75_EPF,
                f_control0 := d0, f_control1 := d1\<rparr>)
      else if d0 AND 0x03 = 3 then
        Some (msgb_pull L skb 1,
          frame\<lparr>f_type := ucast (d0 AND NOT X75_SPF),
                f_pf := d0 AND X75_SPF,
                f_control0 := d0, f_control1 := 0x00\<rparr>)
      else Some (skb, frame))"

text \<open>The control field, standard (modulo 8) format.\<close>

definition x75_decode_std ::
    "('m, 'q, 't) osmo_api \<Rightarrow> 'm \<Rightarrow> x75_frame \<Rightarrow> ('m \<times> x75_frame) option" where
  "x75_decode_std L skb frame =
     (let d0 = msgb_rd L skb 0;
          frame =
            (if d0 AND 0x01 = 0 then
               frame\<lparr>f_type := X75_I,
                     f_ns := unat (drop_bit 1 d0 AND 0x07),
                     f_nr := unat (drop_bit 5 d0 AND 0x07),
                     f_pf := d0 AND X75_SPF\<rparr>
             else if d0 AND 0x03 = 1 then
               frame\<lparr>f_type := ucast (d0 AND 0x0F),
                     f_nr := unat (drop_bit 5 d0 AND 0x07),
                     f_pf := d0 AND X75_SPF\<rparr>
             else if d0 AND 0x03 = 3 then
               frame\<lparr>f_type := ucast (d0 AND NOT X75_SPF), f_pf := d0 AND X75_SPF\<rparr>
             else frame)
      in Some (msgb_pull L skb 1, frame\<lparr>f_control0 := d0\<rparr>))"

text \<open>
  \<open>frame\<close> is the caller's uninitialised structure: fields that the frame at hand does
  not carry keep its contents. \<open>None\<close> is the return value \<open>-1\<close>. The check of the length is all
  there is: when it lets a message of less than two bytes pass, the control octet is read behind the
  end of the contents, in the memory the message was allocated with, and the octet is any; \<open>msgb_rd\<close>
  and \<open>msgb_pull\<close> are then whatever the library gives, and what is shown of the parser holds for
  every value of them.
\<close>

definition x75_decode :: "('m, 'q, 't) osmo_api \<Rightarrow> ('d, 'm, 'q, 't) x75_cb \<Rightarrow> 'm \<Rightarrow> x75_frame
    \<Rightarrow> ('m \<times> x75_frame) option" where
  "x75_decode L x skb frame =
     (let frame = frame\<lparr>f_type := X75_ILLEGAL\<rparr> in
      if msgb_headlen L skb < 2 then None
      else
        let frame = frame\<lparr>f_cr := x75_addr_cr (mode x) (msgb_rd L skb 0) (f_cr frame)\<rparr>;
            skb = msgb_pull L skb 1
        in if extended x then x75_decode_ext L skb frame else x75_decode_std L skb frame)"

section \<open>Building and sending a frame\<close>

text \<open>The address octet; nothing is stored for a type that is neither.\<close>

definition x75_addr_out :: "u32 \<Rightarrow> byte \<Rightarrow> byte option" where
  "x75_addr_out md type =
     (if md AND X75_MLP \<noteq> 0 then
        if md AND X75_DCE \<noteq> 0 then
          if type = X75_COMMAND then Some X75_ADDR_C
          else if type = X75_RESPONSE then Some X75_ADDR_D else None
        else
          if type = X75_COMMAND then Some X75_ADDR_D
          else if type = X75_RESPONSE then Some X75_ADDR_C else None
      else
        if md AND X75_DCE \<noteq> 0 then
          if type = X75_COMMAND then Some X75_ADDR_A
          else if type = X75_RESPONSE then Some X75_ADDR_B else None
        else
          if type = X75_COMMAND then Some X75_ADDR_B
          else if type = X75_RESPONSE then Some X75_ADDR_A else None)"

definition x75_transmit_buffer ::
    "('m, 'q, 't) osmo_api \<Rightarrow> 'm \<Rightarrow> byte \<Rightarrow> ('d, 'm, 'q, 't) x75_cb \<Rightarrow> fault + ('d, 'm, 'q, 't) x75_cb" where
  "x75_transmit_buffer L skb type x =
     (case msgb_push L skb 1 of
        None \<Rightarrow> Inl MsgbAbort
      | Some skb \<Rightarrow>
          let skb = (case x75_addr_out (mode x) type of
                       None \<Rightarrow> skb | Some a \<Rightarrow> msgb_wr L skb 0 a)
          in Inr (snd (x75_data_transmit skb x)))"

definition x75_send_control ::
    "('m, 'q, 't) osmo_api \<Rightarrow> u16 \<Rightarrow> byte \<Rightarrow> byte \<Rightarrow> ('d, 'm, 'q, 't) x75_cb
     \<Rightarrow> fault + ('d, 'm, 'q, 't) x75_cb" where
  "x75_send_control L frametype poll_bit type x =
     (case msgb_alloc L (X75_HEADER_LEN + 3) of
        None \<Rightarrow> Inr x
      | Some skb \<Rightarrow>
          let skb = msgb_reserve L skb (X75_HEADER_LEN + 1) in
          if extended x then
            if frametype AND X75_U = X75_U then
              (case msgb_put L skb 1 of
                 None \<Rightarrow> Inl MsgbAbort
               | Some skb \<Rightarrow> x75_transmit_buffer L
                   (msgb_wrs L skb 0
                     [ucast frametype OR (if poll_bit \<noteq> 0 then X75_SPF else 0)]) type x)
            else
              (case msgb_put L skb 2 of
                 None \<Rightarrow> Inl MsgbAbort
               | Some skb \<Rightarrow> x75_transmit_buffer L
                   (msgb_wrs L skb 0
                     [ucast frametype,
                      push_bit 1 (of_nat (vr x)) OR (if poll_bit \<noteq> 0 then X75_EPF else 0)]) type x)
          else
            (case msgb_put L skb 1 of
               None \<Rightarrow> Inl MsgbAbort
             | Some skb \<Rightarrow> x75_transmit_buffer L
                 (msgb_wrs L skb 0
                   [(ucast frametype OR (if poll_bit \<noteq> 0 then X75_SPF else 0)) OR
                    (if frametype AND X75_U = X75_S then push_bit 5 (of_nat (vr x)) else 0)])
                 type x))"

definition x75_transmit_frmr ::
    "('m, 'q, 't) osmo_api \<Rightarrow> ('d, 'm, 'q, 't) x75_cb \<Rightarrow> fault + ('d, 'm, 'q, 't) x75_cb" where
  "x75_transmit_frmr L x =
     (case msgb_alloc L (X75_HEADER_LEN + 7) of
        None \<Rightarrow> Inr x
      | Some skb \<Rightarrow>
          let skb = msgb_reserve L skb (X75_HEADER_LEN + 1) in
          if extended x then
            (case msgb_put L skb 6 of
               None \<Rightarrow> Inl MsgbAbort
             | Some skb \<Rightarrow> x75_transmit_buffer L
                 (msgb_wrs L skb 0
                   [ucast X75_FRMR,
                    f_control0 (frmr_data x),
                    f_control1 (frmr_data x),
                    push_bit 1 (of_nat (vs x)) AND 0xFE,
                    (push_bit 1 (of_nat (vr x)) AND 0xFE) OR
                      (if f_cr (frmr_data x) = X75_RESPONSE then 0x01 else 0),
                    frmr_type x]) X75_RESPONSE x)
          else
            (case msgb_put L skb 4 of
               None \<Rightarrow> Inl MsgbAbort
             | Some skb \<Rightarrow> x75_transmit_buffer L
                 (msgb_wrs L skb 0
                   [ucast X75_FRMR,
                    f_control0 (frmr_data x),
                    ((push_bit 1 (of_nat (vs x)) AND 0x0E) OR
                     (push_bit 5 (of_nat (vr x)) AND 0xE0)) OR
                      (if f_cr (frmr_data x) = X75_RESPONSE then 0x10 else 0),
                    frmr_type x]) X75_RESPONSE x))"

end
