(* ===== verification/X75_Out.thy ===== *)
theory X75_Out
  imports X75_Subr
begin

text \<open>
  Sending, \<open>src/x75/x75_out.c\<close>: information frames, the transmit loop \<open>x75_kick\<close>, link
  establishment, responses, and the handling of acknowledgements.
\<close>

definition x75_send_iframe ::
    "('m, 'q, 't) osmo_api \<Rightarrow> 'm option \<Rightarrow> byte \<Rightarrow> ('d, 'm, 'q, 't) x75_cb
     \<Rightarrow> fault + ('d, 'm, 'q, 't) x75_cb" where
  "x75_send_iframe L skb poll_bit x =
     (case skb of
        None \<Rightarrow> Inr x
      | Some skb \<Rightarrow>
          if extended x then
            (case msgb_push L skb 2 of
               None \<Rightarrow> Inl MsgbAbort
             | Some skb \<Rightarrow> x75_transmit_buffer L
                 (msgb_wrs L skb 0
                   [ucast X75_I OR push_bit 1 (of_nat (vs x)),
                    (if poll_bit \<noteq> 0 then X75_EPF else 0) OR push_bit 1 (of_nat (vr x))])
                 X75_COMMAND x)
          else
            (case msgb_push L skb 1 of
               None \<Rightarrow> Inl MsgbAbort
             | Some skb \<Rightarrow> x75_transmit_buffer L
                 (msgb_wrs L skb 0
                   [((ucast X75_I OR (if poll_bit \<noteq> 0 then X75_SPF else 0)) OR
                     push_bit 5 (of_nat (vr x))) OR push_bit 1 (of_nat (vs x))])
                 X75_COMMAND x))"

text \<open>
  One pass through the loop of \<open>x75_kick\<close>, with the evaluation of its condition: the
  result carries the next message to send, \<open>None\<close> when the loop is left.
\<close>

definition x75_kick_body ::
    "('m, 'q, 't) osmo_api \<Rightarrow> nat \<Rightarrow> 'm \<Rightarrow> ('d, 'm, 'q, 't) x75_cb
     \<Rightarrow> fault + ('m option \<times> ('d, 'm, 'q, 't) x75_cb)" where
  "x75_kick_body L end' skb x =
     (case msgb_copy L skb of
        None \<Rightarrow> Inl ExitFailure
      | Some skbn \<Rightarrow>
          (case x75_send_iframe L (Some skbn) X75_POLLOFF x of
             Inl e \<Rightarrow> Inl e
           | Inr x \<Rightarrow>
               let x = x\<lparr>vs := (vs x + 1) mod modulus x\<rparr>;
                   x = enq_ack L skb x
               in Inr (if vs x \<noteq> end' then deq_write L x else (None, x))))"

definition x75_kick_loop ::
    "('m, 'q, 't) osmo_api \<Rightarrow> nat \<Rightarrow> fault + ('m option \<times> ('d, 'm, 'q, 't) x75_cb)
     \<Rightarrow> fault + ('d, 'm, 'q, 't) x75_cb" where
  "x75_kick_loop L end' r =
     (case while_option
         (\<lambda>r. case r of Inl e \<Rightarrow> False | Inr (skb, x) \<Rightarrow> skb \<noteq> None)
         (\<lambda>r. case r of Inl e \<Rightarrow> r
            | Inr (skb, x) \<Rightarrow> (case skb of None \<Rightarrow> r | Some m \<Rightarrow> x75_kick_body L end' m x)) r of
        None \<Rightarrow> Inl Hang
      | Some (Inl e) \<Rightarrow> Inl e
      | Some (Inr (skb, x)) \<Rightarrow> Inr x)"

definition x75_kick ::
    "('m, 'q, 't) osmo_api \<Rightarrow> ('d, 'm, 'q, 't) x75_cb \<Rightarrow> fault + ('d, 'm, 'q, 't) x75_cb" where
  "x75_kick L x =
     (let start = (if ack_queue_count x = 0 then va x else vs x);
          end' = (va x + unat (window x)) mod modulus x
      in if \<not> cond X75_PEER_RX_BUSY_CONDITION x \<and> start \<noteq> end' \<and> write_queue_count x \<noteq> 0 then
           (let x = x\<lparr>vs := start\<rparr>; (skb, x) = deq_write L x in
            case skb of
              None \<Rightarrow> Inl NullDeref
            | Some m \<Rightarrow>
                seqs [\<lambda>x. x75_kick_loop L end' (Inr (Some m, x)),
                      upd (clr_cond X75_ACK_PENDING_CONDITION),
                      upd (\<lambda>x. if \<not> x75_t1timer_running x then x75_start_t1timer L x else x)] x)
         else Inr x)"

definition x75_establish_data_link ::
    "('m, 'q, 't) osmo_api \<Rightarrow> ('d, 'm, 'q, 't) x75_cb \<Rightarrow> fault + ('d, 'm, 'q, 't) x75_cb" where
  "x75_establish_data_link L = seqs
     [upd (\<lambda>x. x\<lparr>condition := 0x00, n2count := 0\<rparr>),
      (\<lambda>x. if extended x then x75_send_control L X75_SABME X75_POLLON X75_COMMAND x
           else x75_send_control L X75_SABM X75_POLLON X75_COMMAND x),
      upd (x75_start_t1timer L),
      upd (x75_stop_t2timer L)]"

definition x75_enquiry_response ::
    "('m, 'q, 't) osmo_api \<Rightarrow> ('d, 'm, 'q, 't) x75_cb \<Rightarrow> fault + ('d, 'm, 'q, 't) x75_cb" where
  "x75_enquiry_response L = seqs
     [x75_send_control L X75_RR X75_POLLON X75_RESPONSE,
      upd (clr_cond X75_ACK_PENDING_CONDITION)]"

definition x75_timeout_response ::
    "('m, 'q, 't) osmo_api \<Rightarrow> ('d, 'm, 'q, 't) x75_cb \<Rightarrow> fault + ('d, 'm, 'q, 't) x75_cb" where
  "x75_timeout_response L = seqs
     [x75_send_control L X75_RR X75_POLLOFF X75_RESPONSE,
      upd (clr_cond X75_ACK_PENDING_CONDITION)]"

definition x75_check_iframes_acked ::
    "('m, 'q, 't) osmo_api \<Rightarrow> nat \<Rightarrow> ('d, 'm, 'q, 't) x75_cb \<Rightarrow> fault + ('d, 'm, 'q, 't) x75_cb" where
  "x75_check_iframes_acked L nr x =
     (if vs x = nr then
        seqs [x75_frames_acked L nr, upd (x75_stop_t1timer L), upd (\<lambda>x. x\<lparr>n2count := 0\<rparr>)] x
      else if va x \<noteq> nr then
        seqs [x75_frames_acked L nr, upd (x75_start_t1timer L)] x
      else Inr x)"

definition x75_check_need_response ::
    "('m, 'q, 't) osmo_api \<Rightarrow> byte \<Rightarrow> byte \<Rightarrow> ('d, 'm, 'q, 't) x75_cb
     \<Rightarrow> fault + ('d, 'm, 'q, 't) x75_cb" where
  "x75_check_need_response L type pf x =
     (if type = X75_COMMAND \<and> pf \<noteq> 0 then x75_enquiry_response L x else Inr x)"

end
