(* ===== verification/X75_In.thy ===== *)
theory X75_In
  imports X75_Out
begin

text \<open>
  Receiving, \<open>src/x75/x75_in.c\<close>: one state machine per link state and \<open>x75_data_input\<close>,
  which parses a frame, runs the machine of the current state and then sends what the
  window allows.
\<close>

text \<open>The assignments that every (re)connection performs.\<close>

definition x75_reset_link :: "('d, 'm, 'q, 't) x75_cb \<Rightarrow> ('d, 'm, 'q, 't) x75_cb" where
  "x75_reset_link x = x\<lparr>condition := 0x00, n2count := 0, vs := 0, vr := 0, va := 0\<rparr>"

text \<open>
  The response to an acceptable SABM or SABME in states 0 and 4: UA, timers stopped,
  data transfer state, connect indication.
\<close>

definition x75_accept_connection ::
    "('m, 'q, 't) osmo_api \<Rightarrow> byte \<Rightarrow> ('d, 'm, 'q, 't) x75_cb \<Rightarrow> fault + ('d, 'm, 'q, 't) x75_cb" where
  "x75_accept_connection L pf = seqs
     [x75_send_control L X75_UA pf X75_RESPONSE,
      upd (x75_stop_t1timer L),
      upd (x75_stop_t2timer L),
      upd (\<lambda>x. x\<lparr>state := X75_STATE_3\<rparr>),
      upd x75_reset_link,
      upd (x75_connect_indication X75_OK)]"

definition x75_state0_machine ::
    "('m, 'q, 't) osmo_api \<Rightarrow> x75_frame \<Rightarrow> ('d, 'm, 'q, 't) x75_cb \<Rightarrow> fault + ('d, 'm, 'q, 't) x75_cb" where
  "x75_state0_machine L frame x =
     (if f_type frame = X75_SABM then
        if extended x then x75_send_control L X75_DM (f_pf frame) X75_RESPONSE x
        else x75_accept_connection L (f_pf frame) x
      else if f_type frame = X75_SABME then
        if extended x then x75_accept_connection L (f_pf frame) x
        else x75_send_control L X75_DM (f_pf frame) X75_RESPONSE x
      else if f_type frame = X75_DISC then
        x75_send_control L X75_UA (f_pf frame) X75_RESPONSE x
      else Inr x)"

definition x75_state1_machine ::
    "('m, 'q, 't) osmo_api \<Rightarrow> x75_frame \<Rightarrow> ('d, 'm, 'q, 't) x75_cb \<Rightarrow> fault + ('d, 'm, 'q, 't) x75_cb" where
  "x75_state1_machine L frame x =
     (if f_type frame = X75_SABM then
        if extended x then x75_send_control L X75_DM (f_pf frame) X75_RESPONSE x
        else x75_send_control L X75_UA (f_pf frame) X75_RESPONSE x
      else if f_type frame = X75_SABME then
        if extended x then x75_send_control L X75_UA (f_pf frame) X75_RESPONSE x
        else x75_send_control L X75_DM (f_pf frame) X75_RESPONSE x
      else if f_type frame = X75_DISC then
        x75_send_control L X75_DM (f_pf frame) X75_RESPONSE x
      else if f_type frame = X75_UA then
        if f_pf frame \<noteq> 0 then
          seqs [upd (x75_stop_t1timer L),
                upd (x75_stop_t2timer L),
                upd (\<lambda>x. x\<lparr>state := X75_STATE_3\<rparr>),
                upd x75_reset_link,
                upd (x75_connect_confirmation X75_OK)] x
        else Inr x
      else if f_type frame = X75_DM then
        if f_pf frame \<noteq> 0 then
          seqs [upd (x75_clear_queues L),
                upd (\<lambda>x. x\<lparr>state := X75_STATE_0\<rparr>),
                upd (x75_start_t1timer L),
                upd (x75_stop_t2timer L),
                upd (x75_disconnect_indication X75_REFUSED)] x
        else Inr x
      else Inr x)"

definition x75_state2_machine ::
    "('m, 'q, 't) osmo_api \<Rightarrow> x75_frame \<Rightarrow> ('d, 'm, 'q, 't) x75_cb \<Rightarrow> fault + ('d, 'm, 'q, 't) x75_cb" where
  "x75_state2_machine L frame x =
     (if f_type frame = X75_SABM \<or> f_type frame = X75_SABME then
        x75_send_control L X75_DM (f_pf frame) X75_RESPONSE x
      else if f_type frame = X75_DISC then
        x75_send_control L X75_UA (f_pf frame) X75_RESPONSE x
      else if f_type frame = X75_UA then
        if f_pf frame \<noteq> 0 then
          seqs [upd (\<lambda>x. x\<lparr>state := X75_STATE_0\<rparr>),
                upd (x75_start_t1timer L),
                upd (x75_stop_t2timer L),
                upd (x75_disconnect_confirmation X75_OK)] x
        else Inr x
      else if f_type frame = X75_DM then
        if f_pf frame \<noteq> 0 then
          seqs [upd (\<lambda>x. x\<lparr>state := X75_STATE_0\<rparr>),
                upd (x75_start_t1timer L),
                upd (x75_stop_t2timer L),
                upd (x75_disconnect_confirmation X75_NOTCONNECTED)] x
        else Inr x
      else if f_type frame = X75_I \<or> f_type frame = X75_REJ \<or>
              f_type frame = X75_RNR \<or> f_type frame = X75_RR then
        if f_pf frame \<noteq> 0 then x75_send_control L X75_DM (f_pf frame) X75_RESPONSE x
        else Inr x
      else Inr x)"

text \<open>
  State 3. Entering the frame reject state, the answer to an acceptable SABM(E), and the
  treatment of an information frame are blocks of their own.
\<close>

definition x75_frame_reject ::
    "('m, 'q, 't) osmo_api \<Rightarrow> x75_frame \<Rightarrow> byte \<Rightarrow> ('d, 'm, 'q, 't) x75_cb
     \<Rightarrow> fault + ('d, 'm, 'q, 't) x75_cb" where
  "x75_frame_reject L frame reason = seqs
     [upd (\<lambda>x. x\<lparr>frmr_data := frame, frmr_type := reason\<rparr>),
      x75_transmit_frmr L,
      upd (x75_start_t1timer L),
      upd (x75_stop_t2timer L),
      upd (\<lambda>x. x\<lparr>state := X75_STATE_4, n2count := 0\<rparr>)]"

definition x75_state3_reset ::
    "('m, 'q, 't) osmo_api \<Rightarrow> byte \<Rightarrow> ('d, 'm, 'q, 't) x75_cb \<Rightarrow> fault + ('d, 'm, 'q, 't) x75_cb" where
  "x75_state3_reset L pf = seqs
     [x75_send_control L X75_UA pf X75_RESPONSE,
      upd (x75_stop_t1timer L),
      upd (x75_stop_t2timer L),
      upd x75_reset_link,
      x75_requeue_frames L]"

text \<open>RNR and RR: record whether the peer is busy, answer a poll, then acknowledge.\<close>

definition x75_state3_rr ::
    "('m, 'q, 't) osmo_api \<Rightarrow> bool \<Rightarrow> x75_frame \<Rightarrow> ('d, 'm, 'q, 't) x75_cb
     \<Rightarrow> fault + ('d, 'm, 'q, 't) x75_cb" where
  "x75_state3_rr L busy frame = seqs
     [upd (if busy then set_cond X75_PEER_RX_BUSY_CONDITION
           else clr_cond X75_PEER_RX_BUSY_CONDITION),
      x75_check_need_response L (f_cr frame) (f_pf frame),
      (\<lambda>x. case x75_validate_nr x (f_nr frame) of
         Inl e \<Rightarrow> Inl e
       | Inr ok \<Rightarrow>
           if ok then x75_check_iframes_acked L (f_nr frame) x
           else x75_frame_reject L frame X75_FRMR_Z x)]"

definition x75_state3_rej ::
    "('m, 'q, 't) osmo_api \<Rightarrow> x75_frame \<Rightarrow> ('d, 'm, 'q, 't) x75_cb \<Rightarrow> fault + ('d, 'm, 'q, 't) x75_cb" where
  "x75_state3_rej L frame = seqs
     [upd (clr_cond X75_PEER_RX_BUSY_CONDITION),
      x75_check_need_response L (f_cr frame) (f_pf frame),
      (\<lambda>x. case x75_validate_nr x (f_nr frame) of
         Inl e \<Rightarrow> Inl e
       | Inr ok \<Rightarrow>
           if ok then
             seqs [x75_frames_acked L (f_nr frame),
                   upd (x75_stop_t1timer L),
                   upd (\<lambda>x. x\<lparr>n2count := 0\<rparr>),
                   x75_requeue_frames L] x
           else x75_frame_reject L frame X75_FRMR_Z x)]"

text \<open>The information field: in sequence it goes up, out of sequence it is rejected.\<close>

definition x75_state3_accept ::
    "('m, 'q, 't) osmo_api \<Rightarrow> 'm \<Rightarrow> x75_frame \<Rightarrow> ('d, 'm, 'q, 't) x75_cb
     \<Rightarrow> fault + ('d, 'm, 'q, 't) x75_cb" where
  "x75_state3_accept L skb frame x =
     (if f_ns frame = vr x then
        seqs [upd (\<lambda>x. snd (x75_data_indication skb x)),
              upd (\<lambda>x. x\<lparr>vr := (vr x + 1) mod modulus x\<rparr>),
              upd (clr_cond X75_REJECT_CONDITION),
              (\<lambda>x. if f_pf frame \<noteq> 0 then x75_enquiry_response L x
                   else if \<not> cond X75_ACK_PENDING_CONDITION x then
                     Inr (x75_start_t2timer L (set_cond X75_ACK_PENDING_CONDITION x))
                   else Inr x)] x
      else if cond X75_REJECT_CONDITION x then
        if f_pf frame \<noteq> 0 then x75_enquiry_response L x else Inr x
      else
        seqs [upd (set_cond X75_REJECT_CONDITION),
              x75_send_control L X75_REJ (f_pf frame) X75_RESPONSE,
              upd (clr_cond X75_ACK_PENDING_CONDITION)] x)"

definition x75_state3_i ::
    "('m, 'q, 't) osmo_api \<Rightarrow> 'm \<Rightarrow> x75_frame \<Rightarrow> ('d, 'm, 'q, 't) x75_cb
     \<Rightarrow> fault + ('d, 'm, 'q, 't) x75_cb" where
  "x75_state3_i L skb frame x =
     (case x75_validate_nr x (f_nr frame) of
        Inl e \<Rightarrow> Inl e
      | Inr ok \<Rightarrow>
          if \<not> ok then x75_frame_reject L frame X75_FRMR_Z x
          else
            seqs [(\<lambda>x. if cond X75_PEER_RX_BUSY_CONDITION x
                       then x75_frames_acked L (f_nr frame) x
                       else x75_check_iframes_acked L (f_nr frame) x),
                  x75_state3_accept L skb frame] x)"

definition x75_state3_machine ::
    "('m, 'q, 't) osmo_api \<Rightarrow> 'm \<Rightarrow> x75_frame \<Rightarrow> ('d, 'm, 'q, 't) x75_cb
     \<Rightarrow> fault + ('d, 'm, 'q, 't) x75_cb" where
  "x75_state3_machine L skb frame x =
     (if f_type frame = X75_SABM then
        if extended x then x75_send_control L X75_DM (f_pf frame) X75_RESPONSE x
        else x75_state3_reset L (f_pf frame) x
      else if f_type frame = X75_SABME then
        if extended x then x75_state3_reset L (f_pf frame) x
        else x75_send_control L X75_DM (f_pf frame) X75_RESPONSE x
      else if f_type frame = X75_DISC then
        seqs [upd (x75_clear_queues L),
              x75_send_control L X75_UA (f_pf frame) X75_RESPONSE,
              upd (x75_start_t1timer L),
              upd (x75_stop_t2timer L),
              upd (\<lambda>x. x\<lparr>state := X75_STATE_0\<rparr>),
              upd (x75_disconnect_indication X75_OK)] x
      else if f_type frame = X75_DM then
        seqs [upd (x75_clear_queues L),
              upd (\<lambda>x. x\<lparr>state := X75_STATE_0\<rparr>),
              upd (x75_start_t1timer L),
              upd (x75_stop_t2timer L),
              upd (x75_disconnect_indication X75_NOTCONNECTED)] x
      else if f_type frame = X75_RNR then x75_state3_rr L True frame x
      else if f_type frame = X75_RR then x75_state3_rr L False frame x
      else if f_type frame = X75_REJ then x75_state3_rej L frame x
      else if f_type frame = X75_I then x75_state3_i L skb frame x
      else if f_type frame = X75_FRMR then
        seqs [x75_establish_data_link L,
              x75_requeue_frames L,
              upd (\<lambda>x. x\<lparr>state := X75_STATE_1\<rparr>)] x
      else if f_type frame = X75_ILLEGAL then x75_frame_reject L frame X75_FRMR_W x
      else Inr x)"

definition x75_state4_machine ::
    "('m, 'q, 't) osmo_api \<Rightarrow> x75_frame \<Rightarrow> ('d, 'm, 'q, 't) x75_cb \<Rightarrow> fault + ('d, 'm, 'q, 't) x75_cb" where
  "x75_state4_machine L frame x =
     (if f_type frame = X75_SABM then
        if extended x then x75_send_control L X75_DM (f_pf frame) X75_RESPONSE x
        else x75_accept_connection L (f_pf frame) x
      else if f_type frame = X75_SABME then
        if extended x then x75_accept_connection L (f_pf frame) x
        else x75_send_control L X75_DM (f_pf frame) X75_RESPONSE x
      else Inr x)"

definition x75_machine ::
    "('m, 'q, 't) osmo_api \<Rightarrow> 'm \<Rightarrow> x75_frame \<Rightarrow> ('d, 'm, 'q, 't) x75_cb
     \<Rightarrow> fault + ('d, 'm, 'q, 't) x75_cb" where
  "x75_machine L skb frame x =
     (case state x of
        X75_STATE_0 \<Rightarrow> x75_state0_machine L frame x
      | X75_STATE_1 \<Rightarrow> x75_state1_machine L frame x
      | X75_STATE_2 \<Rightarrow> x75_state2_machine L frame x
      | X75_STATE_3 \<Rightarrow> x75_state3_machine L skb frame x
      | X75_STATE_4 \<Rightarrow> x75_state4_machine L frame x)"

text \<open>\<open>stack\<close> is the uninitialised local \<open>frame\<close> of the C function.\<close>

definition x75_data_input ::
    "('m, 'q, 't) osmo_api \<Rightarrow> x75_frame \<Rightarrow> 'm \<Rightarrow> ('d, 'm, 'q, 't) x75_cb
     \<Rightarrow> fault + ('d, 'm, 'q, 't) x75_cb" where
  "x75_data_input L stack skb x =
     (case x75_decode L x skb stack of
        None \<Rightarrow> Inr x
      | Some (skb, frame) \<Rightarrow> seqs [x75_machine L skb frame, x75_kick L] x)"

end
