(* ===== verification/X75_Iface.thy ===== *)
theory X75_Iface
  imports X75_In
begin

text \<open>
  Timer expiry (\<open>src/x75/x75_timer.c\<close>) and the operations the user of the link layer
  calls (\<open>src/x75/x75_iface.c\<close>).
\<close>

section \<open>Timer expiry\<close>

definition x75_t2timer_expiry ::
    "('m, 'q, 't) osmo_api \<Rightarrow> ('d, 'm, 'q, 't) x75_cb \<Rightarrow> fault + ('d, 'm, 'q, 't) x75_cb" where
  "x75_t2timer_expiry L x =
     (if timer_pending L (t2timer x) then Inr x
      else if \<not> t2timer_running x then Inr x
      else
        seqs [(\<lambda>x. if cond X75_ACK_PENDING_CONDITION x
                   then x75_timeout_response L (clr_cond X75_ACK_PENDING_CONDITION x)
                   else Inr x),
              upd (\<lambda>x. x\<lparr>t2timer_running := False\<rparr>)] x)"

text \<open>Giving up after N2 attempts: states 1, 2 and 4 share the block, state 3 stops T2 too.\<close>

definition x75_t1_give_up ::
    "('m, 'q, 't) osmo_api \<Rightarrow> (('d, 'm, 'q, 't) x75_cb \<Rightarrow> ('d, 'm, 'q, 't) x75_cb)
     \<Rightarrow> ('d, 'm, 'q, 't) x75_cb \<Rightarrow> fault + ('d, 'm, 'q, 't) x75_cb" where
  "x75_t1_give_up L report = seqs
     [upd (x75_clear_queues L),
      upd (\<lambda>x. x\<lparr>state := X75_STATE_0\<rparr>),
      upd report,
      upd (\<lambda>x. x\<lparr>t1timer_running := False\<rparr>)]"

definition x75_t1timer_expiry ::
    "('m, 'q, 't) osmo_api \<Rightarrow> ('d, 'm, 'q, 't) x75_cb \<Rightarrow> fault + ('d, 'm, 'q, 't) x75_cb" where
  "x75_t1timer_expiry L x =
     (if timer_pending L (t1timer x) then Inr x
      else if \<not> t1timer_running x then Inr x
      else (case state x of
          X75_STATE_0 \<Rightarrow>
            if mode x AND X75_DCE \<noteq> 0 \<and> n2count x \<noteq> n2 x then
              seqs [upd (\<lambda>x. x\<lparr>n2count := n2count x + 1\<rparr>),
                    x75_send_control L X75_DM X75_POLLOFF X75_RESPONSE,
                    upd (x75_start_t1timer L)] x
            else
              seqs [upd (\<lambda>x. x\<lparr>state := X75_STATE_1\<rparr>),
                    x75_establish_data_link L,
                    upd (x75_start_t1timer L)] x
        | X75_STATE_1 \<Rightarrow>
            if n2count x = n2 x then x75_t1_give_up L (x75_disconnect_indication X75_TIMEDOUT) x
            else
              seqs [upd (\<lambda>x. x\<lparr>n2count := n2count x + 1\<rparr>),
                    (\<lambda>x. if extended x then x75_send_control L X75_SABME X75_POLLON X75_COMMAND x
                         else x75_send_control L X75_SABM X75_POLLON X75_COMMAND x),
                    upd (x75_start_t1timer L)] x
        | X75_STATE_2 \<Rightarrow>
            if n2count x = n2 x then x75_t1_give_up L (x75_disconnect_confirmation X75_TIMEDOUT) x
            else
              seqs [upd (\<lambda>x. x\<lparr>n2count := n2count x + 1\<rparr>),
                    x75_send_control L X75_DISC X75_POLLON X75_COMMAND,
                    upd (x75_start_t1timer L)] x
        | X75_STATE_3 \<Rightarrow>
            if n2count x = n2 x then
              x75_t1_give_up L
                (\<lambda>x. x75_disconnect_indication X75_TIMEDOUT (x75_stop_t2timer L x)) x
            else
              seqs [upd (\<lambda>x. x\<lparr>n2count := n2count x + 1\<rparr>),
                    x75_requeue_frames L,
                    x75_kick L,
                    upd (x75_start_t1timer L)] x
        | X75_STATE_4 \<Rightarrow>
            if n2count x = n2 x then x75_t1_give_up L (x75_disconnect_indication X75_TIMEDOUT) x
            else
              seqs [upd (\<lambda>x. x\<lparr>n2count := n2count x + 1\<rparr>),
                    x75_transmit_frmr L,
                    upd (x75_start_t1timer L)] x))"

text \<open>
  What the event loop does when one of the two timers is due: the timer is no longer
  pending, then the call-back it holds is called, if it holds one.
\<close>

definition x75_timer_call ::
    "('m, 'q, 't) osmo_api \<Rightarrow> timer_fn option \<Rightarrow> ('d, 'm, 'q, 't) x75_cb
     \<Rightarrow> fault + ('d, 'm, 'q, 't) x75_cb" where
  "x75_timer_call L f x =
     (case f of
        Some X75_t1timer_expiry \<Rightarrow> x75_t1timer_expiry L x
      | Some X75_t2timer_expiry \<Rightarrow> x75_t2timer_expiry L x
      | _ \<Rightarrow> Inr x)"

definition x75_t1timer_due ::
    "('m, 'q, 't) osmo_api \<Rightarrow> ('d, 'm, 'q, 't) x75_cb \<Rightarrow> fault + ('d, 'm, 'q, 't) x75_cb" where
  "x75_t1timer_due L x =
     x75_timer_call L (timer_cb L (t1timer x)) (x\<lparr>t1timer := timer_expire L (t1timer x)\<rparr>)"

definition x75_t2timer_due ::
    "('m, 'q, 't) osmo_api \<Rightarrow> ('d, 'm, 'q, 't) x75_cb \<Rightarrow> fault + ('d, 'm, 'q, 't) x75_cb" where
  "x75_t2timer_due L x =
     x75_timer_call L (timer_cb L (t2timer x)) (x\<lparr>t2timer := timer_expire L (t2timer x)\<rparr>)"

section \<open>The user's operations\<close>

text \<open>
  \<open>x75_register\<close> assigns only the fields listed: sequence variables, condition, retry
  counter and queue counters keep what the caller's structure holds.
\<close>

definition x75_register ::
    "('m, 'q, 't) osmo_api \<Rightarrow> ('d, 'm) x75_register_struct \<Rightarrow> ('d, 'm, 'q, 't) x75_cb
     \<Rightarrow> nat \<times> ('d, 'm, 'q, 't) x75_cb" where
  "x75_register L cbs x =
     (let x = x\<lparr>write_queue := msgb_queue_init L, ack_queue := msgb_queue_init L,
                t1timer := timer_setup L (t1timer x) None,
                t2timer := timer_setup L (t2timer x) None,
                t1timer_running := False, t2timer_running := False,
                t1 := X75_DEFAULT_T1, t2 := X75_DEFAULT_T2, n2 := X75_DEFAULT_N2,
                mode := X75_STANDARD OR X75_SLP OR X75_DCE,
                window := X75_DEFAULT_WINDOW,
                state := X75_STATE_0,
                callbacks := cbs\<rparr>
      in (X75_OK, x75_start_t1timer L x))"

definition x75_unregister ::
    "('m, 'q, 't) osmo_api \<Rightarrow> ('d, 'm, 'q, 't) x75_cb \<Rightarrow> nat \<times> ('d, 'm, 'q, 't) x75_cb" where
  "x75_unregister L x =
     (let x = x75_clear_queues L (x75_stop_t2timer L (x75_stop_t1timer L x))
      in (X75_OK, x\<lparr>t1timer := timer_del L (t1timer x), t2timer := timer_del L (t2timer x)\<rparr>))"

definition x75_getparms ::
    "('m, 'q, 't) osmo_api \<Rightarrow> ('d, 'm, 'q, 't) x75_cb \<Rightarrow> nat \<times> x75_parms_struct" where
  "x75_getparms L x =
     (X75_OK,
      \<lparr>p_t1 = of_nat (unat (t1 x) div HZ),
       p_t1timer = (if \<not> timer_pending L (t1timer x) then 0
                    else of_nat (timer_tv_sec L (t1timer x) div HZ)),
       p_t2 = of_nat (unat (t2 x) div HZ),
       p_t2timer = (if \<not> timer_pending L (t2timer x) then 0
                    else of_nat (timer_tv_sec L (t2timer x) div HZ)),
       p_n2 = ucast (n2 x),
       p_n2count = ucast (n2count x),
       p_window = ucast (window x),
       p_state = state x,
       p_mode = mode x\<rparr>)"

definition x75_setparms ::
    "x75_parms_struct \<Rightarrow> ('d, 'm, 'q, 't) x75_cb \<Rightarrow> nat \<times> ('d, 'm, 'q, 't) x75_cb" where
  "x75_setparms parms x =
     (let finish = (\<lambda>x. (X75_OK, x\<lparr>t1 := ucast (p_t1 parms * of_nat HZ),
                                   t2 := ucast (p_t2 parms * of_nat HZ),
                                   n2 := ucast (p_n2 parms)\<rparr>))
      in if p_t1 parms < 1 \<or> p_t2 parms < 1 \<or> p_n2 parms < 1 then (X75_INVALUE, x)
         else if state x = X75_STATE_0 then
           if p_mode parms AND X75_EXTENDED \<noteq> 0 then
             if p_window parms < 1 \<or> p_window parms > 127 then (X75_INVALUE, x)
             else finish (x\<lparr>mode := p_mode parms, window := ucast (p_window parms)\<rparr>)
           else
             if p_window parms < 1 \<or> p_window parms > 7 then (X75_INVALUE, x)
             else finish (x\<lparr>mode := p_mode parms, window := ucast (p_window parms)\<rparr>)
         else finish x)"

text \<open>The remaining operations return their code together with the new control block.\<close>

definition with_rc :: "nat \<Rightarrow> fault + 's \<Rightarrow> fault + nat \<times> 's" where
  "with_rc rc r = map_sum id (\<lambda>s. (rc, s)) r"

definition x75_connect_request ::
    "('m, 'q, 't) osmo_api \<Rightarrow> ('d, 'm, 'q, 't) x75_cb \<Rightarrow> fault + nat \<times> ('d, 'm, 'q, 't) x75_cb" where
  "x75_connect_request L x =
     (if state x = X75_STATE_1 then Inr (X75_OK, x)
      else if state x = X75_STATE_3 \<or> state x = X75_STATE_4 then Inr (X75_CONNECTED, x)
      else with_rc X75_OK
        (seqs [x75_establish_data_link L, upd (\<lambda>x. x\<lparr>state := X75_STATE_1\<rparr>)] x))"

definition x75_disconnect_request ::
    "('m, 'q, 't) osmo_api \<Rightarrow> ('d, 'm, 'q, 't) x75_cb \<Rightarrow> fault + nat \<times> ('d, 'm, 'q, 't) x75_cb" where
  "x75_disconnect_request L x =
     (case state x of
        X75_STATE_0 \<Rightarrow> Inr (X75_NOTCONNECTED, x)
      | X75_STATE_1 \<Rightarrow> with_rc X75_NOTCONNECTED
          (seqs [x75_send_control L X75_DISC X75_POLLON X75_COMMAND,
                 upd (\<lambda>x. x\<lparr>state := X75_STATE_0\<rparr>),
                 upd (x75_start_t1timer L)] x)
      | X75_STATE_2 \<Rightarrow> Inr (X75_OK, x)
      | _ \<Rightarrow> with_rc X75_OK
          (seqs [upd (x75_clear_queues L),
                 upd (\<lambda>x. x\<lparr>n2count := 0\<rparr>),
                 x75_send_control L X75_DISC X75_POLLON X75_COMMAND,
                 upd (x75_start_t1timer L),
                 upd (x75_stop_t2timer L),
                 upd (\<lambda>x. x\<lparr>state := X75_STATE_2\<rparr>)] x))"

definition x75_data_request ::
    "('m, 'q, 't) osmo_api \<Rightarrow> 'm \<Rightarrow> ('d, 'm, 'q, 't) x75_cb \<Rightarrow> fault + nat \<times> ('d, 'm, 'q, 't) x75_cb" where
  "x75_data_request L skb x =
     (if state x \<noteq> X75_STATE_3 \<and> state x \<noteq> X75_STATE_4 then Inr (X75_NOTCONNECTED, x)
      else with_rc X75_OK (x75_kick L (enq_write L skb x)))"

definition x75_data_received ::
    "('m, 'q, 't) osmo_api \<Rightarrow> x75_frame \<Rightarrow> 'm \<Rightarrow> ('d, 'm, 'q, 't) x75_cb
     \<Rightarrow> fault + nat \<times> ('d, 'm, 'q, 't) x75_cb" where
  "x75_data_received L stack skb x = with_rc X75_OK (x75_data_input L stack skb x)"

end
