(* ===== verification/X75_Wire.thy ===== *)
theory X75_Wire
  imports X75_Iface
begin

text \<open>
  The wire format. \<open>x75_ctl\<close>, \<open>x75_frmr\<close> and \<open>x75_iframe\<close> are the byte strings of the
  frames; the lemmas show that the sending routines hand exactly these bytes to the
  transmit call-back, never exceed the buffers they allocate, and change nothing else.
\<close>

text \<open>What the transmit call-back does to its state, \<open>id\<close> when none is registered.\<close>

definition x75_tx :: "('d, 'm, 'q, 't) x75_cb \<Rightarrow> 'd \<Rightarrow> 'm \<Rightarrow> 'd" where
  "x75_tx x d skb = (case data_transmit (callbacks x) of None \<Rightarrow> d | Some f \<Rightarrow> f d skb)"

definition x75_ctl :: "u32 \<Rightarrow> nat \<Rightarrow> u16 \<Rightarrow> byte \<Rightarrow> byte list" where
  "x75_ctl md r frametype poll =
     (let pf = (if poll \<noteq> 0 then X75_SPF else 0) in
      if md AND X75_EXTENDED \<noteq> 0 then
        if frametype AND X75_U = X75_U then [ucast frametype OR pf]
        else [ucast frametype, push_bit 1 (of_nat r) OR (if poll \<noteq> 0 then X75_EPF else 0)]
      else [(ucast frametype OR pf) OR
            (if frametype AND X75_U = X75_S then push_bit 5 (of_nat r) else 0)])"

definition x75_frmr :: "('d, 'm, 'q, 't) x75_cb \<Rightarrow> byte list" where
  "x75_frmr x =
     (if extended x then
        [0x87, f_control0 (frmr_data x), f_control1 (frmr_data x),
         push_bit 1 (of_nat (vs x)) AND 0xFE,
         (push_bit 1 (of_nat (vr x)) AND 0xFE) OR
           (if f_cr (frmr_data x) = X75_RESPONSE then 0x01 else 0),
         frmr_type x]
      else
        [0x87, f_control0 (frmr_data x),
         ((push_bit 1 (of_nat (vs x)) AND 0x0E) OR (push_bit 5 (of_nat (vr x)) AND 0xE0)) OR
           (if f_cr (frmr_data x) = X75_RESPONSE then 0x10 else 0),
         frmr_type x])"

definition x75_ictl :: "u32 \<Rightarrow> nat \<Rightarrow> nat \<Rightarrow> byte \<Rightarrow> byte list" where
  "x75_ictl md r s poll =
     (if md AND X75_EXTENDED \<noteq> 0 then
        [push_bit 1 (of_nat s), (if poll \<noteq> 0 then X75_EPF else 0) OR push_bit 1 (of_nat r)]
      else [((if poll \<noteq> 0 then X75_SPF else 0) OR push_bit 5 (of_nat r)) OR
            push_bit 1 (of_nat s)])"

definition x75_addr :: "u32 \<Rightarrow> byte \<Rightarrow> byte" where
  "x75_addr md type = the (x75_addr_out md type)"

definition x75_iframe :: "u32 \<Rightarrow> nat \<Rightarrow> nat \<Rightarrow> byte \<Rightarrow> byte list \<Rightarrow> byte list" where
  "x75_iframe md r s poll payload = x75_addr md X75_COMMAND # x75_ictl md r s poll @ payload"

lemma x75_addr_out_command: "x75_addr_out md X75_COMMAND = Some (x75_addr md X75_COMMAND)"
  by (simp add: x75_addr_out_def x75_addr_def)

lemma x75_addr_out_response: "x75_addr_out md X75_RESPONSE = Some (x75_addr md X75_RESPONSE)"
  by (simp add: x75_addr_out_def x75_addr_def)

lemma snd_data_transmit: "snd (x75_data_transmit skb x) = x\<lparr>dev := x75_tx x (dev x) skb\<rparr>"
  by (cases "data_transmit (callbacks x)") (simp_all add: x75_data_transmit_def x75_tx_def)

lemma snd_data_indication: "\<exists>d. snd (x75_data_indication skb x) = x\<lparr>dev := d\<rparr>"
proof (cases "data_indication (callbacks x)")
  case None
  then have "snd (x75_data_indication skb x) = x\<lparr>dev := dev x\<rparr>"
    by (simp add: x75_data_indication_def)
  then show ?thesis ..
next
  case (Some f)
  then have "snd (x75_data_indication skb x) = x\<lparr>dev := snd (f (dev x) skb)\<rparr>"
    by (simp add: x75_data_indication_def split_beta)
  then show ?thesis ..
qed

lemma x75_tx_upd [simp]:
  "x75_tx (x\<lparr>dev := d\<rparr>) = x75_tx x" "x75_tx (x\<lparr>vs := s\<rparr>) = x75_tx x"
  "x75_tx (x\<lparr>write_queue := q\<rparr>) = x75_tx x" "x75_tx (x\<lparr>write_queue_count := c\<rparr>) = x75_tx x"
  "x75_tx (x\<lparr>ack_queue := q\<rparr>) = x75_tx x" "x75_tx (x\<lparr>ack_queue_count := c\<rparr>) = x75_tx x"
  by (auto simp: x75_tx_def fun_eq_iff)

context osmo_lib
begin

lemma transmit_buffer:
  assumes "1 \<le> msgb_headroom L skb" and "x75_addr_out (mode x) type = Some a"
  obtains m where "x75_transmit_buffer L skb type x = Inr (x\<lparr>dev := x75_tx x (dev x) m\<rparr>)"
    and "msgb_data L m = a # msgb_data L skb"
proof -
  from assms(1) obtain m b where m: "msgb_push L skb 1 = Some m"
    and d: "msgb_data L m = b # msgb_data L skb"
    by (rule push_1)
  from d have "msgb_data L (msgb_wr L m 0 a) = a # msgb_data L skb"
    using wr [of 0 m a] by simp
  moreover have "x75_transmit_buffer L skb type x
      = Inr (x\<lparr>dev := x75_tx x (dev x) (msgb_wr L m 0 a)\<rparr>)"
    using m assms(2) by (simp add: x75_transmit_buffer_def snd_data_transmit)
  ultimately show ?thesis by (rule that [rotated])
qed

text \<open>A control or FRMR frame fits the buffer allocated for it.\<close>

lemma control_buffer:
  assumes "msgb_alloc L k = Some m" and "length bs = n" and "21 + n \<le> k \<and> k < 65536"
    and "x75_addr_out (mode x) type = Some a"
  obtains m' m'' where "msgb_put L (msgb_reserve L m 21) n = Some m'"
    and "x75_transmit_buffer L (msgb_wrs L m' 0 bs) type x = Inr (x\<lparr>dev := x75_tx x (dev x) m''\<rparr>)"
    and "msgb_data L m'' = a # bs"
proof -
  let ?r = "msgb_reserve L m 21"
  have r: "msgb_data L ?r = []" "msgb_headroom L ?r = 21" "n \<le> msgb_tailroom L ?r"
    using alloc [OF assms(1)] reserve [of m 21] assms(3) by auto
  then obtain m' old where m': "msgb_put L ?r n = Some m'" "length old = n"
    "msgb_data L m' = old" "msgb_headroom L m' = 21"
    using put_ok [of n ?r] by auto
  have w: "msgb_data L (msgb_wrs L m' 0 bs) = bs" "msgb_headroom L (msgb_wrs L m' 0 bs) = 21"
    using wrs [of m' "[]" old "[]" 0 bs] m' assms(2) by auto
  then obtain m'' where
    "x75_transmit_buffer L (msgb_wrs L m' 0 bs) type x = Inr (x\<lparr>dev := x75_tx x (dev x) m''\<rparr>)"
    "msgb_data L m'' = a # bs"
    using transmit_buffer [of "msgb_wrs L m' 0 bs" x type a] assms(4) by auto
  with m'(1) show ?thesis by (rule that)
qed

lemma send_control:
  assumes "type = X75_COMMAND \<or> type = X75_RESPONSE"
  obtains (nomem) "msgb_alloc L 23 = None" and "x75_send_control L frametype poll type x = Inr x"
  | (sent) m where "x75_send_control L frametype poll type x = Inr (x\<lparr>dev := x75_tx x (dev x) m\<rparr>)"
      and "msgb_data L m = x75_addr (mode x) type # x75_ctl (mode x) (vr x) frametype poll"
proof (cases "msgb_alloc L 23")
  case None
  then show ?thesis by (intro nomem) (simp_all add: x75_send_control_def)
next
  case (Some skb)
  let ?bs = "x75_ctl (mode x) (vr x) frametype poll"
  have a: "x75_addr_out (mode x) type = Some (x75_addr (mode x) type)"
    using assms x75_addr_out_command x75_addr_out_response by auto
  have "21 + length ?bs \<le> 23 \<and> (23::nat) < 65536"
    by (simp add: x75_ctl_def Let_def)
  from control_buffer [OF Some refl this a] obtain m' m'' where
    "msgb_put L (msgb_reserve L skb 21) (length ?bs) = Some m'"
    "x75_transmit_buffer L (msgb_wrs L m' 0 ?bs) type x = Inr (x\<lparr>dev := x75_tx x (dev x) m''\<rparr>)"
    and d: "msgb_data L m'' = x75_addr (mode x) type # ?bs"
    by blast
  then have "x75_send_control L frametype poll type x = Inr (x\<lparr>dev := x75_tx x (dev x) m''\<rparr>)"
    using Some by (auto simp: x75_send_control_def x75_ctl_def Let_def numeral_eq_Suc split: if_splits)
  then show ?thesis using d by (rule sent)
qed

lemma transmit_frmr:
  obtains (nomem) "msgb_alloc L 27 = None" and "x75_transmit_frmr L x = Inr x"
  | (sent) m where "x75_transmit_frmr L x = Inr (x\<lparr>dev := x75_tx x (dev x) m\<rparr>)"
      and "msgb_data L m = x75_addr (mode x) X75_RESPONSE # x75_frmr x"
proof (cases "msgb_alloc L 27")
  case None
  then show ?thesis by (intro nomem) (simp_all add: x75_transmit_frmr_def)
next
  case (Some skb)
  have len: "length (x75_frmr x) = (if extended x then 6 else 4)"
    by (simp add: x75_frmr_def)
  then have "21 + length (x75_frmr x) \<le> 27 \<and> (27::nat) < 65536"
    by simp
  from control_buffer [OF Some refl this x75_addr_out_response] obtain m' m'' where
    "msgb_put L (msgb_reserve L skb 21) (length (x75_frmr x)) = Some m'"
    "x75_transmit_buffer L (msgb_wrs L m' 0 (x75_frmr x)) X75_RESPONSE x
       = Inr (x\<lparr>dev := x75_tx x (dev x) m''\<rparr>)"
    and d: "msgb_data L m'' = x75_addr (mode x) X75_RESPONSE # x75_frmr x"
    by blast
  then have "x75_transmit_frmr L x = Inr (x\<lparr>dev := x75_tx x (dev x) m''\<rparr>)"
    using Some unfolding len
    by (cases "extended x") (simp_all add: x75_transmit_frmr_def x75_frmr_def Let_def del: msgb_wrs.simps)
  then show ?thesis using d by (rule sent)
qed

lemma send_iframe:
  assumes "3 \<le> msgb_headroom L skb"
  obtains m where "x75_send_iframe L (Some skb) poll x = Inr (x\<lparr>dev := x75_tx x (dev x) m\<rparr>)"
    and "msgb_data L m = x75_iframe (mode x) (vr x) (vs x) poll (msgb_data L skb)"
proof -
  let ?bs = "x75_ictl (mode x) (vr x) (vs x) poll"
  have n: "length ?bs \<le> msgb_headroom L skb" and n2: "length ?bs \<le> 2"
    using assms by (auto simp: x75_ictl_def)
  from push_ok [OF n] obtain m' old where m': "msgb_push L skb (length ?bs) = Some m'"
    "length old = length ?bs" "msgb_data L m' = old @ msgb_data L skb"
    "msgb_headroom L m' = msgb_headroom L skb - length ?bs"
    by blast
  have w: "msgb_data L (msgb_wrs L m' 0 ?bs) = ?bs @ msgb_data L skb"
    "1 \<le> msgb_headroom L (msgb_wrs L m' 0 ?bs)"
    using wrs [of m' "[]" old "msgb_data L skb" 0 ?bs] m' assms n2 by auto
  from transmit_buffer [OF w(2) x75_addr_out_command] obtain m where
    "x75_transmit_buffer L (msgb_wrs L m' 0 ?bs) X75_COMMAND x = Inr (x\<lparr>dev := x75_tx x (dev x) m\<rparr>)"
    and d: "msgb_data L m = x75_addr (mode x) X75_COMMAND # ?bs @ msgb_data L skb"
    using w(1) by auto
  then have "x75_send_iframe L (Some skb) poll x = Inr (x\<lparr>dev := x75_tx x (dev x) m\<rparr>)"
    using m'(1) by (auto simp: x75_send_iframe_def x75_ictl_def numeral_eq_Suc split: if_splits)
  then show ?thesis using d by (intro that) (simp_all add: x75_iframe_def)
qed

lemma wp_send_control [wp]:
  "type = X75_COMMAND \<or> type = X75_RESPONSE \<Longrightarrow> (\<And>d. Q (x\<lparr>dev := d\<rparr>)) \<Longrightarrow>
   ends E Q (x75_send_control L frametype poll type x)"
proof -
  assume t: "type = X75_COMMAND \<or> type = X75_RESPONSE" and Q: "\<And>d. Q (x\<lparr>dev := d\<rparr>)"
  from t show "ends E Q (x75_send_control L frametype poll type x)"
    by (rule send_control [of type frametype poll x]) (use Q [of "dev x"] Q in simp_all)
qed

lemma wp_transmit_frmr [wp]:
  "(\<And>d. Q (x\<lparr>dev := d\<rparr>)) \<Longrightarrow> ends E Q (x75_transmit_frmr L x)"
proof -
  assume Q: "\<And>d. Q (x\<lparr>dev := d\<rparr>)"
  show "ends E Q (x75_transmit_frmr L x)"
    by (rule transmit_frmr [of x]) (use Q [of "dev x"] Q in simp_all)
qed

end

end
