(* ===== verification/X75_Codec.thy ===== *)
theory X75_Codec
  imports X75_Wire
begin

text \<open>
  The parser against the wire format: what one station sends, the other parses back.
  The peer of a station runs the same procedures (modulus and link procedure bits of the
  mode) at the other end of the line (DCE bit).
\<close>

definition peer_mode :: "u32 \<Rightarrow> u32" where
  "peer_mode md = md XOR X75_DCE"

lemma mode_bits: "w AND 1 \<noteq> 0 \<longleftrightarrow> bit w 0" "w AND 2 \<noteq> 0 \<longleftrightarrow> bit w 1" "w AND 4 \<noteq> 0 \<longleftrightarrow> bit w 2"
  for w :: u32
  using and_exp_eq_0_iff_not_bit [of w 0] and_exp_eq_0_iff_not_bit [of w 1]
    and_exp_eq_0_iff_not_bit [of w 2] by simp_all

lemma peer_mode_bits:
  "peer_mode md AND 1 \<noteq> 0 \<longleftrightarrow> md AND 1 \<noteq> 0"
  "peer_mode md AND 2 \<noteq> 0 \<longleftrightarrow> md AND 2 \<noteq> 0"
  "peer_mode md AND 4 \<noteq> 0 \<longleftrightarrow> md AND 4 = 0"
  using mode_bits [of md] mode_bits [of "peer_mode md"]
  by (auto simp: peer_mode_def bit_xor_iff)

lemma peer_cr:
  "type = X75_COMMAND \<or> type = X75_RESPONSE \<Longrightarrow>
   x75_addr_cr (peer_mode md) (x75_addr md type) old = type"
  using peer_mode_bits [of md]
  by (auto simp: x75_addr_cr_def x75_addr_def x75_addr_out_def)

text \<open>Control octets, checked for every sequence number.\<close>

lemma ictl_ext_all:
  "\<forall>s\<in>set [0..<128]. let w = push_bit 1 (of_nat s) :: byte in
     w AND 1 = 0 \<and> unat (drop_bit 1 w AND 0x7F) = s"
  by code_simp

lemma nr_ext_all:
  "\<forall>p\<in>set [0, 1]. \<forall>s\<in>set [0..<128]. let w = p OR push_bit 1 (of_nat s) :: byte in
     w AND 1 = p \<and> unat (drop_bit 1 w AND 0x7F) = s"
  by code_simp

lemma ictl_std_all:
  "\<forall>p\<in>set [0, 0x10]. \<forall>r\<in>set [0..<8]. \<forall>s\<in>set [0..<8].
     let w = (p OR push_bit 5 (of_nat r)) OR push_bit 1 (of_nat s) :: byte in
     w AND 1 = 0 \<and> w AND 0x10 = p \<and>
     unat (drop_bit 1 w AND 0x07) = s \<and> unat (drop_bit 5 w AND 0x07) = r"
  by code_simp

lemma sctl_std_all:
  "\<forall>t\<in>set [X75_RR, X75_RNR, X75_REJ]. \<forall>p\<in>set [0, 0x10]. \<forall>r\<in>set [0..<8].
     let w = (ucast t OR p) OR push_bit 5 (of_nat r) :: byte in
     w AND 1 = 1 \<and> w AND 3 = 1 \<and> w AND 0x10 = p \<and> ucast (w AND 0x0F) = t \<and>
     unat (drop_bit 5 w AND 0x07) = r"
  by code_simp

lemma sctl_ext_all:
  "\<forall>t\<in>set [X75_RR, X75_RNR, X75_REJ]. let w = ucast t :: byte in
     w AND 1 = 1 \<and> w AND 3 = 1 \<and> ucast (w AND 0x0F) = t"
  by code_simp

lemma uctl_all:
  "\<forall>t\<in>set [X75_SABM, X75_SABME, X75_DISC, X75_DM, X75_UA, X75_FRMR]. \<forall>p\<in>set [0, 0x10].
     let w = ucast t OR p :: byte in
     w AND 1 = 1 \<and> w AND 3 = 3 \<and> w AND 0x10 = p \<and> ucast (w AND NOT 0x10) = t"
  by code_simp

text \<open>Every control octet is one of the three kinds, and the kinds do not overlap.\<close>

lemma and_mask_unat: "unat (w AND 1) = unat w mod 2" "unat (w AND 3) = unat w mod 4" for w :: byte
proof -
  have mask3: "mask 2 = (3 :: byte)" by code_simp
  have m: "unat (w AND mask n) = unat w mod 2 ^ n" for n
    by (simp only: take_bit_eq_mask [symmetric] unsigned_take_bit_eq) (simp add: take_bit_eq_mod)
  show "unat (w AND 1) = unat w mod 2" using m [of 1] by simp
  show "unat (w AND 3) = unat w mod 4" using m [of 2] unfolding mask3 by simp
qed

lemma octet_kind: "w AND 1 = 0 \<or> w AND 3 = 1 \<or> w AND 3 = 3" for w :: byte
proof -
  have "unat w mod 2 = 0 \<or> unat w mod 4 = 1 \<or> unat w mod 4 = 3" by presburger
  then have "unat (w AND 1) = unat (0::byte) \<or> unat (w AND 3) = unat (1::byte) \<or> unat (w AND 3) = unat (3::byte)"
    by (simp add: and_mask_unat)
  then show ?thesis by (simp only: word_unat_eq_iff)
qed

lemma octet_u:
  fixes w :: byte
  assumes "w AND 3 = 3"
  shows "(ucast (w AND NOT 0x10) :: u16) \<notin> {X75_I, X75_RR, X75_RNR, X75_REJ, X75_ILLEGAL}"
proof -
  have "bit (w AND 3) 1" using assms by simp
  then have "bit (ucast (w AND NOT 0x10) :: u16) 1"
    by (simp add: bit_and_iff bit_not_iff bit_unsigned_iff)
  then show ?thesis by auto
qed
lemma octet_s:
  fixes w :: byte
  assumes "w AND 3 = 1"
  shows "(ucast (w AND 0x0F) :: u16) \<notin> {X75_I, X75_ILLEGAL}"
proof -
  have "bit (w AND 3) 0" using assms by simp
  then have "bit (ucast (w AND 0x0F) :: u16) 0"
    by (simp add: bit_and_iff bit_unsigned_iff)
  then show ?thesis by auto
qed
lemma octet_seqno: "unat (w AND 0x7F) < 128" "unat (w AND 0x07) < 8" for w :: byte
  using word_and_le1 [of w "0x7F"] word_and_le1 [of w 7] by (simp_all add: word_le_nat_alt)

text \<open>
  What a parsed frame is known to satisfy, whatever the bytes: it has a type the control
  octet really encodes, and the sequence numbers it carries are within the modulus.
\<close>

definition frame_ok :: "('d, 'm, 'q, 't) x75_cb \<Rightarrow> x75_frame \<Rightarrow> bool" where
  "frame_ok x frame \<longleftrightarrow> f_type frame \<noteq> X75_ILLEGAL \<and>
     (f_type frame \<in> {X75_I, X75_RR, X75_RNR, X75_REJ} \<longrightarrow> f_nr frame < modulus x) \<and>
     (f_type frame = X75_I \<longrightarrow> f_ns frame < modulus x)"

lemma decode_ext_ok:
  assumes "x75_decode_ext L skb frame = Some (skb', frame')" and "extended x"
  shows "frame_ok x frame'"
proof -
  let ?d = "msgb_rd L skb 0"
  from octet_kind [of ?d] consider "?d AND 1 = 0" | "?d AND 1 \<noteq> 0" "?d AND 3 = 1"
    | "?d AND 1 \<noteq> 0" "?d AND 3 = 3" by blast
  then show ?thesis
    using assms octet_u [of ?d] octet_s [of ?d] octet_seqno(1)
    by cases (auto simp: x75_decode_ext_def frame_ok_def modulus_def Let_def split: if_splits)
qed

lemma decode_std_ok:
  assumes "x75_decode_std L skb frame = Some (skb', frame')" and "\<not> extended x"
  shows "frame_ok x frame'"
proof -
  let ?d = "msgb_rd L skb 0"
  from octet_kind [of ?d] consider "?d AND 1 = 0" | "?d AND 1 \<noteq> 0" "?d AND 3 = 1"
    | "?d AND 1 \<noteq> 0" "?d AND 3 = 3" by blast
  then show ?thesis
    using assms octet_u [of ?d] octet_s [of ?d] octet_seqno(2)
    by cases (auto simp: x75_decode_std_def frame_ok_def modulus_def Let_def)
qed

lemma decode_ok: "x75_decode L x skb stack = Some (skb', frame) \<Longrightarrow> frame_ok x frame"
  by (auto simp: x75_decode_def Let_def split: if_splits intro: decode_ext_ok decode_std_ok)

text \<open>
  The length checks of \<open>x75_decode\<close> let the message pass. \<open>msgb_headlen\<close> is the unsigned
  difference of the fields \<open>len\<close>, the used bytes, and \<open>data_len\<close>, which is the size of the
  whole buffer: a large number, unless the used bytes fill the buffer. All that is relied
  on is that two bytes pass the checks when there is other room in the buffer.
\<close>

definition headlen_ok :: "('m, 'q, 't) osmo_api \<Rightarrow> u32 \<Rightarrow> 'm \<Rightarrow> bool" where
  "headlen_ok L md m \<longleftrightarrow> 2 \<le> msgb_headlen L m \<and>
     (md AND X75_EXTENDED \<noteq> 0 \<longrightarrow> 2 \<le> msgb_headlen L (msgb_pull L m 1))"

definition roomy :: "('m, 'q, 't) osmo_api \<Rightarrow> 'm \<Rightarrow> bool" where
  "roomy L m \<longleftrightarrow> 0 < msgb_headroom L m + msgb_tailroom L m"

definition headlen_passes :: "('m, 'q, 't) osmo_api \<Rightarrow> bool" where
  "headlen_passes L \<longleftrightarrow> (\<forall>m. roomy L m \<longrightarrow> 2 \<le> length (msgb_data L m) \<longrightarrow> 2 \<le> msgb_headlen L m)"

context osmo_lib
begin

lemma headlen_okI:
  "headlen_passes L \<Longrightarrow> roomy L m \<Longrightarrow> 2 \<le> length (msgb_data L m) \<Longrightarrow>
   md AND X75_EXTENDED \<noteq> 0 \<longrightarrow> 3 \<le> length (msgb_data L m) \<Longrightarrow> headlen_ok L md m"
  using pull [of 1 m] by (auto simp: headlen_ok_def headlen_passes_def roomy_def)

lemma headlen_iframe:
  "headlen_passes L \<Longrightarrow> roomy L m \<Longrightarrow> msgb_data L m = x75_iframe md r s poll payload \<Longrightarrow> headlen_ok L md m"
  by (rule headlen_okI) (simp_all add: x75_iframe_def x75_ictl_def)

lemma headlen_sframe:
  "headlen_passes L \<Longrightarrow> roomy L m \<Longrightarrow> msgb_data L m = a # x75_ctl md r t poll \<Longrightarrow>
   t \<in> {X75_RR, X75_RNR, X75_REJ} \<Longrightarrow> headlen_ok L md m"
  by (rule headlen_okI) (auto simp: x75_ctl_def Let_def)

lemma rd_after_pull:
  assumes "msgb_data L m = a # b # bs"
  shows "msgb_rd L m 0 = a" "msgb_rd L (msgb_pull L m 1) 0 = b"
    "msgb_data L (msgb_pull L (msgb_pull L m 1) 1) = bs"
    "msgb_data L (msgb_pull L m 1) = b # bs"
    "bs = c # cs \<Longrightarrow> msgb_rd L (msgb_pull L m 1) 1 = c"
    "bs = c # cs \<Longrightarrow> msgb_data L (msgb_pull L (msgb_pull L m 1) 2) = cs"
proof -
  show d: "msgb_data L (msgb_pull L m 1) = b # bs"
    using assms pull [of 1 m] by simp
  show "msgb_rd L m 0 = a" using assms rd [of 0 m] by simp
  show "msgb_rd L (msgb_pull L m 1) 0 = b" using d rd [of 0 "msgb_pull L m 1"] by simp
  show "msgb_data L (msgb_pull L (msgb_pull L m 1) 1) = bs"
    using d pull [of 1 "msgb_pull L m 1"] by simp
  show "bs = c # cs \<Longrightarrow> msgb_rd L (msgb_pull L m 1) 1 = c"
    using d rd [of 1 "msgb_pull L m 1"] by simp
  show "bs = c # cs \<Longrightarrow> msgb_data L (msgb_pull L (msgb_pull L m 1) 2) = cs"
    using d pull [of 2 "msgb_pull L m 1"] by simp
qed

lemma decode_iframe:
  assumes data: "msgb_data L m = x75_iframe md r s poll payload"
    and y: "mode y = peer_mode md" and len: "headlen_ok L md m"
    and r: "r < modulus y" and s: "s < modulus y"
  obtains m' frame where "x75_decode L y m stack = Some (m', frame)"
    and "msgb_data L m' = payload" and "f_type frame = X75_I" and "f_ns frame = s"
    and "f_nr frame = r" and "f_pf frame \<noteq> 0 \<longleftrightarrow> poll \<noteq> 0" and "f_cr frame = X75_COMMAND"
proof (cases "md AND X75_EXTENDED \<noteq> 0")
  case True
  let ?p = "if poll \<noteq> 0 then 1 else 0 :: byte"
  let ?b = "push_bit 1 (of_nat s) :: byte" and ?c = "?p OR push_bit 1 (of_nat r) :: byte"
  have d: "msgb_data L m = x75_addr md X75_COMMAND # ?b # ?c # payload"
    using data True by (simp add: x75_iframe_def x75_ictl_def)
  have ext: "extended y" and "r < 128" and "s < 128"
    using r s y True peer_mode_bits(1) by (simp_all add: modulus_def)
  then have bits: "?b AND 1 = 0" "unat (drop_bit 1 ?b AND 0x7F) = s"
    "?c AND 1 = ?p" "unat (drop_bit 1 ?c AND 0x7F) = r"
    using ictl_ext_all nr_ext_all by (auto simp: Let_def)
  have "x75_decode L y m stack = Some (msgb_pull L (msgb_pull L m 1) 2,
      stack\<lparr>f_type := X75_I, f_cr := X75_COMMAND, f_ns := s, f_nr := r, f_pf := ?p,
            f_control0 := ?b, f_control1 := ?c\<rparr>)"
    using bits ext len [unfolded headlen_ok_def, simplified True] y rd_after_pull [OF d]
    by (simp add: x75_decode_def x75_decode_ext_def Let_def peer_cr)
  then show ?thesis
    by (rule that) (use rd_after_pull(6) [OF d refl] in simp_all)
next
  case False
  let ?p = "if poll \<noteq> 0 then 0x10 else 0 :: byte"
  let ?b = "(?p OR push_bit 5 (of_nat r)) OR push_bit 1 (of_nat s) :: byte"
  have d: "msgb_data L m = x75_addr md X75_COMMAND # ?b # payload"
    using data False by (simp add: x75_iframe_def x75_ictl_def)
  have ext: "\<not> extended y" and "r < 8" and "s < 8"
    using r s y False peer_mode_bits(1) by (simp_all add: modulus_def)
  then have bits: "?b AND 1 = 0" "?b AND 0x10 = ?p"
    "unat (drop_bit 1 ?b AND 0x07) = s" "unat (drop_bit 5 ?b AND 0x07) = r"
    using ictl_std_all by (auto simp: Let_def)
  have "x75_decode L y m stack = Some (msgb_pull L (msgb_pull L m 1) 1,
      stack\<lparr>f_type := X75_I, f_cr := X75_COMMAND, f_ns := s, f_nr := r, f_pf := ?p,
            f_control0 := ?b\<rparr>)"
    using bits ext len y rd_after_pull [OF d]
    by (simp add: x75_decode_def x75_decode_std_def headlen_ok_def Let_def peer_cr)
  then show ?thesis
    by (rule that) (use rd_after_pull(3) [OF d] in simp_all)
qed

lemma decode_sframe:
  assumes data: "msgb_data L m = x75_addr md type # x75_ctl md r t poll"
    and ty: "type = X75_COMMAND \<or> type = X75_RESPONSE"
    and t: "t \<in> {X75_RR, X75_RNR, X75_REJ}"
    and y: "mode y = peer_mode md" and len: "headlen_ok L md m" and r: "r < modulus y"
  obtains m' frame where "x75_decode L y m stack = Some (m', frame)" and "f_type frame = t"
    and "f_nr frame = r" and "f_pf frame \<noteq> 0 \<longleftrightarrow> poll \<noteq> 0" and "f_cr frame = type"
proof (cases "md AND X75_EXTENDED \<noteq> 0")
  case True
  let ?p = "if poll \<noteq> 0 then 1 else 0 :: byte"
  let ?b = "ucast t :: byte" and ?c = "?p OR push_bit 1 (of_nat r) :: byte"
  have d: "msgb_data L m = x75_addr md type # ?b # ?c # []"
    using data True t by (auto simp: x75_ctl_def Let_def or.commute)
  have ext: "extended y" and "r < 128"
    using r y True peer_mode_bits(1) by (simp_all add: modulus_def)
  then have bits: "?b AND 1 \<noteq> 0" "?b AND 3 = 1" "ucast (?b AND 0x0F) = t"
    "?c AND 1 = ?p" "unat (drop_bit 1 ?c AND 0x7F) = r"
    using sctl_ext_all nr_ext_all t by (auto simp: Let_def)
  have "x75_decode L y m stack = Some (msgb_pull L (msgb_pull L m 1) 2,
      stack\<lparr>f_type := t, f_cr := type, f_nr := r, f_pf := ?p,
            f_control0 := ?b, f_control1 := ?c\<rparr>)"
    using bits ext len [unfolded headlen_ok_def, simplified True] y rd_after_pull [OF d] peer_cr [OF ty]
    by (simp add: x75_decode_def x75_decode_ext_def Let_def)
  then show ?thesis by (rule that) simp_all
next
  case False
  let ?p = "if poll \<noteq> 0 then 0x10 else 0 :: byte"
  let ?b = "(ucast t OR ?p) OR push_bit 5 (of_nat r) :: byte"
  have d: "msgb_data L m = x75_addr md type # ?b # []"
    using data False t by (auto simp: x75_ctl_def Let_def)
  have ext: "\<not> extended y" and "r < 8"
    using r y False peer_mode_bits(1) by (simp_all add: modulus_def)
  then have bits: "?b AND 1 \<noteq> 0" "?b AND 3 = 1" "?b AND 0x10 = ?p" "ucast (?b AND 0x0F) = t"
    "unat (drop_bit 5 ?b AND 0x07) = r"
    using sctl_std_all t by (auto simp: Let_def)
  have "x75_decode L y m stack = Some (msgb_pull L (msgb_pull L m 1) 1,
      stack\<lparr>f_type := t, f_cr := type, f_nr := r, f_pf := ?p, f_control0 := ?b\<rparr>)"
    using bits ext len y rd_after_pull [OF d] peer_cr [OF ty]
    by (simp add: x75_decode_def x75_decode_std_def headlen_ok_def Let_def)
  then show ?thesis by (rule that) simp_all
qed

lemma decode_uframe:
  assumes data: "msgb_data L m = x75_addr md type # x75_ctl md r t poll"
    and ty: "type = X75_COMMAND \<or> type = X75_RESPONSE"
    and t: "t \<in> {X75_SABM, X75_SABME, X75_DISC, X75_DM, X75_UA, X75_FRMR}"
    and y: "mode y = peer_mode md" and len: "2 \<le> msgb_headlen L m"
  obtains m' frame where "x75_decode L y m stack = Some (m', frame)" and "f_type frame = t"
    and "f_pf frame \<noteq> 0 \<longleftrightarrow> poll \<noteq> 0" and "f_cr frame = type"
proof -
  let ?p = "if poll \<noteq> 0 then 0x10 else 0 :: byte"
  let ?b = "ucast t OR ?p :: byte"
  have d: "msgb_data L m = x75_addr md type # ?b # []"
    using data t by (auto simp: x75_ctl_def Let_def)
  have bits: "?b AND 1 \<noteq> 0" "?b AND 3 = 3" "?b AND 0x10 = ?p" "ucast (?b AND NOT 0x10) = t"
    using uctl_all t by (auto simp: Let_def)
  have "x75_decode L y m stack = Some (msgb_pull L (msgb_pull L m 1) 1,
      if extended y then stack\<lparr>f_type := t, f_cr := type, f_pf := ?p,
            f_control0 := ?b, f_control1 := 0\<rparr>
      else stack\<lparr>f_type := t, f_cr := type, f_pf := ?p, f_control0 := ?b\<rparr>)"
    using bits len y rd_after_pull [OF d] peer_cr [OF ty]
    by (simp add: x75_decode_def x75_decode_ext_def x75_decode_std_def Let_def)
  then show ?thesis by (rule that) simp_all
qed

end

end
