(* ===== verification/X75_Queues.thy ===== *)
theory X75_Queues
  imports X75_Codec
begin

text \<open>
  What the loops of the link layer compute: the N(R) check, the removal of acknowledged
  frames, the requeueing of unacknowledged ones and the transmit loop. Each lemma gives
  the result of the loop exactly, and with it that the loop ends.
\<close>

abbreviation wq :: "('m, 'q, 't) osmo_api \<Rightarrow> ('d, 'm, 'q, 't) x75_cb \<Rightarrow> 'm list" where
  "wq L x \<equiv> msgb_queue L (write_queue x)"

abbreviation aq :: "('m, 'q, 't) osmo_api \<Rightarrow> ('d, 'm, 'q, 't) x75_cb \<Rightarrow> 'm list" where
  "aq L x \<equiv> msgb_queue L (ack_queue x)"

lemma modulus_upd [simp]:
  "modulus (x\<lparr>dev := d\<rparr>) = modulus x" "modulus (x\<lparr>state := st\<rparr>) = modulus x"
  "modulus (x\<lparr>vs := n\<rparr>) = modulus x" "modulus (x\<lparr>vr := n\<rparr>) = modulus x"
  "modulus (x\<lparr>va := n\<rparr>) = modulus x" "modulus (x\<lparr>condition := c\<rparr>) = modulus x"
  "modulus (x\<lparr>n2count := k\<rparr>) = modulus x" "modulus (x\<lparr>t1timer := t\<rparr>) = modulus x"
  "modulus (x\<lparr>t2timer := t\<rparr>) = modulus x" "modulus (x\<lparr>t1timer_running := b\<rparr>) = modulus x"
  "modulus (x\<lparr>t2timer_running := b\<rparr>) = modulus x"
  "modulus (x\<lparr>write_queue := q\<rparr>) = modulus x" "modulus (x\<lparr>write_queue_count := n\<rparr>) = modulus x"
  "modulus (x\<lparr>ack_queue := q\<rparr>) = modulus x" "modulus (x\<lparr>ack_queue_count := n\<rparr>) = modulus x"
  "modulus (x\<lparr>frmr_data := f\<rparr>) = modulus x" "modulus (x\<lparr>frmr_type := b'\<rparr>) = modulus x"
  by (simp_all add: modulus_def)

lemma modulus_pos [simp]: "0 < modulus x"
  by (simp add: modulus_def)

section \<open>The N(R) check\<close>

text \<open>N(R) is acceptable when it is one of V(A), V(A)+1, ..., V(S).\<close>

definition nr_valid :: "('d, 'm, 'q, 't) x75_cb \<Rightarrow> nat \<Rightarrow> bool" where
  "nr_valid x nr \<longleftrightarrow>
     (\<exists>k \<le> ring_dist (modulus x) (va x) (vs x). nr = (va x + k) mod modulus x)"

lemma nr_loop:
  assumes "vc < m" and "s < m" and "ring_dist m vc s = d"
  shows "\<exists>vc' ret. while_option (\<lambda>(vc, ret). ret = None \<and> vc \<noteq> s)
       (\<lambda>(vc, ret). if nr = vc then (vc, Some True) else ((vc + 1) mod m, None)) (vc, None)
         = Some (vc', ret) \<and>
     (case ret of None \<Rightarrow> nr = s | Some r \<Rightarrow> r) = (\<exists>k \<le> d. nr = (vc + k) mod m)"
  using assms
proof (induction d arbitrary: vc)
  case 0
  then have "vc = s" by (simp add: ring_dist_eq_0)
  with 0 show ?case by (simp add: while_option_unfold)
next
  case (Suc d)
  then have ne: "vc \<noteq> s" by auto
  show ?case
  proof (cases "nr = vc")
    case True
    then have "\<exists>k \<le> Suc d. nr = (vc + k) mod m"
      using Suc.prems(1) by (intro exI [of _ 0]) simp
    moreover have "while_option (\<lambda>(vc, ret). ret = None \<and> vc \<noteq> s)
        (\<lambda>(vc, ret). if nr = vc then (vc, Some True) else ((vc + 1) mod m, None)) (vc, None)
        = Some (vc, Some True)"
      using True ne by (subst while_option_unfold) (simp add: while_option_unfold)
    ultimately show ?thesis by simp
  next
    case False
    have step: "(\<exists>k \<le> Suc d. nr = (vc + k) mod m) \<longleftrightarrow> (\<exists>k \<le> d. nr = (Suc vc mod m + k) mod m)"
      unfolding ex_le_Suc using False Suc.prems(1) by (simp add: mod_simps)
    have "ring_dist m (Suc vc mod m) s = d"
      using ring_dist_step [of vc m s] Suc.prems ne by simp
    then show ?thesis
      using Suc.IH [of "Suc vc mod m"] Suc.prems False ne
      by (subst while_option_unfold) (simp add: step)
  qed
qed

lemma validate_nr:
  assumes "va x < modulus x" and "vs x < modulus x"
  shows "x75_validate_nr x nr = Inr (nr_valid x nr)"
proof -
  obtain vc ret where "while_option (\<lambda>(vc, ret). ret = None \<and> vc \<noteq> vs x)
      (\<lambda>(vc, ret). if nr = vc then (vc, Some True) else ((vc + 1) mod modulus x, None))
      (va x, None) = Some (vc, ret)"
    and "(case ret of None \<Rightarrow> nr = vs x | Some r \<Rightarrow> r) = nr_valid x nr"
    using nr_loop [OF assms refl, of nr] unfolding nr_valid_def by blast
  then show ?thesis by (cases ret) (simp_all add: x75_validate_nr_def)
qed

section \<open>Acknowledged and requeued frames\<close>

context osmo_lib
begin

lemma deq_ack_empty: "aq L x = [] \<Longrightarrow> deq_ack L x = (None, x)"
  by (simp add: deq_ack_def dequeue_empty)

lemma deq_ack_some:
  assumes "aq L x = m # ms"
  shows "\<exists>q c. deq_ack L x = (Some m, x\<lparr>ack_queue := q, ack_queue_count := c\<rparr>) \<and>
    msgb_queue L q = ms \<and> (0 < ack_queue_count x \<longrightarrow> c = ack_queue_count x - 1)"
proof -
  from dequeue_some [OF assms, of "ack_queue_count x"] obtain q c where
    "msgb_dequeue_count L (ack_queue x) (ack_queue_count x) = (Some m, q, c)"
    and rest: "msgb_queue L q = ms" "0 < ack_queue_count x \<longrightarrow> c = ack_queue_count x - 1"
    by metis
  then have "deq_ack L x = (Some m, x\<lparr>ack_queue := q, ack_queue_count := c\<rparr>)"
    by (simp add: deq_ack_def)
  with rest show ?thesis by metis
qed

lemma deq_write_empty: "wq L x = [] \<Longrightarrow> deq_write L x = (None, x)"
  by (simp add: deq_write_def dequeue_empty)

lemma deq_write_some:
  assumes "wq L x = m # ms"
  shows "\<exists>q c. deq_write L x = (Some m, x\<lparr>write_queue := q, write_queue_count := c\<rparr>) \<and>
    msgb_queue L q = ms \<and> (0 < write_queue_count x \<longrightarrow> c = write_queue_count x - 1)"
proof -
  from dequeue_some [OF assms, of "write_queue_count x"] obtain q c where
    "msgb_dequeue_count L (write_queue x) (write_queue_count x) = (Some m, q, c)"
    and rest: "msgb_queue L q = ms" "0 < write_queue_count x \<longrightarrow> c = write_queue_count x - 1"
    by metis
  then have "deq_write L x = (Some m, x\<lparr>write_queue := q, write_queue_count := c\<rparr>)"
    by (simp add: deq_write_def)
  with rest show ?thesis by metis
qed

lemma enq_write_eq:
  obtains q where "enq_write L m x = x\<lparr>write_queue := q, write_queue_count := Suc (write_queue_count x)\<rparr>"
    and "msgb_queue L q = wq L x @ [m]"
  using enqueue [of "write_queue x" m "write_queue_count x"]
  by (cases "msgb_enqueue_count L (write_queue x) m (write_queue_count x)")
     (auto simp: enq_write_def)

lemma enq_ack_eq:
  obtains q where "enq_ack L m x = x\<lparr>ack_queue := q, ack_queue_count := Suc (ack_queue_count x)\<rparr>"
    and "msgb_queue L q = aq L x @ [m]"
  using enqueue [of "ack_queue x" m "ack_queue_count x"]
  by (cases "msgb_enqueue_count L (ack_queue x) m (ack_queue_count x)")
     (auto simp: enq_ack_def)

text \<open>
  The loop drops one frame per step until V(A) has reached N(R). With an exact queue
  counter it stops early when the queue is empty.
\<close>

lemma acked_loop:
  assumes "va x < modulus x" and "nr < modulus x" and "ring_dist (modulus x) (va x) nr = d"
  shows "\<exists>q c k. while_option (\<lambda>x. ack_queue_count x \<noteq> 0 \<and> va x \<noteq> nr)
      (\<lambda>x. let (skb, x) = deq_ack L x in x\<lparr>va := (va x + 1) mod modulus x\<rparr>) x
      = Some (x\<lparr>ack_queue := q, ack_queue_count := c, va := (va x + k) mod modulus x\<rparr>) \<and>
    msgb_queue L q = drop k (aq L x) \<and> k \<le> d \<and>
    (ack_queue_count x = length (aq L x) \<longrightarrow>
       c = length (msgb_queue L q) \<and> k = min (length (aq L x)) d)"
  using assms
proof (induction d arbitrary: x)
  case 0
  then have "va x = nr" by (simp add: ring_dist_eq_0)
  with 0 show ?case
    by (intro exI [of _ "ack_queue x"] exI [of _ "ack_queue_count x"] exI [of _ 0])
       (simp add: while_option_unfold)
next
  case (Suc d)
  let ?m = "modulus x"
  have ne: "va x \<noteq> nr" using Suc.prems by auto
  show ?case
  proof (cases "ack_queue_count x = 0")
    case True
    with Suc.prems show ?thesis
      by (intro exI [of _ "ack_queue x"] exI [of _ "ack_queue_count x"] exI [of _ 0])
         (simp add: while_option_unfold)
  next
    case cnt: False
    obtain q c where deq: "snd (deq_ack L x) = x\<lparr>ack_queue := q, ack_queue_count := c\<rparr>"
      and q: "msgb_queue L q = drop 1 (aq L x)"
      and c: "ack_queue_count x = length (aq L x) \<Longrightarrow> c = length (msgb_queue L q)"
    proof (cases "aq L x")
      case Nil
      with cnt show ?thesis
        by (intro that [where q = "ack_queue x" and c = "ack_queue_count x"]) (simp_all add: deq_ack_empty)
    next
      case (Cons m ms)
      then obtain q c where "deq_ack L x = (Some m, x\<lparr>ack_queue := q, ack_queue_count := c\<rparr>)"
        "msgb_queue L q = ms" "0 < ack_queue_count x \<Longrightarrow> c = ack_queue_count x - 1"
        using deq_ack_some by metis
      with cnt Cons show ?thesis by (intro that [where q = q and c = c]) simp_all
    qed
    let ?x = "x\<lparr>ack_queue := q, ack_queue_count := c, va := (va x + 1) mod ?m\<rparr>"
    have "ring_dist ?m (Suc (va x) mod ?m) nr = d"
      using ring_dist_step [of "va x" ?m nr] Suc.prems ne by simp
    then have p: "va ?x < modulus ?x" "nr < modulus ?x" "ring_dist (modulus ?x) (va ?x) nr = d"
      using Suc.prems by simp_all
    from Suc.IH [OF p] obtain q' c' k where
      w: "while_option (\<lambda>x. ack_queue_count x \<noteq> 0 \<and> va x \<noteq> nr)
        (\<lambda>x. let (skb, x) = deq_ack L x in x\<lparr>va := (va x + 1) mod modulus x\<rparr>) ?x
        = Some (?x\<lparr>ack_queue := q', ack_queue_count := c', va := (va ?x + k) mod modulus ?x\<rparr>)"
      and q': "msgb_queue L q' = drop k (aq L ?x)" and k: "k \<le> d"
      and c': "ack_queue_count ?x = length (aq L ?x) \<longrightarrow>
        c' = length (msgb_queue L q') \<and> k = min (length (aq L ?x)) d"
      by (elim exE conjE) (rule that)
    have "while_option (\<lambda>x. ack_queue_count x \<noteq> 0 \<and> va x \<noteq> nr)
        (\<lambda>x. let (skb, x) = deq_ack L x in x\<lparr>va := (va x + 1) mod modulus x\<rparr>) x
        = Some (x\<lparr>ack_queue := q', ack_queue_count := c', va := (va x + Suc k) mod ?m\<rparr>)"
      using w deq cnt ne by (subst while_option_unfold) (simp add: split_beta mod_simps)
    moreover have "ack_queue_count x = length (aq L x) \<longrightarrow>
        c' = length (msgb_queue L q') \<and> Suc k = min (length (aq L x)) (Suc d)"
      using c c' q cnt by (cases "aq L x") auto
    ultimately show ?thesis
      using q q' k by (intro exI [of _ q'] exI [of _ c'] exI [of _ "Suc k"]) simp
  qed
qed

lemma frames_acked:
  assumes "va x < modulus x" and "nr < modulus x"
  obtains q c k where
    "x75_frames_acked L nr x
       = Inr (x\<lparr>ack_queue := q, ack_queue_count := c, va := (va x + k) mod modulus x\<rparr>)"
    and "msgb_queue L q = drop k (aq L x)" and "k \<le> ring_dist (modulus x) (va x) nr"
    and "ack_queue_count x = length (aq L x) \<longrightarrow>
       c = length (msgb_queue L q) \<and> k = min (length (aq L x)) (ring_dist (modulus x) (va x) nr)"
proof (cases "va x = nr")
  case True
  with assms show ?thesis
    by (intro that [where q = "ack_queue x" and c = "ack_queue_count x" and k = 0])
       (simp_all add: x75_frames_acked_def)
next
  case False
  from acked_loop [OF assms refl] obtain q c k where
    w: "while_option (\<lambda>x. ack_queue_count x \<noteq> 0 \<and> va x \<noteq> nr)
      (\<lambda>x. let (skb, x) = deq_ack L x in x\<lparr>va := (va x + 1) mod modulus x\<rparr>) x
      = Some (x\<lparr>ack_queue := q, ack_queue_count := c, va := (va x + k) mod modulus x\<rparr>)"
    and rest: "msgb_queue L q = drop k (aq L x)" "k \<le> ring_dist (modulus x) (va x) nr"
      "ack_queue_count x = length (aq L x) \<longrightarrow> c = length (msgb_queue L q) \<and>
         k = min (length (aq L x)) (ring_dist (modulus x) (va x) nr)"
    by blast
  from w False have "x75_frames_acked L nr x
      = Inr (x\<lparr>ack_queue := q, ack_queue_count := c, va := (va x + k) mod modulus x\<rparr>)"
    unfolding x75_frames_acked_def by simp
  then show ?thesis using rest by (rule that)
qed

lemma requeue_loop:
  "\<exists>q1 q2 c2. while_option (\<lambda>(skb, x). skb \<noteq> None)
      (\<lambda>(skb, x). case skb of None \<Rightarrow> (skb, x) | Some m \<Rightarrow> deq_ack L (enq_write L m x)) (deq_ack L x)
      = Some (None, x\<lparr>write_queue := q1,
          write_queue_count := write_queue_count x + length (aq L x),
          ack_queue := q2, ack_queue_count := c2\<rparr>) \<and>
    msgb_queue L q1 = wq L x @ aq L x \<and> msgb_queue L q2 = [] \<and>
    (ack_queue_count x = length (aq L x) \<longrightarrow> c2 = 0)"
proof (induction "aq L x" arbitrary: x)
  case Nil
  then show ?case
    by (intro exI [of _ "write_queue x"] exI [of _ "ack_queue x"] exI [of _ "ack_queue_count x"])
       (simp add: deq_ack_empty while_option_unfold)
next
  case (Cons m ms)
  let ?b = "\<lambda>(skb :: 'm option, x :: ('d, 'm, 'q, 't) x75_cb). skb \<noteq> None"
  let ?c = "\<lambda>(skb :: 'm option, x :: ('d, 'm, 'q, 't) x75_cb).
    case skb of None \<Rightarrow> (skb, x) | Some m \<Rightarrow> deq_ack L (enq_write L m x)"
  obtain q c where deq: "deq_ack L x = (Some m, x\<lparr>ack_queue := q, ack_queue_count := c\<rparr>)"
    and q: "msgb_queue L q = ms" and c: "0 < ack_queue_count x \<longrightarrow> c = ack_queue_count x - 1"
    using deq_ack_some [OF Cons.hyps(2) [symmetric]] by metis
  let ?x = "x\<lparr>ack_queue := q, ack_queue_count := c\<rparr>"
  obtain q' where enq: "enq_write L m ?x
      = ?x\<lparr>write_queue := q', write_queue_count := Suc (write_queue_count x)\<rparr>"
    and q': "msgb_queue L q' = wq L x @ [m]"
    using enq_write_eq [of m ?x] by auto
  let ?y = "?x\<lparr>write_queue := q', write_queue_count := Suc (write_queue_count x)\<rparr>"
  obtain q1 q2 c2 where w: "while_option ?b ?c (deq_ack L ?y)
      = Some (None, ?y\<lparr>write_queue := q1, write_queue_count := Suc (write_queue_count x) + length ms,
          ack_queue := q2, ack_queue_count := c2\<rparr>)"
    and "msgb_queue L q1 = wq L x @ m # ms" "msgb_queue L q2 = []"
    and "c = length ms \<longrightarrow> c2 = 0"
    using Cons.hyps(1) [of ?y] q q' by auto
  moreover have "while_option ?b ?c (deq_ack L x) = while_option ?b ?c (deq_ack L ?y)"
    using enq by (simp add: deq while_option_unfold [of _ _ "(Some m, ?x)"])
  ultimately show ?case
    using c Cons.hyps(2) [symmetric]
    by (intro exI [of _ q1] exI [of _ q2] exI [of _ c2]) simp
qed

lemma requeue_frames:
  obtains q1 q2 c2 where
    "x75_requeue_frames L x = Inr (x\<lparr>write_queue := q1,
       write_queue_count := write_queue_count x + length (aq L x),
       ack_queue := q2, ack_queue_count := c2\<rparr>)"
    and "msgb_queue L q1 = wq L x @ aq L x" and "msgb_queue L q2 = []"
    and "ack_queue_count x = length (aq L x) \<longrightarrow> c2 = 0"
proof -
  from requeue_loop [of x] obtain q1 q2 c2 where
    w: "while_option (\<lambda>(skb, x). skb \<noteq> None)
      (\<lambda>(skb, x). case skb of None \<Rightarrow> (skb, x) | Some m \<Rightarrow> deq_ack L (enq_write L m x)) (deq_ack L x)
      = Some (None, x\<lparr>write_queue := q1,
          write_queue_count := write_queue_count x + length (aq L x),
          ack_queue := q2, ack_queue_count := c2\<rparr>)"
    and rest: "msgb_queue L q1 = wq L x @ aq L x" "msgb_queue L q2 = []"
      "ack_queue_count x = length (aq L x) \<longrightarrow> c2 = 0"
    by blast
  from w have "x75_requeue_frames L x = Inr (x\<lparr>write_queue := q1,
       write_queue_count := write_queue_count x + length (aq L x),
       ack_queue := q2, ack_queue_count := c2\<rparr>)"
    by (simp add: x75_requeue_frames_def)
  then show ?thesis using rest by (rule that)
qed

end

end
