(* ===== verification/X75_Kick.thy ===== *)
theory X75_Kick
  imports X75_Queues
begin

text \<open>
  The transmit loop. \<open>x75_kick\<close> sends as many queued messages as the window leaves room
  for: consecutive I-frames numbered from the loop's start, each message moved from the
  write queue to the end of the acknowledgement queue.
\<close>

text \<open>The I-frames for a list of payloads, numbered consecutively from \<open>s\<close> modulo \<open>n\<close>.\<close>

primrec iframes :: "u32 \<Rightarrow> nat \<Rightarrow> nat \<Rightarrow> nat \<Rightarrow> byte list list \<Rightarrow> byte list list" where
  "iframes md r n s [] = []"
| "iframes md r n s (p # ps) = x75_iframe md r s 0 p # iframes md r n (Suc s mod n) ps"

text \<open>The first \<open>k\<close> of the pending messages \<open>ms\<close> have been sent.\<close>

definition kicked ::
    "('m, 'q, 't) osmo_api \<Rightarrow> ('d, 'm, 'q, 't) x75_cb \<Rightarrow> 'm list \<Rightarrow> nat \<Rightarrow> ('d, 'm, 'q, 't) x75_cb \<Rightarrow> bool" where
  "kicked L x ms k y \<longleftrightarrow>
     (\<exists>frames q1 c1 q2.
        y = x\<lparr>dev := foldl (x75_tx x) (dev x) frames, vs := (vs x + k) mod modulus x,
             write_queue := q1, write_queue_count := c1,
             ack_queue := q2, ack_queue_count := ack_queue_count x + k\<rparr> \<and>
        map (msgb_data L) frames
          = iframes (mode x) (vr x) (modulus x) (vs x) (map (msgb_data L) (take k ms)) \<and>
        msgb_queue L q1 = drop k ms \<and> msgb_queue L q2 = aq L x @ take k ms \<and>
        (Suc (write_queue_count x) = length ms \<longrightarrow> c1 = length (drop k ms)))"

text \<open>The process exits when \<open>msgb_copy\<close> fails; otherwise sending needs a working copy.\<close>

definition copy_or_exit :: "('m, 'q, 't) osmo_api \<Rightarrow> fault set \<Rightarrow> bool" where
  "copy_or_exit L E \<longleftrightarrow> ExitFailure \<in> E \<or> (\<forall>m. msgb_copy L m \<noteq> None)"

lemma kick_loop_unfold:
  fixes x :: "('d, 'm, 'q, 't) x75_cb"
  shows "x75_kick_loop L e (Inl f) = Inl f"
  "x75_kick_loop L e (Inr (None, x)) = Inr x"
  "x75_kick_loop L e (Inr (Some m, x)) = x75_kick_loop L e (x75_kick_body L e m x)"
proof -
  let ?b = "\<lambda>r :: fault + ('m option \<times> ('d, 'm, 'q, 't) x75_cb).
    case r of Inl e \<Rightarrow> False | Inr (skb, x) \<Rightarrow> skb \<noteq> None"
  let ?c = "\<lambda>r. case r of Inl e \<Rightarrow> r
    | Inr (skb, x) \<Rightarrow> (case skb of None \<Rightarrow> r | Some m \<Rightarrow> x75_kick_body L e m x)"
  show "x75_kick_loop L e (Inl f) = Inl f" "x75_kick_loop L e (Inr (None, x)) = Inr x"
    by (simp_all add: x75_kick_loop_def while_option_unfold)
  have "while_option ?b ?c (Inr (Some m, x)) = while_option ?b ?c (x75_kick_body L e m x)"
    by (subst while_option_unfold) simp
  then show "x75_kick_loop L e (Inr (Some m, x)) = x75_kick_loop L e (x75_kick_body L e m x)"
    by (simp only: x75_kick_loop_def)
qed

text \<open>The guard of \<open>x75_kick\<close>, the number of frames it sends, and the state it leaves.\<close>

definition kick_start :: "('d, 'm, 'q, 't) x75_cb \<Rightarrow> nat" where
  "kick_start x = (if ack_queue_count x = 0 then va x else vs x)"

definition kick_end :: "('d, 'm, 'q, 't) x75_cb \<Rightarrow> nat" where
  "kick_end x = (va x + unat (window x)) mod modulus x"

definition kick_blocked :: "('d, 'm, 'q, 't) x75_cb \<Rightarrow> bool" where
  "kick_blocked x \<longleftrightarrow> cond X75_PEER_RX_BUSY_CONDITION x \<or> kick_start x = kick_end x \<or>
     write_queue_count x = 0"

definition kick_sent :: "('m, 'q, 't) osmo_api \<Rightarrow> ('d, 'm, 'q, 't) x75_cb \<Rightarrow> nat" where
  "kick_sent L x = min (length (wq L x)) (ring_dist (modulus x) (kick_start x) (kick_end x))"

definition kick_result ::
    "('m, 'q, 't) osmo_api \<Rightarrow> ('d, 'm, 'q, 't) x75_cb \<Rightarrow> nat \<Rightarrow> ('d, 'm, 'q, 't) x75_cb \<Rightarrow> bool" where
  "kick_result L x k y \<longleftrightarrow>
     (\<exists>frames q1 c1 q2 t.
        y = x\<lparr>dev := foldl (x75_tx x) (dev x) frames,
             vs := (kick_start x + k) mod modulus x,
             condition := condition x AND NOT X75_ACK_PENDING_CONDITION,
             t1timer := t, t1timer_running := True,
             write_queue := q1, write_queue_count := c1,
             ack_queue := q2, ack_queue_count := ack_queue_count x + k\<rparr> \<and>
        map (msgb_data L) frames
          = iframes (mode x) (vr x) (modulus x) (kick_start x) (map (msgb_data L) (take k (wq L x))) \<and>
        msgb_queue L q1 = drop k (wq L x) \<and> msgb_queue L q2 = aq L x @ take k (wq L x) \<and>
        (write_queue_count x = length (wq L x) \<longrightarrow> c1 = length (drop k (wq L x))) \<and>
        (if t1timer_running x then t = t1timer x
         else timer_pending L t \<and> timer_cb L t = Some X75_t1timer_expiry))"

context osmo_lib
begin

lemma start_t1timer_eq:
  "\<exists>t. x75_start_t1timer L x = x\<lparr>t1timer := t, t1timer_running := True\<rparr> \<and>
     timer_pending L t \<and> timer_cb L t = Some X75_t1timer_expiry"
  by (rule exI [of _ "t1timer (x75_start_t1timer L x)"])
     (simp add: x75_start_t1timer_def timer_simps)

lemma kick_result_of_kicked:
  assumes q: "msgb_queue L q = ms" and ms: "wq L x = m # ms" and c: "Suc c = write_queue_count x"
    and "kicked L (x\<lparr>vs := kick_start x, write_queue := q, write_queue_count := c\<rparr>) (m # ms) k y"
  shows "kick_result L x k
    (let y = clr_cond X75_ACK_PENDING_CONDITION y
     in if \<not> x75_t1timer_running y then x75_start_t1timer L y else y)"
proof -
  let ?t = "x\<lparr>vs := kick_start x, write_queue := q, write_queue_count := c\<rparr>"
  from assms(4) obtain frames q1 c1 q2 where
    y: "y = ?t\<lparr>dev := foldl (x75_tx ?t) (dev ?t) frames, vs := (vs ?t + k) mod modulus ?t,
             write_queue := q1, write_queue_count := c1,
             ack_queue := q2, ack_queue_count := ack_queue_count ?t + k\<rparr>"
    and r: "map (msgb_data L) frames
          = iframes (mode ?t) (vr ?t) (modulus ?t) (vs ?t) (map (msgb_data L) (take k (m # ms)))"
        "msgb_queue L q1 = drop k (m # ms)" "msgb_queue L q2 = aq L ?t @ take k (m # ms)"
        "Suc (write_queue_count ?t) = length (m # ms) \<longrightarrow> c1 = length (drop k (m # ms))"
    unfolding kicked_def by (elim exE conjE) (rule that)
  let ?y = "clr_cond X75_ACK_PENDING_CONDITION y"
  let ?z = "if \<not> x75_t1timer_running ?y then x75_start_t1timer L ?y else ?y"
  obtain t where t: "?z = ?y\<lparr>t1timer := t, t1timer_running := True\<rparr>"
    "if t1timer_running x then t = t1timer x
     else timer_pending L t \<and> timer_cb L t = Some X75_t1timer_expiry"
    using start_t1timer_eq [of ?y] y
    by (cases "t1timer_running x") (auto simp: x75_t1timer_running_def)
  have "?z = x\<lparr>dev := foldl (x75_tx x) (dev x) frames,
             vs := (kick_start x + k) mod modulus x,
             condition := condition x AND NOT X75_ACK_PENDING_CONDITION,
             t1timer := t, t1timer_running := True,
             write_queue := q1, write_queue_count := c1,
             ack_queue := q2, ack_queue_count := ack_queue_count x + k\<rparr>"
    by (rule trans [OF t(1)]) (simp add: y)
  with r t(2) show ?thesis
    unfolding kick_result_def Let_def using ms c
    by (intro exI [of _ frames] exI [of _ q1] exI [of _ c1] exI [of _ q2] exI [of _ t]) simp
qed

lemma kick_body:
  assumes "3 \<le> msgb_headroom L skb" and "copy_or_exit L E"
  shows "ends E (\<lambda>r. \<exists>fr q. msgb_data L fr = x75_iframe (mode x) (vr x) (vs x) 0 (msgb_data L skb) \<and>
      msgb_queue L q = aq L x @ [skb] \<and>
      (let y = x\<lparr>dev := x75_tx x (dev x) fr, vs := Suc (vs x) mod modulus x,
                ack_queue := q, ack_queue_count := Suc (ack_queue_count x)\<rparr>
       in r = (if vs y \<noteq> end' then deq_write L y else (None, y))))
    (x75_kick_body L end' skb x)"
proof (cases "msgb_copy L skb")
  case None
  then have "ExitFailure \<in> E" using assms(2) unfolding copy_or_exit_def by blast
  with None show ?thesis by (simp add: x75_kick_body_def)
next
  case (Some skbn)
  from copy [OF Some] assms(1) obtain fr where
    i: "x75_send_iframe L (Some skbn) 0 x = Inr (x\<lparr>dev := x75_tx x (dev x) fr\<rparr>)"
    and fr: "msgb_data L fr = x75_iframe (mode x) (vr x) (vs x) 0 (msgb_data L skb)"
    using send_iframe [of skbn 0 x] by metis
  let ?y = "x\<lparr>dev := x75_tx x (dev x) fr, vs := Suc (vs x) mod modulus x\<rparr>"
  obtain q where e: "enq_ack L skb ?y
      = ?y\<lparr>ack_queue := q, ack_queue_count := Suc (ack_queue_count x)\<rparr>"
    and q: "msgb_queue L q = aq L x @ [skb]"
    using enq_ack_eq [of skb ?y] by auto
  let ?z = "?y\<lparr>ack_queue := q, ack_queue_count := Suc (ack_queue_count x)\<rparr>"
  have "x75_kick_body L end' skb x = Inr (if vs ?z \<noteq> end' then deq_write L ?z else (None, ?z))"
    using Some i e by (simp add: x75_kick_body_def)
  with fr q show ?thesis
    by (intro ends_eq_Inr [of _ "if vs ?z \<noteq> end' then deq_write L ?z else (None, ?z)"]
          exI [of _ fr] exI [of _ q] conjI) (simp_all add: Let_def)
qed

text \<open>One pass, alone or followed by the rest of the loop.\<close>

lemma kicked_one:
  assumes "msgb_data L fr = x75_iframe (mode x) (vr x) (vs x) 0 (msgb_data L m)"
    and "msgb_queue L q = aq L x @ [m]" and "wq L x = ms"
  shows "kicked L x (m # ms) 1 (x\<lparr>dev := x75_tx x (dev x) fr, vs := Suc (vs x) mod modulus x,
      ack_queue := q, ack_queue_count := Suc (ack_queue_count x)\<rparr>)"
  unfolding kicked_def using assms
  by (intro exI [of _ "[fr]"] exI [of _ "write_queue x"] exI [of _ "write_queue_count x"] exI [of _ q])
     simp

lemma kicked_step:
  assumes "msgb_data L fr = x75_iframe (mode x) (vr x) (vs x) 0 (msgb_data L m)"
    and "msgb_queue L q = aq L x @ [m]" and "0 < write_queue_count x \<longrightarrow> c' = write_queue_count x - 1"
    and "kicked L (x\<lparr>dev := x75_tx x (dev x) fr, vs := Suc (vs x) mod modulus x,
      ack_queue := q, ack_queue_count := Suc (ack_queue_count x),
      write_queue := q', write_queue_count := c'\<rparr>) (m' # ms) k z"
  shows "kicked L x (m # m' # ms) (Suc k) z"
proof -
  let ?y = "x\<lparr>dev := x75_tx x (dev x) fr, vs := Suc (vs x) mod modulus x,
      ack_queue := q, ack_queue_count := Suc (ack_queue_count x),
      write_queue := q', write_queue_count := c'\<rparr>"
  from assms(4) obtain frames q1 c1 q2 where
    z: "z = ?y\<lparr>dev := foldl (x75_tx ?y) (dev ?y) frames, vs := (vs ?y + k) mod modulus ?y,
             write_queue := q1, write_queue_count := c1,
             ack_queue := q2, ack_queue_count := ack_queue_count ?y + k\<rparr>"
    and fs: "map (msgb_data L) frames
      = iframes (mode ?y) (vr ?y) (modulus ?y) (vs ?y) (map (msgb_data L) (take k (m' # ms)))"
    and q: "msgb_queue L q1 = drop k (m' # ms)" "msgb_queue L q2 = aq L ?y @ take k (m' # ms)"
    and c1: "Suc (write_queue_count ?y) = length (m' # ms) \<longrightarrow> c1 = length (drop k (m' # ms))"
    unfolding kicked_def by blast
  have "Suc (write_queue_count x) = length (m # m' # ms) \<longrightarrow> c1 = length (drop k (m' # ms))"
    using c1 assms(3) by auto
  moreover have "z = x\<lparr>dev := foldl (x75_tx x) (dev x) (fr # frames),
      vs := (vs x + Suc k) mod modulus x, write_queue := q1, write_queue_count := c1,
      ack_queue := q2, ack_queue_count := ack_queue_count x + Suc k\<rparr>"
    using z by (simp add: mod_simps)
  ultimately show ?thesis
    unfolding kicked_def using fs q assms(1,2)
    by (intro exI [of _ "fr # frames"] exI [of _ q1] exI [of _ c1] exI [of _ q2]) simp
qed

lemma kick_loop:
  assumes "vs x < modulus x" and "end' < modulus x" and "ring_dist (modulus x) (vs x) end' = Suc d"
    and "\<forall>m\<in>set (m # wq L x). 3 \<le> msgb_headroom L m" and "copy_or_exit L E"
  shows "ends E (kicked L x (m # wq L x) (min (Suc (length (wq L x))) (Suc d)))
    (x75_kick_loop L end' (Inr (Some m, x)))"
  using assms
proof (induction d arbitrary: x m)
  case (0 x m)
  note prems = 0
  have ne: "vs x \<noteq> end'" using prems by auto
  then have e: "Suc (vs x) mod modulus x = end'"
    using ring_dist_step [of "vs x" "modulus x" end'] prems
    by (simp add: ring_dist_eq_0)
  show ?case
    using kick_body [of m E x end'] prems
    by (cases "x75_kick_body L end' m x")
       (auto simp: kick_loop_unfold Let_def e [symmetric] kicked_one [OF _ _ refl, simplified])
next
  case (Suc d x m)
  note prems = Suc.prems
  have ne: "vs x \<noteq> end'" using prems by auto
  then have d: "ring_dist (modulus x) (Suc (vs x) mod modulus x) end' = Suc d"
    using ring_dist_step [of "vs x" "modulus x" end'] prems by simp
  then have ne': "Suc (vs x) mod modulus x \<noteq> end'" by auto
  show ?case
  proof (cases "x75_kick_body L end' m x")
    case (Inl f)
    then show ?thesis using kick_body [of m E x end'] prems by (simp add: kick_loop_unfold)
  next
    case (Inr r)
    then obtain fr q where fr: "msgb_data L fr = x75_iframe (mode x) (vr x) (vs x) 0 (msgb_data L m)"
      and q: "msgb_queue L q = aq L x @ [m]"
      and r: "r = deq_write L (x\<lparr>dev := x75_tx x (dev x) fr, vs := Suc (vs x) mod modulus x,
                ack_queue := q, ack_queue_count := Suc (ack_queue_count x)\<rparr>)" (is "r = deq_write L ?y")
      using kick_body [of m E x end'] prems ne' by (auto simp: Let_def)
    show ?thesis
    proof (cases "wq L x")
      case Nil
      then have "r = (None, ?y)" using r deq_write_empty [of ?y] by simp
      then show ?thesis
        using Inr Nil kicked_one [OF fr q Nil] by (simp add: kick_loop_unfold)
    next
      case (Cons m' ms)
      then have "wq L ?y = m' # ms" by simp
      from deq_write_some [OF this] obtain q' c' where
        r': "deq_write L ?y = (Some m', ?y\<lparr>write_queue := q', write_queue_count := c'\<rparr>)"
        and q': "msgb_queue L q' = ms"
        and "0 < write_queue_count ?y \<longrightarrow> c' = write_queue_count ?y - 1"
        by (elim exE conjE) (rule that)
      then have c': "0 < write_queue_count x \<longrightarrow> c' = write_queue_count x - 1" by simp
      let ?z = "?y\<lparr>write_queue := q', write_queue_count := c'\<rparr>"
      have "ends E (kicked L ?z (m' # wq L ?z) (min (Suc (length (wq L ?z))) (Suc d)))
          (x75_kick_loop L end' (Inr (Some m', ?z)))"
        using prems d q' Cons by (intro Suc.IH) simp_all
      then have "ends E (kicked L x (m # m' # ms) (Suc (min (Suc (length ms)) (Suc d))))
          (x75_kick_loop L end' (Inr (Some m', ?z)))"
        by (rule ends_mono) (use kicked_step [OF fr q c'] q' in simp_all)
      then show ?thesis
        using Inr r r' Cons by (simp add: kick_loop_unfold)
    qed
  qed
qed

text \<open>
  The whole routine. Nothing happens when the peer is busy, the window is full or nothing
  is queued; a write counter that is not zero over an empty queue makes the process
  dereference the null message; otherwise \<open>kick_sent\<close> frames go out and T1 runs.
\<close>

lemma kick_idle: "kick_blocked x \<Longrightarrow> x75_kick L x = Inr x"
  by (auto simp: x75_kick_def kick_blocked_def kick_start_def kick_end_def)

lemma kick_stale: "\<not> kick_blocked x \<Longrightarrow> wq L x = [] \<Longrightarrow> x75_kick L x = Inl NullDeref"
  using deq_write_empty [of "x\<lparr>vs := kick_start x\<rparr>"]
  by (auto simp: x75_kick_def kick_blocked_def kick_start_def kick_end_def Let_def)

lemma kick_run:
  assumes nb: "\<not> kick_blocked x" and ne: "wq L x \<noteq> []"
    and seq: "va x < modulus x" "vs x < modulus x"
    and room: "\<forall>m\<in>set (wq L x). 3 \<le> msgb_headroom L m" and "copy_or_exit L E"
  shows "ends E (kick_result L x (kick_sent L x)) (x75_kick L x)"
proof -
  let ?s = "x\<lparr>vs := kick_start x\<rparr>" and ?n = "modulus x"
  from ne obtain m ms where ms: "wq L x = m # ms" by (cases "wq L x") auto
  then have "wq L ?s = m # ms" by simp
  from deq_write_some [OF this] obtain q c where
    dq: "deq_write L ?s = (Some m, ?s\<lparr>write_queue := q, write_queue_count := c\<rparr>)"
    and q: "msgb_queue L q = ms"
    and "0 < write_queue_count ?s \<longrightarrow> c = write_queue_count ?s - 1"
    by (elim exE conjE) (rule that)
  moreover have "0 < write_queue_count x" using nb by (simp add: kick_blocked_def)
  ultimately have c: "Suc c = write_queue_count x" by simp
  let ?t = "?s\<lparr>write_queue := q, write_queue_count := c\<rparr>"
  have start: "kick_start x < ?n" "kick_start x \<noteq> kick_end x" "kick_end x < ?n"
    using seq nb by (auto simp: kick_start_def kick_blocked_def kick_end_def)
  then have "ring_dist ?n (kick_start x) (kick_end x) \<noteq> 0" by (simp add: ring_dist_eq_0)
  then obtain d where d: "ring_dist ?n (kick_start x) (kick_end x) = Suc d" by (cases "ring_dist ?n (kick_start x) (kick_end x)") auto
  have loop: "ends E (kicked L ?t (m # wq L ?t) (min (Suc (length (wq L ?t))) (Suc d)))
      (x75_kick_loop L (kick_end x) (Inr (Some m, ?t)))"
    using start d room ms q assms(6) by (intro kick_loop) auto
  have k: "min (Suc (length (wq L ?t))) (Suc d) = kick_sent L x"
    using d ms q by (simp add: kick_sent_def)
  have "x75_kick L x = seqs [\<lambda>x. x75_kick_loop L (kick_end ?t) (Inr (Some m, x)),
      upd (clr_cond X75_ACK_PENDING_CONDITION),
      upd (\<lambda>x. if \<not> x75_t1timer_running x then x75_start_t1timer L x else x)] ?t"
    using nb dq by (simp add: x75_kick_def kick_blocked_def kick_start_def kick_end_def Let_def)
  also have "kick_end ?t = kick_end x" by (simp add: kick_end_def)
  finally have "ends E (kick_result L x (kick_sent L x)) (x75_kick L x) \<longleftrightarrow>
      ends E (\<lambda>y. kick_result L x (kick_sent L x)
        (let y = clr_cond X75_ACK_PENDING_CONDITION y
         in if \<not> x75_t1timer_running y then x75_start_t1timer L y else y))
        (x75_kick_loop L (kick_end x) (Inr (Some m, ?t)))"
    by (simp add: Let_def)
  moreover have "ends E (\<lambda>y. kick_result L x (kick_sent L x)
        (let y = clr_cond X75_ACK_PENDING_CONDITION y
         in if \<not> x75_t1timer_running y then x75_start_t1timer L y else y))
        (x75_kick_loop L (kick_end x) (Inr (Some m, ?t)))"
    using loop unfolding k
    by (rule ends_mono) (use kick_result_of_kicked [OF q ms c] q in simp_all)
  ultimately show ?thesis by blast
qed

end

end
