(* ===== verification/X75_Inv.thy ===== *)
theory X75_Inv
  imports X75_Kick
begin

text \<open>
  The invariants of a control block and what the routines of the layer keep of them.

  \<open>link_ok\<close>: the window is open and smaller than the modulus, and the sequence variables
  are below the modulus. \<open>room_ok\<close>: every queued message has head room for an I-frame
  header. \<open>counts_ok\<close>: the queue counters are the lengths of the queues. \<open>window_ok\<close>: as
  long as frames are unacknowledged, V(S) is ahead of V(A) by their number, and that is
  at most the window.

  \<open>x75_inv L b\<close> is the first two invariants, and with \<open>b\<close> all four. The first two alone
  exclude that a routine hangs or overruns a buffer; all four also exclude the
  dereference of a null message.
\<close>

definition link_ok :: "('d, 'm, 'q, 't) x75_cb \<Rightarrow> bool" where
  "link_ok x \<longleftrightarrow> 0 < unat (window x) \<and> unat (window x) < modulus x \<and>
     va x < modulus x \<and> vs x < modulus x \<and> vr x < modulus x"

definition room_ok :: "('m, 'q, 't) osmo_api \<Rightarrow> ('d, 'm, 'q, 't) x75_cb \<Rightarrow> bool" where
  "room_ok L x \<longleftrightarrow> (\<forall>m \<in> set (wq L x) \<union> set (aq L x). 3 \<le> msgb_headroom L m)"

definition counts_ok :: "('m, 'q, 't) osmo_api \<Rightarrow> ('d, 'm, 'q, 't) x75_cb \<Rightarrow> bool" where
  "counts_ok L x \<longleftrightarrow> write_queue_count x = length (wq L x) \<and> ack_queue_count x = length (aq L x)"

definition window_ok :: "('m, 'q, 't) osmo_api \<Rightarrow> ('d, 'm, 'q, 't) x75_cb \<Rightarrow> bool" where
  "window_ok L x \<longleftrightarrow> (aq L x \<noteq> [] \<longrightarrow>
     ring_dist (modulus x) (va x) (vs x) = length (aq L x) \<and> length (aq L x) \<le> unat (window x))"

definition queues_inv ::
    "('m, 'q, 't) osmo_api \<Rightarrow> bool \<Rightarrow> ('d, 'm, 'q, 't) x75_cb \<Rightarrow> bool" where
  "queues_inv L b x \<longleftrightarrow> link_ok x \<and> room_ok L x \<and> (b \<longrightarrow> counts_ok L x)"

definition x75_inv ::
    "('m, 'q, 't) osmo_api \<Rightarrow> bool \<Rightarrow> ('d, 'm, 'q, 't) x75_cb \<Rightarrow> bool" where
  "x75_inv L b x \<longleftrightarrow> queues_inv L b x \<and> (b \<longrightarrow> window_ok L x)"

text \<open>The faults left: none, or the null message and the failed copy.\<close>

definition faults_for :: "('m, 'q, 't) osmo_api \<Rightarrow> bool \<Rightarrow> fault set \<Rightarrow> bool" where
  "faults_for L b E \<longleftrightarrow> copy_or_exit L E \<and> (b \<or> NullDeref \<in> E)"

text \<open>What \<open>x75_kick\<close> does to a control block when it returns.\<close>

definition kick_rel ::
    "('m, 'q, 't) osmo_api \<Rightarrow> ('d, 'm, 'q, 't) x75_cb \<Rightarrow> ('d, 'm, 'q, 't) x75_cb \<Rightarrow> bool" where
  "kick_rel L x y \<longleftrightarrow>
     (if kick_blocked x then y = x else wq L x \<noteq> [] \<and> kick_result L x (kick_sent L x) y)"

lemmas inv_defs = x75_inv_def queues_inv_def link_ok_def room_ok_def counts_ok_def window_ok_def

text \<open>Fields the invariants do not depend on.\<close>

lemma queues_inv_upd [simp]:
  "queues_inv L b (x\<lparr>dev := d\<rparr>) = queues_inv L b x"
  "queues_inv L b (x\<lparr>state := st\<rparr>) = queues_inv L b x"
  "queues_inv L b (x\<lparr>condition := c\<rparr>) = queues_inv L b x"
  "queues_inv L b (x\<lparr>n2count := k\<rparr>) = queues_inv L b x"
  "queues_inv L b (x\<lparr>t1timer := t\<rparr>) = queues_inv L b x"
  "queues_inv L b (x\<lparr>t2timer := t\<rparr>) = queues_inv L b x"
  "queues_inv L b (x\<lparr>t1timer_running := r\<rparr>) = queues_inv L b x"
  "queues_inv L b (x\<lparr>t2timer_running := r\<rparr>) = queues_inv L b x"
  "queues_inv L b (x\<lparr>frmr_data := f\<rparr>) = queues_inv L b x"
  "queues_inv L b (x\<lparr>frmr_type := y\<rparr>) = queues_inv L b x"
  by (simp_all add: inv_defs)

lemma x75_inv_upd [simp]:
  "x75_inv L b (x\<lparr>dev := d\<rparr>) = x75_inv L b x"
  "x75_inv L b (x\<lparr>state := st\<rparr>) = x75_inv L b x"
  "x75_inv L b (x\<lparr>condition := c\<rparr>) = x75_inv L b x"
  "x75_inv L b (x\<lparr>n2count := k\<rparr>) = x75_inv L b x"
  "x75_inv L b (x\<lparr>t1timer := t\<rparr>) = x75_inv L b x"
  "x75_inv L b (x\<lparr>t2timer := t\<rparr>) = x75_inv L b x"
  "x75_inv L b (x\<lparr>t1timer_running := r\<rparr>) = x75_inv L b x"
  "x75_inv L b (x\<lparr>t2timer_running := r\<rparr>) = x75_inv L b x"
  "x75_inv L b (x\<lparr>frmr_data := f\<rparr>) = x75_inv L b x"
  "x75_inv L b (x\<lparr>frmr_type := y\<rparr>) = x75_inv L b x"
  by (simp_all add: inv_defs)

lemma x75_inv_queues: "x75_inv L b x \<Longrightarrow> queues_inv L b x"
  by (simp add: x75_inv_def)

lemma x75_inv_timers [simp]:
  "x75_inv L b (x75_start_t1timer L x) = x75_inv L b x"
  "x75_inv L b (x75_start_t2timer L x) = x75_inv L b x"
  "x75_inv L b (x75_stop_t1timer L x) = x75_inv L b x"
  "x75_inv L b (x75_stop_t2timer L x) = x75_inv L b x"
  by (simp_all add: x75_start_t1timer_def x75_start_t2timer_def x75_stop_t1timer_def
      x75_stop_t2timer_def Let_def)

lemma queues_inv_timers [simp]:
  "queues_inv L b (x75_start_t1timer L x) = queues_inv L b x"
  "queues_inv L b (x75_start_t2timer L x) = queues_inv L b x"
  "queues_inv L b (x75_stop_t1timer L x) = queues_inv L b x"
  "queues_inv L b (x75_stop_t2timer L x) = queues_inv L b x"
  by (simp_all add: x75_start_t1timer_def x75_start_t2timer_def x75_stop_t1timer_def
      x75_stop_t2timer_def Let_def)

lemma x75_inv_callbacks [simp]:
  "x75_inv L b (x75_connect_confirmation r x) = x75_inv L b x"
  "x75_inv L b (x75_connect_indication r x) = x75_inv L b x"
  "x75_inv L b (x75_disconnect_confirmation r x) = x75_inv L b x"
  "x75_inv L b (x75_disconnect_indication r x) = x75_inv L b x"
  "x75_inv L b (snd (x75_data_indication m x)) = x75_inv L b x"
  using snd_data_indication [of m x]
  by (auto simp: x75_connect_confirmation_def x75_connect_indication_def
      x75_disconnect_confirmation_def x75_disconnect_indication_def)

lemma x75_inv_vr: "x75_inv L b x \<Longrightarrow> x75_inv L b (x\<lparr>vr := Suc (vr x) mod modulus x\<rparr>)"
  by (simp add: inv_defs)

text \<open>
  A reset of the sequence variables keeps the weak invariant, and with nothing
  unacknowledged also the strong one.
\<close>

lemma reset_link_queues: "queues_inv L b x \<Longrightarrow> queues_inv L b (x75_reset_link x)"
  by (simp add: inv_defs x75_reset_link_def)

lemma reset_link_inv: "queues_inv L b x \<Longrightarrow> b \<longrightarrow> aq L x = [] \<Longrightarrow> x75_inv L b (x75_reset_link x)"
  by (simp add: inv_defs x75_reset_link_def)

context osmo_lib
begin

lemma clear_queues_inv:
  "queues_inv L b x \<Longrightarrow> b \<longrightarrow> wq L x = [] \<and> aq L x = [] \<Longrightarrow> x75_inv L b (x75_clear_queues L x)"
  by (auto simp: inv_defs x75_clear_queues_def queue_free)

lemma enq_write_inv:
  assumes "x75_inv L b x" and "3 \<le> msgb_headroom L m"
  shows "x75_inv L b (enq_write L m x)"
proof -
  obtain q where "enq_write L m x = x\<lparr>write_queue := q, write_queue_count := Suc (write_queue_count x)\<rparr>"
    and "msgb_queue L q = wq L x @ [m]"
    by (rule enq_write_eq)
  with assms show ?thesis by (auto simp: inv_defs)
qed

lemma wp_requeue [wp]:
  assumes "queues_inv L b x"
    and "\<And>q1 c1 q2 c2. x75_inv L b (x\<lparr>write_queue := q1, write_queue_count := c1,
           ack_queue := q2, ack_queue_count := c2\<rparr>) \<Longrightarrow>
         msgb_queue L q1 = wq L x @ aq L x \<Longrightarrow> msgb_queue L q2 = [] \<Longrightarrow>
         Q (x\<lparr>write_queue := q1, write_queue_count := c1, ack_queue := q2, ack_queue_count := c2\<rparr>)"
  shows "ends E Q (x75_requeue_frames L x)"
proof -
  obtain q1 q2 c2 where r: "x75_requeue_frames L x = Inr (x\<lparr>write_queue := q1,
       write_queue_count := write_queue_count x + length (aq L x),
       ack_queue := q2, ack_queue_count := c2\<rparr>)"
    and q: "msgb_queue L q1 = wq L x @ aq L x" "msgb_queue L q2 = []"
    and c: "ack_queue_count x = length (aq L x) \<longrightarrow> c2 = 0"
    by (rule requeue_frames [of x]) (rule that)
  have "x75_inv L b (x\<lparr>write_queue := q1, write_queue_count := write_queue_count x + length (aq L x),
       ack_queue := q2, ack_queue_count := c2\<rparr>)"
    using assms(1) q c by (auto simp: inv_defs)
  then show ?thesis
    unfolding r ends_Inr using q by (rule assms(2))
qed

lemma wp_frames_acked [wp]:
  assumes inv: "x75_inv L b x" and nr: "nr < modulus x" "nr_valid x nr"
    and Q: "\<And>q c v k. x75_inv L b (x\<lparr>ack_queue := q, ack_queue_count := c, va := v\<rparr>) \<Longrightarrow>
         msgb_queue L q = drop k (aq L x) \<Longrightarrow> k \<le> ring_dist (modulus x) (va x) nr \<Longrightarrow>
         Q (x\<lparr>ack_queue := q, ack_queue_count := c, va := v\<rparr>)"
  shows "ends E Q (x75_frames_acked L nr x)"
proof -
  let ?m = "modulus x"
  have va: "va x < ?m" and vs: "vs x < ?m" using inv by (simp_all add: inv_defs)
  obtain q c k where r: "x75_frames_acked L nr x
       = Inr (x\<lparr>ack_queue := q, ack_queue_count := c, va := (va x + k) mod ?m\<rparr>)"
    and q: "msgb_queue L q = drop k (aq L x)" and k: "k \<le> ring_dist ?m (va x) nr"
    and c: "ack_queue_count x = length (aq L x) \<longrightarrow>
       c = length (msgb_queue L q) \<and> k = min (length (aq L x)) (ring_dist ?m (va x) nr)"
    by (rule frames_acked [OF va nr(1)]) (rule that)
  let ?y = "x\<lparr>ack_queue := q, ack_queue_count := c, va := (va x + k) mod ?m\<rparr>"
  have "queues_inv L b ?y"
    using inv q c by (auto simp: inv_defs dest: in_set_dropD)
  moreover have "window_ok L ?y" if b: b
  proof -
    have cnt: "ack_queue_count x = length (aq L x)" and w: "window_ok L x"
      using inv b by (simp_all add: x75_inv_def queues_inv_def counts_ok_def)
    show ?thesis
    proof (cases "aq L x = []")
      case True
      with q show ?thesis by (simp add: window_ok_def)
    next
      case False
      then have d: "ring_dist ?m (va x) (vs x) = length (aq L x)" "length (aq L x) \<le> unat (window x)"
        using w by (simp_all add: window_ok_def)
      from nr(2) obtain j where j: "j \<le> length (aq L x)" "nr = (va x + j) mod ?m"
        unfolding nr_valid_def d(1) by blast
      have lt: "length (aq L x) < ?m" using d(1) ring_dist_less [of ?m "va x" "vs x"] by simp
      then have "ring_dist ?m (va x) nr = j"
        using j va by (simp add: ring_dist_add)
      with c cnt j have kj: "k = j" by simp
      have "vs x = (va x + length (aq L x)) mod ?m"
        using ring_dist_inverse [OF va vs] d(1) by simp
      then have "ring_dist ?m ((va x + j) mod ?m) (vs x) = length (aq L x) - j"
        using ring_dist_shift [OF va, of j "length (aq L x)"] lt j(1) by simp
      with d q kj show ?thesis by (auto simp: window_ok_def)
    qed
  qed
  ultimately have "x75_inv L b ?y" by (simp add: x75_inv_def)
  then show ?thesis unfolding r ends_Inr using q k by (rule Q)
qed

text \<open>
  Under the strong invariant the transmit loop starts right behind the unacknowledged
  frames, and what is left of the window bounds the frames it sends.
\<close>

lemma kick_window:
  assumes "x75_inv L True x"
  shows "kick_start x = (va x + length (aq L x)) mod modulus x"
    and "length (aq L x) \<le> unat (window x)"
    and "ring_dist (modulus x) (kick_start x) (kick_end x) = unat (window x) - length (aq L x)"
proof -
  have va: "va x < modulus x" and vs: "vs x < modulus x" and w: "unat (window x) < modulus x"
    and cnt: "ack_queue_count x = length (aq L x)"
    and win: "aq L x \<noteq> [] \<longrightarrow> ring_dist (modulus x) (va x) (vs x) = length (aq L x) \<and>
      length (aq L x) \<le> unat (window x)"
    using assms by (simp_all add: inv_defs)
  show le: "length (aq L x) \<le> unat (window x)" using win by (cases "aq L x = []") auto
  show start: "kick_start x = (va x + length (aq L x)) mod modulus x"
    using win cnt va ring_dist_inverse [OF va vs] by (auto simp: kick_start_def)
  show "ring_dist (modulus x) (kick_start x) (kick_end x) = unat (window x) - length (aq L x)"
    unfolding start kick_end_def using le w va by (intro ring_dist_shift)
qed

lemma kick_result_inv:
  assumes inv: "x75_inv L b x" and r: "kick_result L x (kick_sent L x) y"
  shows "x75_inv L b y"
proof -
  let ?k = "kick_sent L x"
  from r obtain q1 c1 q2 where y: "va y = va x" "vr y = vr x" "mode y = mode x" "window y = window x"
      "vs y = (kick_start x + ?k) mod modulus x" "write_queue y = q1" "write_queue_count y = c1"
      "ack_queue y = q2" "ack_queue_count y = ack_queue_count x + ?k"
    and q: "msgb_queue L q1 = drop ?k (wq L x)" "msgb_queue L q2 = aq L x @ take ?k (wq L x)"
    and c: "write_queue_count x = length (wq L x) \<longrightarrow> c1 = length (drop ?k (wq L x))"
    unfolding kick_result_def by auto
  have m: "modulus y = modulus x" using y by (simp add: modulus_def)
  have k: "?k \<le> length (wq L x)" by (simp add: kick_sent_def)
  have "queues_inv L b y"
    using inv y m q c k by (auto simp: inv_defs dest: in_set_dropD in_set_takeD)
  moreover have "window_ok L y" if b: b
  proof -
    have inv': "x75_inv L True x" using inv b by simp
    note kw = kick_window [OF inv']
    have le: "length (aq L x) + ?k \<le> unat (window x)"
      using kw(2,3) by (simp add: kick_sent_def)
    then have lt: "length (aq L x) + ?k < modulus x"
      using inv by (simp add: inv_defs)
    have va: "va x < modulus x" using inv by (simp add: inv_defs)
    have "ring_dist (modulus x) (va x) (vs y) = length (aq L x) + ?k"
      using ring_dist_add [OF va lt] unfolding y(5) kw(1) by (simp add: mod_simps add.assoc)
    then show ?thesis using y m q le k by (simp add: window_ok_def)
  qed
  ultimately show ?thesis by (simp add: x75_inv_def)
qed

lemma wp_kick [wp]:
  assumes inv: "x75_inv L b x" and E: "faults_for L b E"
    and Q: "\<And>y. x75_inv L b y \<Longrightarrow> kick_rel L x y \<Longrightarrow> Q y"
  shows "ends E Q (x75_kick L x)"
proof (cases "kick_blocked x")
  case True
  with Q [of x] inv show ?thesis by (simp add: kick_idle kick_rel_def)
next
  case nb: False
  show ?thesis
  proof (cases "wq L x = []")
    case True
    then have "NullDeref \<in> E"
      using nb inv E by (auto simp: faults_for_def kick_blocked_def inv_defs)
    with nb True show ?thesis by (simp add: kick_stale)
  next
    case False
    have "ends E (kick_result L x (kick_sent L x)) (x75_kick L x)"
      using nb False inv E by (intro kick_run) (auto simp: inv_defs faults_for_def)
    then show ?thesis
      by (rule ends_mono) (use nb False kick_result_inv [OF inv] Q in \<open>auto simp: kick_rel_def\<close>)
  qed
qed

end

end
