(* ===== verification/X75_Safety.thy ===== *)
theory X75_Safety
  imports X75_Inv
begin

text \<open>
  Every call into the link layer keeps the invariants. The weak invariant is kept by
  every call; the strong one by every call that does not throw away queued messages or
  restart the numbering over unacknowledged ones (\<open>x75_discards\<close>), and by those too when
  nothing is queued.
\<close>

section \<open>The calls\<close>

text \<open>Frames upon which the queues are cleared or the sequence variables reset.\<close>

definition x75_discards :: "('d, 'm, 'q, 't) x75_cb \<Rightarrow> x75_frame \<Rightarrow> bool" where
  "x75_discards x frame \<longleftrightarrow>
     (case state x of
        X75_STATE_0 \<Rightarrow> f_type frame = X75_SABM \<or> f_type frame = X75_SABME
      | X75_STATE_1 \<Rightarrow> f_type frame = X75_UA \<or> f_type frame = X75_DM
      | X75_STATE_2 \<Rightarrow> False
      | X75_STATE_3 \<Rightarrow> f_type frame = X75_DISC \<or> f_type frame = X75_DM
      | X75_STATE_4 \<Rightarrow> f_type frame = X75_SABM \<or> f_type frame = X75_SABME)"

text \<open>
  The calls that reach the layer: a message from the line, one from the user, the user's
  link requests, and the two timers.
\<close>

datatype 'm x75_event = Input 'm | Data 'm | Connect | Disconnect | T1_due | T2_due

definition x75_step ::
    "('m, 'q, 't) osmo_api \<Rightarrow> x75_frame \<Rightarrow> 'm x75_event \<Rightarrow> ('d, 'm, 'q, 't) x75_cb
     \<Rightarrow> fault + ('d, 'm, 'q, 't) x75_cb" where
  "x75_step L stack ev x =
     (case ev of
        Input m \<Rightarrow> map_sum id snd (x75_data_received L stack m x)
      | Data m \<Rightarrow> map_sum id snd (x75_data_request L m x)
      | Connect \<Rightarrow> map_sum id snd (x75_connect_request L x)
      | Disconnect \<Rightarrow> map_sum id snd (x75_disconnect_request L x)
      | T1_due \<Rightarrow> x75_t1timer_due L x
      | T2_due \<Rightarrow> x75_t2timer_due L x)"

text \<open>The user leaves head room for the frame header in the messages it hands over.\<close>

definition event_ok :: "('m, 'q, 't) osmo_api \<Rightarrow> 'm x75_event \<Rightarrow> bool" where
  "event_ok L ev \<longleftrightarrow> (case ev of Data m \<Rightarrow> 3 \<le> msgb_headroom L m | _ \<Rightarrow> True)"

definition quiet :: "('m, 'q, 't) osmo_api \<Rightarrow> ('d, 'm, 'q, 't) x75_cb \<Rightarrow> bool" where
  "quiet L x \<longleftrightarrow> wq L x = [] \<and> aq L x = []"

text \<open>The invariant, and with \<open>c\<close> nothing is queued.\<close>

definition idle_inv :: "('m, 'q, 't) osmo_api \<Rightarrow> bool \<Rightarrow> bool \<Rightarrow> ('d, 'm, 'q, 't) x75_cb \<Rightarrow> bool" where
  "idle_inv L b c x \<longleftrightarrow> x75_inv L b x \<and> (c \<longrightarrow> quiet L x)"

definition gives_up :: "timer_fn option \<Rightarrow> ('d, 'm, 'q, 't) x75_cb \<Rightarrow> bool" where
  "gives_up f x \<longleftrightarrow> f = Some X75_t1timer_expiry \<and> state x \<noteq> X75_STATE_0 \<and> n2count x = n2 x"

definition event_discards ::
    "('m, 'q, 't) osmo_api \<Rightarrow> x75_frame \<Rightarrow> 'm x75_event \<Rightarrow> ('d, 'm, 'q, 't) x75_cb \<Rightarrow> bool" where
  "event_discards L stack ev x \<longleftrightarrow>
     (case ev of
        Input m \<Rightarrow> (case x75_decode L x m stack of None \<Rightarrow> False | Some (m', f) \<Rightarrow> x75_discards x f)
      | Data m \<Rightarrow> False
      | Connect \<Rightarrow> False
      | Disconnect \<Rightarrow> state x = X75_STATE_3 \<or> state x = X75_STATE_4
      | T1_due \<Rightarrow> gives_up (timer_cb L (t1timer x)) x
      | T2_due \<Rightarrow> gives_up (timer_cb L (t2timer x)) x)"

section \<open>The state machines\<close>

lemma quiet_upd [simp]:
  "quiet L (x\<lparr>dev := d\<rparr>) = quiet L x" "quiet L (x\<lparr>state := st\<rparr>) = quiet L x"
  "quiet L (x\<lparr>condition := c\<rparr>) = quiet L x" "quiet L (x\<lparr>n2count := k\<rparr>) = quiet L x"
  "quiet L (x\<lparr>t1timer := t\<rparr>) = quiet L x" "quiet L (x\<lparr>t2timer := t\<rparr>) = quiet L x"
  "quiet L (x\<lparr>t1timer_running := r\<rparr>) = quiet L x" "quiet L (x\<lparr>t2timer_running := r\<rparr>) = quiet L x"
  "quiet L (x75_start_t1timer L x) = quiet L x" "quiet L (x75_stop_t1timer L x) = quiet L x"
  "quiet L (x75_stop_t2timer L x) = quiet L x" "quiet L (x75_start_t2timer L x) = quiet L x"
  "quiet L (x\<lparr>frmr_data := f\<rparr>) = quiet L x" "quiet L (x\<lparr>frmr_type := y\<rparr>) = quiet L x"
  "quiet L (x75_reset_link x) = quiet L x"
  by (simp_all add: quiet_def x75_start_t1timer_def x75_start_t2timer_def x75_stop_t1timer_def x75_stop_t2timer_def
      x75_reset_link_def Let_def)

lemma idle_False [simp]: "idle_inv L b False = x75_inv L b"
  by (simp add: fun_eq_iff idle_inv_def)

lemma idle_inv_upd [simp]:
  "idle_inv L b c (x\<lparr>dev := d\<rparr>) = idle_inv L b c x" "idle_inv L b c (x\<lparr>state := st\<rparr>) = idle_inv L b c x"
  "idle_inv L b c (x\<lparr>condition := k\<rparr>) = idle_inv L b c x" "idle_inv L b c (x\<lparr>n2count := n\<rparr>) = idle_inv L b c x"
  "idle_inv L b c (x\<lparr>frmr_data := f\<rparr>) = idle_inv L b c x" "idle_inv L b c (x\<lparr>frmr_type := y\<rparr>) = idle_inv L b c x"
  "idle_inv L b c (x\<lparr>t1timer := t\<rparr>) = idle_inv L b c x" "idle_inv L b c (x\<lparr>t2timer := t\<rparr>) = idle_inv L b c x"
  "idle_inv L b c (x\<lparr>t1timer_running := r\<rparr>) = idle_inv L b c x" "idle_inv L b c (x\<lparr>t2timer_running := r\<rparr>) = idle_inv L b c x"
  "idle_inv L b c (x75_start_t1timer L x) = idle_inv L b c x" "idle_inv L b c (x75_start_t2timer L x) = idle_inv L b c x"
  "idle_inv L b c (x75_stop_t1timer L x) = idle_inv L b c x" "idle_inv L b c (x75_stop_t2timer L x) = idle_inv L b c x"
  by (simp_all add: idle_inv_def)

lemma idle_inv_callbacks [simp]:
  "idle_inv L b c (x75_connect_confirmation r x) = idle_inv L b c x"
  "idle_inv L b c (x75_connect_indication r x) = idle_inv L b c x"
  "idle_inv L b c (x75_disconnect_confirmation r x) = idle_inv L b c x"
  "idle_inv L b c (x75_disconnect_indication r x) = idle_inv L b c x"
  "idle_inv L b c (snd (x75_data_indication m x)) = idle_inv L b c x"
  using snd_data_indication [of m x]
  by (auto simp: x75_connect_confirmation_def x75_connect_indication_def
      x75_disconnect_confirmation_def x75_disconnect_indication_def)

lemma idle_inv_vr: "idle_inv L b c x \<Longrightarrow> idle_inv L b c (x\<lparr>vr := Suc (vr x) mod modulus x\<rparr>)"
  by (simp add: idle_inv_def x75_inv_vr quiet_def)

lemma idle_invD: "idle_inv L b c x \<Longrightarrow> x75_inv L b x"
  by (simp add: idle_inv_def)

lemma nr_valid_upd [simp]:
  "nr_valid (x\<lparr>dev := d\<rparr>) nr = nr_valid x nr" "nr_valid (x\<lparr>condition := c\<rparr>) nr = nr_valid x nr"
  by (simp_all add: nr_valid_def)

lemma validate_nr_inv: "x75_inv L b x \<Longrightarrow> x75_validate_nr x nr = Inr (nr_valid x nr)"
  by (rule validate_nr) (simp_all add: inv_defs)

lemma validate_nr_idle: "idle_inv L b c x \<Longrightarrow> x75_validate_nr x nr = Inr (nr_valid x nr)"
  by (drule idle_invD) (rule validate_nr_inv)

context osmo_lib
begin

lemma clear_idle: "idle_inv L b c x \<Longrightarrow> b \<longrightarrow> quiet L x \<Longrightarrow> idle_inv L b c (x75_clear_queues L x)"
  using clear_queues_inv [of b x] queue_free
  by (auto simp: idle_inv_def x75_inv_queues quiet_def x75_clear_queues_def)

lemma reset_idle: "idle_inv L b c x \<Longrightarrow> b \<longrightarrow> quiet L x \<Longrightarrow> idle_inv L b c (x75_reset_link x)"
  using reset_link_inv [of L b x] by (auto simp: idle_inv_def x75_inv_queues quiet_def [of L x])

text \<open>The loops over the queues, and the transmission: nothing enters a queue but by requeueing.\<close>

lemma requeue_quiet:
  assumes "queues_inv L b x" and "c \<longrightarrow> quiet L x" and "\<And>y. idle_inv L b c y \<Longrightarrow> Q y"
  shows "ends E Q (x75_requeue_frames L x)"
  using assms(1) by (rule wp_requeue) (rule assms(3), use assms(2) in \<open>auto simp: idle_inv_def quiet_def\<close>)

lemma requeue_idle:
  "idle_inv L b c x \<Longrightarrow> (\<And>y. idle_inv L b c y \<Longrightarrow> Q y) \<Longrightarrow> ends E Q (x75_requeue_frames L x)"
  by (rule requeue_quiet [of b x c]) (simp_all add: idle_inv_def x75_inv_queues)

lemma acked_idle:
  assumes "idle_inv L b c x" and "nr < modulus x" and "nr_valid x nr"
    and "\<And>y. idle_inv L b c y \<Longrightarrow> vr y = vr x \<Longrightarrow> modulus y = modulus x \<Longrightarrow> Q y"
  shows "ends E Q (x75_frames_acked L nr x)"
  using idle_invD [OF assms(1)] assms(2,3)
  by (rule wp_frames_acked) (rule assms(4), use assms(1) in \<open>auto simp: idle_inv_def quiet_def\<close>)

lemma kick_idle_inv:
  assumes "idle_inv L b c x" and "faults_for L b E" and "\<And>y. idle_inv L b c y \<Longrightarrow> Q y"
  shows "ends E Q (x75_kick L x)"
  using idle_invD [OF assms(1)] assms(2)
  by (rule wp_kick) (rule assms(3), use assms(1) in \<open>auto simp: idle_inv_def kick_rel_def quiet_def split: if_splits\<close>)

lemma enquiry_wp [wp]: "(\<And>d c. Q (x\<lparr>dev := d, condition := c\<rparr>)) \<Longrightarrow> ends E Q (x75_enquiry_response L x)"
  by (simp add: x75_enquiry_response_def) (rule wp, simp_all)

lemma timeout_wp [wp]: "(\<And>d c. Q (x\<lparr>dev := d, condition := c\<rparr>)) \<Longrightarrow> ends E Q (x75_timeout_response L x)"
  by (simp add: x75_timeout_response_def) (rule wp, simp_all)

lemma need_response_wp [wp]:
  "Q x \<Longrightarrow> (\<And>d c. Q (x\<lparr>dev := d, condition := c\<rparr>)) \<Longrightarrow> ends E Q (x75_check_need_response L type pf x)"
  by (simp add: x75_check_need_response_def enquiry_wp)

lemma frame_reject_idle: "idle_inv L b c x \<Longrightarrow> ends E (idle_inv L b c) (x75_frame_reject L frame reason x)"
  by (simp add: x75_frame_reject_def) (rule wp, simp)

lemma check_iframes_idle:
  "idle_inv L b c x \<Longrightarrow> nr < modulus x \<Longrightarrow> nr_valid x nr \<Longrightarrow>
   ends E (\<lambda>y. idle_inv L b c y \<and> vr y = vr x \<and> modulus y = modulus x) (x75_check_iframes_acked L nr x)"
  by (auto simp: x75_check_iframes_acked_def x75_start_t1timer_def x75_stop_t1timer_def Let_def intro!: acked_idle [where b = b and c = c])

lemma accept_connection_idle:
  "idle_inv L b c x \<Longrightarrow> b \<longrightarrow> quiet L x \<Longrightarrow> ends E (idle_inv L b c) (x75_accept_connection L pf x)"
  by (simp add: x75_accept_connection_def) (rule wp, simp_all add: reset_idle)

lemma establish_idle:
  "idle_inv L b c x \<Longrightarrow> ends E (\<lambda>y. idle_inv L b c y) (x75_establish_data_link L x)"
  by (simp add: x75_establish_data_link_def) (auto intro!: wp_send_control)

lemma state0_idle:
  "idle_inv L b c x \<Longrightarrow> b \<longrightarrow> \<not> x75_discards x frame \<or> quiet L x \<Longrightarrow> state x = X75_STATE_0 \<Longrightarrow>
   ends E (idle_inv L b c) (x75_state0_machine L frame x)"
  by (auto simp: x75_state0_machine_def x75_discards_def
      intro!: wp_send_control accept_connection_idle)

lemma state1_idle:
  "idle_inv L b c x \<Longrightarrow> b \<longrightarrow> \<not> x75_discards x frame \<or> quiet L x \<Longrightarrow> state x = X75_STATE_1 \<Longrightarrow>
   ends E (idle_inv L b c) (x75_state1_machine L frame x)"
  by (auto simp: x75_state1_machine_def x75_discards_def
      intro!: wp_send_control reset_idle clear_idle)

lemma state2_idle: "idle_inv L b c x \<Longrightarrow> ends E (idle_inv L b c) (x75_state2_machine L frame x)"
  by (auto simp: x75_state2_machine_def intro!: wp_send_control)

lemma state4_idle:
  "idle_inv L b c x \<Longrightarrow> b \<longrightarrow> \<not> x75_discards x frame \<or> quiet L x \<Longrightarrow> state x = X75_STATE_4 \<Longrightarrow>
   ends E (idle_inv L b c) (x75_state4_machine L frame x)"
  by (auto simp: x75_state4_machine_def x75_discards_def
      intro!: wp_send_control accept_connection_idle)

lemma state3_reset_idle: "idle_inv L b c x \<Longrightarrow> ends E (idle_inv L b c) (x75_state3_reset L pf x)"
  by (auto simp: x75_state3_reset_def idle_inv_def x75_inv_queues
      intro!: wp_send_control requeue_quiet [where b = b and c = c] reset_link_queues)

lemma state3_rr_idle:
  "idle_inv L b c x \<Longrightarrow> f_nr frame < modulus x \<Longrightarrow> ends E (idle_inv L b c) (x75_state3_rr L busy frame x)"
  by (auto simp: x75_state3_rr_def validate_nr_idle [of L b c]
      intro!: need_response_wp frame_reject_idle ends_mono [OF check_iframes_idle])

lemma state3_rej_idle:
  "idle_inv L b c x \<Longrightarrow> f_nr frame < modulus x \<Longrightarrow> ends E (idle_inv L b c) (x75_state3_rej L frame x)"
  by (auto simp: x75_state3_rej_def validate_nr_idle [of L b c]
      intro!: need_response_wp frame_reject_idle acked_idle [where b = b and c = c]
        requeue_idle [where b = b and c = c])

lemma state3_accept_idle:
  "idle_inv L b c x \<Longrightarrow> ends E (idle_inv L b c) (x75_state3_accept L skb frame x)"
  by (auto simp: x75_state3_accept_def idle_inv_vr
      intro!: wp_send_control enquiry_wp)

lemma state3_i_idle:
  "idle_inv L b c x \<Longrightarrow> f_nr frame < modulus x \<Longrightarrow> ends E (idle_inv L b c) (x75_state3_i L skb frame x)"
  by (auto simp: x75_state3_i_def validate_nr_idle [of L b c]
      intro!: frame_reject_idle acked_idle [where b = b and c = c] state3_accept_idle
        ends_mono [OF check_iframes_idle])

lemma state3_idle:
  assumes inv: "idle_inv L b c x" and f: "frame_ok x frame"
    and d: "b \<longrightarrow> \<not> x75_discards x frame \<or> quiet L x" and s: "state x = X75_STATE_3"
  shows "ends E (idle_inv L b c) (x75_state3_machine L skb frame x)"
proof -
  have nr: "f_nr frame < modulus x" if "f_type frame \<in> {X75_I, X75_RR, X75_RNR, X75_REJ}"
    using f that by (auto simp: frame_ok_def)
  have q: "b \<longrightarrow> quiet L x" if "f_type frame = X75_DISC \<or> f_type frame = X75_DM"
    using d s that by (auto simp: x75_discards_def)
  show ?thesis
    using inv nr q
    by (auto simp: x75_state3_machine_def clear_idle
        intro!: wp_send_control state3_reset_idle state3_rr_idle state3_rej_idle state3_i_idle
          frame_reject_idle ends_mono [OF establish_idle] requeue_idle [where b = b and c = c]
       )
qed

lemma machine_idle:
  assumes "idle_inv L b c x" and "frame_ok x frame" and "b \<longrightarrow> \<not> x75_discards x frame \<or> quiet L x"
  shows "ends E (idle_inv L b c) (x75_machine L skb frame x)"
  using assms
  by (cases "state x")
     (simp_all add: x75_machine_def state0_idle state1_idle state2_idle state3_idle state4_idle)

lemma machine_inv:
  assumes "x75_inv L b x" and "frame_ok x frame" and "b \<longrightarrow> \<not> x75_discards x frame \<or> quiet L x"
  shows "ends E (x75_inv L b) (x75_machine L skb frame x)"
  using machine_idle [of b False x frame] assms by simp

lemma data_input_idle:
  assumes "idle_inv L b c x" and "faults_for L b E" and "b \<longrightarrow> \<not> event_discards L stack (Input m) x \<or> quiet L x"
  shows "ends E (idle_inv L b c) (x75_data_input L stack m x)"
proof (cases "x75_decode L x m stack")
  case None
  with assms(1) show ?thesis by (simp add: x75_data_input_def)
next
  case (Some r)
  obtain m' frame where r: "r = (m', frame)" by (cases r)
  have "ends E (idle_inv L b c) (x75_machine L m' frame x)"
    using assms Some r decode_ok [of L x m stack m' frame]
    by (intro machine_idle) (simp_all add: event_discards_def)
  then have "ends E (\<lambda>y. ends E (idle_inv L b c) (x75_kick L y)) (x75_machine L m' frame x)"
    by (rule ends_mono) (auto intro: kick_idle_inv assms(2))
  then show ?thesis using Some r by (simp add: x75_data_input_def)
qed

section \<open>Timers and user calls\<close>

lemma t1_expiry_idle:
  assumes "idle_inv L b c x" and "faults_for L b E"
    and "b \<longrightarrow> \<not> gives_up (Some X75_t1timer_expiry) x \<or> quiet L x"
  shows "ends E (idle_inv L b c) (x75_t1timer_expiry L x)"
proof (cases "timer_pending L (t1timer x) \<or> \<not> t1timer_running x")
  case True
  with assms(1) show ?thesis by (auto simp: x75_t1timer_expiry_def)
next
  case False
  have c: "idle_inv L b c (x75_clear_queues L x)" if "n2count x = n2 x" "state x \<noteq> X75_STATE_0"
    using assms that by (intro clear_idle) (auto simp: gives_up_def)
  show ?thesis
    using assms False c
    by (cases "state x")
       (auto simp: x75_t1timer_expiry_def x75_t1_give_up_def
        intro!: wp_send_control wp_transmit_frmr requeue_idle [where b = b and c = c] kick_idle_inv
          ends_mono [OF establish_idle])
qed

lemma t2_expiry_idle: "idle_inv L b c x \<Longrightarrow> ends E (idle_inv L b c) (x75_t2timer_expiry L x)"
  by (auto simp: x75_t2timer_expiry_def intro!: timeout_wp)

lemma timer_call_idle:
  assumes "idle_inv L b c x" and "faults_for L b E" and "b \<longrightarrow> \<not> gives_up f x \<or> quiet L x"
  shows "ends E (idle_inv L b c) (x75_timer_call L f x)"
  using assms
  by (auto simp: x75_timer_call_def intro!: t1_expiry_idle t2_expiry_idle split: option.split timer_fn.split)

lemma gives_up_upd [simp]:
  "gives_up f (x\<lparr>t1timer := t\<rparr>) = gives_up f x" "gives_up f (x\<lparr>t2timer := t\<rparr>) = gives_up f x"
  by (simp_all add: gives_up_def)

lemma ends_with_rc [simp]: "ends E Q (map_sum id snd (with_rc rc r)) = ends E Q r"
  by (cases r) (simp_all add: with_rc_def)

lemma data_request_inv:
  assumes "x75_inv L b x" and "faults_for L b E" and "3 \<le> msgb_headroom L m"
  shows "ends E (x75_inv L b) (map_sum id snd (x75_data_request L m x))"
  using assms by (auto simp: x75_data_request_def intro!: wp_kick enq_write_inv)

lemma step_idle:
  assumes inv: "idle_inv L b c x" and E: "faults_for L b E" and ok: "event_ok L ev"
    and d: "b \<longrightarrow> \<not> event_discards L stack ev x \<or> quiet L x" and data: "c \<longrightarrow> (\<forall>m. ev \<noteq> Data m)"
  shows "ends E (idle_inv L b c) (x75_step L stack ev x)"
proof (cases ev)
  case (Input m)
  with assms show ?thesis by (simp add: x75_step_def x75_data_received_def data_input_idle)
next
  case (Data m)
  with assms data_request_inv [of b x E m] show ?thesis
    by (auto simp: x75_step_def event_ok_def idle_inv_def)
next
  case Connect
  with assms show ?thesis
    by (auto simp: x75_step_def x75_connect_request_def intro!: ends_mono [OF establish_idle])
next
  case Disconnect
  with assms show ?thesis
    by (auto simp: x75_step_def x75_disconnect_request_def event_discards_def clear_idle
        intro!: wp_send_control split: x75_state.split)
next
  case T1_due
  with assms show ?thesis
    by (auto simp: x75_step_def x75_t1timer_due_def event_discards_def intro!: timer_call_idle)
next
  case T2_due
  with assms show ?thesis
    by (auto simp: x75_step_def x75_t2timer_due_def event_discards_def intro!: timer_call_idle)
qed

lemma step_inv:
  assumes "x75_inv L b x" and "faults_for L b E" and "event_ok L ev"
    and "b \<longrightarrow> \<not> event_discards L stack ev x \<or> quiet L x"
  shows "ends E (x75_inv L b) (x75_step L stack ev x)"
  using step_idle [of b False x E ev stack] assms by simp

end

end
