(* ===== verification/X75_Session.thy ===== *)
theory X75_Session
  imports X75_Safety
begin

text \<open>
  Runs of the link layer: sequences of calls, the states they reach, and the safety
  theorems over them. \<open>lab_station\<close> is a control block over the list library with
  recording call-backs, on which the theorems are exercised.
\<close>

section \<open>Runs\<close>

text \<open>
  \<open>x75_run L stack x y\<close>: a sequence of calls leads from \<open>x\<close> to \<open>y\<close>. \<open>x75_session\<close> is the
  same for calls that do not discard queued messages.
\<close>

inductive x75_run ::
    "('m, 'q, 't) osmo_api \<Rightarrow> x75_frame \<Rightarrow> ('d, 'm, 'q, 't) x75_cb \<Rightarrow> ('d, 'm, 'q, 't) x75_cb \<Rightarrow> bool"
  for L stack where
  run_refl: "x75_run L stack x x"
| run_step: "x75_run L stack x y \<Longrightarrow> event_ok L ev \<Longrightarrow> x75_step L stack ev y = Inr z \<Longrightarrow>
    x75_run L stack x z"

inductive x75_session ::
    "('m, 'q, 't) osmo_api \<Rightarrow> x75_frame \<Rightarrow> ('d, 'm, 'q, 't) x75_cb \<Rightarrow> ('d, 'm, 'q, 't) x75_cb \<Rightarrow> bool"
  for L stack where
  session_refl: "x75_session L stack x x"
| session_step: "x75_session L stack x y \<Longrightarrow> event_ok L ev \<Longrightarrow>
    \<not> event_discards L stack ev y \<or> quiet L y \<Longrightarrow> x75_step L stack ev y = Inr z \<Longrightarrow>
    x75_session L stack x z"

context osmo_mem
begin

lemma no_faults: "faults_for L True {}"
  using copy_some by (auto simp: faults_for_def copy_or_exit_def)

lemma session_inv: "x75_session L stack x y \<Longrightarrow> x75_inv L True x \<Longrightarrow> x75_inv L True y"
proof (induction rule: x75_session.induct)
  case (session_step x y ev z)
  from step_inv [OF session_step.IH [OF session_step.prems] no_faults session_step.hyps(2), of stack]
  show ?case using session_step.hyps(3,4) by simp
qed

lemma session_call:
  assumes "x75_inv L True x" and "x75_session L stack x y" and "event_ok L ev"
    and "\<not> event_discards L stack ev y \<or> quiet L y"
  shows "\<exists>z. x75_step L stack ev y = Inr z \<and> link_ok z \<and>
    write_queue_count z = length (wq L z) \<and> ack_queue_count z = length (aq L z) \<and>
    length (aq L z) \<le> unat (window z) \<and>
    (aq L z \<noteq> [] \<longrightarrow> vs z = (va z + length (aq L z)) mod modulus z)"
proof -
  from step_inv [OF session_inv [OF assms(2,1)] no_faults assms(3)] assms(4)
  obtain z where z: "x75_step L stack ev y = Inr z" "x75_inv L True z"
    by (auto simp: ends_total)
  moreover have "aq L z \<noteq> [] \<longrightarrow> vs z = (va z + length (aq L z)) mod modulus z"
    using z(2) ring_dist_inverse [of "va z" "modulus z" "vs z"] by (auto simp: inv_defs)
  moreover have "length (aq L z) \<le> unat (window z)"
    using kick_window(2) [OF z(2)] .
  ultimately show ?thesis by (auto simp: x75_inv_def queues_inv_def counts_ok_def)
qed

end

section \<open>A station to run the theorems on\<close>

record lab =
  lab_tx :: "byte list list"
  lab_rx :: "byte list list"
  lab_ev :: "(string \<times> nat) list"

definition lab_callbacks :: "(lab, buf) x75_register_struct" where
  "lab_callbacks = \<lparr>
     connect_confirmation = Some (\<lambda>d r. d\<lparr>lab_ev := lab_ev d @ [(''connect_confirmation'', r)]\<rparr>),
     connect_indication = Some (\<lambda>d r. d\<lparr>lab_ev := lab_ev d @ [(''connect_indication'', r)]\<rparr>),
     disconnect_confirmation = Some (\<lambda>d r. d\<lparr>lab_ev := lab_ev d @ [(''disconnect_confirmation'', r)]\<rparr>),
     disconnect_indication = Some (\<lambda>d r. d\<lparr>lab_ev := lab_ev d @ [(''disconnect_indication'', r)]\<rparr>),
     data_indication = Some (\<lambda>d m. (0, d\<lparr>lab_rx := lab_rx d @ [buf_data m]\<rparr>)),
     data_transmit = Some (\<lambda>d m. d\<lparr>lab_tx := lab_tx d @ [buf_data m]\<rparr>)\<rparr>"

definition lab_timer :: tmr where
  "lab_timer = \<lparr>tmr_cb = None, tmr_due = None\<rparr>"

definition lab_frame :: x75_frame where
  "lab_frame = \<lparr>f_type = 0, f_nr = 0, f_ns = 0, f_cr = 0, f_pf = 0, f_control0 = 0, f_control1 = 0\<rparr>"

definition lab_station :: "u32 \<Rightarrow> x75_state \<Rightarrow> (lab, buf, buf list, tmr) x75_cb" where
  "lab_station md st = \<lparr>dev = \<lparr>lab_tx = [], lab_rx = [], lab_ev = []\<rparr>, mode = md, state = st,
     vs = 0, vr = 0, va = 0, condition = 0, n2 = 5, n2count = 0, t1 = 3000, t2 = 1,
     t1timer = lab_timer, t2timer = lab_timer, t1timer_running = False, t2timer_running = False,
     write_queue = [], write_queue_count = 0, ack_queue = [], ack_queue_count = 0, window = 7,
     callbacks = lab_callbacks, frmr_data = lab_frame, frmr_type = 0\<rparr>"

definition lab_msg :: "byte list \<Rightarrow> buf" where
  "lab_msg bs = \<lparr>buf_head = 8, buf_data = bs, buf_tail = 0\<rparr>"

lemma lab_inv: "x75_inv list_osmo True (lab_station X75_STANDARD st)"
  by (simp add: inv_defs lab_station_def list_osmo_def modulus_def)

section \<open>Safety\<close>

text \<open>
  C3: no sequence of calls makes the layer hang in one of its loops or write outside a
  message buffer. Whatever the line delivers and the user and the timers do, a call either
  returns with the window open, the sequence variables below the modulus and head room in
  every queued message, or the process dies from a null message or a failed copy.
\<close>

theorem x75_calls_safe:
  assumes "osmo_lib L" and "x75_inv L False x" and "x75_run L stack x y" and "event_ok L ev"
  shows "ends {NullDeref, ExitFailure} (\<lambda>z. link_ok z \<and> room_ok L z) (x75_step L stack ev y)"
proof -
  have E: "faults_for L False {NullDeref, ExitFailure}"
    by (simp add: faults_for_def copy_or_exit_def)
  from assms(3,2) have "x75_inv L False y"
  proof induction
    case (run_step x y ev z)
    from osmo_lib.step_inv [OF assms(1) run_step.IH [OF run_step.prems] E run_step.hyps(2), of stack]
    show ?case using run_step.hyps(3) by simp
  qed
  from osmo_lib.step_inv [OF assms(1) this E assms(4), of stack] show ?thesis
    by (auto elim: ends_mono simp: x75_inv_def queues_inv_def)
qed

theorem x75_calls_safe_witness:
  "ends {NullDeref, ExitFailure} (\<lambda>z. link_ok z \<and> room_ok list_osmo z)
     (x75_step list_osmo lab_frame (Data (lab_msg [1, 2])) (lab_station X75_STANDARD X75_STATE_3))"
  by (rule x75_calls_safe [OF lo.osmo_lib_axioms _ run_refl])
     (simp_all add: inv_defs lab_station_def list_osmo_def modulus_def event_ok_def lab_msg_def)

text \<open>
  C1: a session never faults and never has more frames outstanding than its window.
  From a state with exact queue counters, every sequence of calls that does not discard
  queued messages runs through, and after it V(S) is ahead of V(A) by exactly the number
  of unacknowledged frames, which the window bounds; the next such call returns as well.
\<close>

theorem x75_session_safe:
  assumes "osmo_mem L" and "x75_inv L True x" and "x75_session L stack x y" and "event_ok L ev"
    and "\<not> event_discards L stack ev y \<or> quiet L y"
  shows "\<exists>z. x75_step L stack ev y = Inr z \<and> link_ok z \<and>
    write_queue_count z = length (wq L z) \<and> ack_queue_count z = length (aq L z) \<and>
    length (aq L z) \<le> unat (window z) \<and>
    (aq L z \<noteq> [] \<longrightarrow> vs z = (va z + length (aq L z)) mod modulus z)"
  using assms by (rule osmo_mem.session_call)

theorem x75_session_safe_witness:
  "\<exists>z. x75_step list_osmo lab_frame (Data (lab_msg [1, 2])) (lab_station X75_STANDARD X75_STATE_3) = Inr z \<and>
     link_ok z \<and> write_queue_count z = length (wq list_osmo z) \<and>
     ack_queue_count z = length (aq list_osmo z) \<and>
     length (aq list_osmo z) \<le> unat (window z) \<and>
     (aq list_osmo z \<noteq> [] \<longrightarrow> vs z = (va z + length (aq list_osmo z)) mod modulus z)"
  by (rule x75_session_safe [OF lo.osmo_mem_axioms lab_inv session_refl])
     (simp_all add: event_ok_def event_discards_def list_osmo_def lab_msg_def)

end
