(* ===== verification/X75_Behaviour.thy ===== *)
theory X75_Behaviour
  imports X75_Session
begin

text \<open>
  What the link layer does, call by call: the frames it sends and parses, the
  acknowledgement of frames, and the treatment of received information frames.
\<close>

section \<open>Frames on the wire\<close>

text \<open>
  An information frame survives the line. The bytes \<open>x75_send_iframe\<close> hands to the
  transmit call-back, in any message with room left, are parsed by the peer (same modulus
  and procedure, other end of the line) as a command I-frame with the sender's V(S) as N(S), its V(R) as N(R), its poll
  bit, and exactly the payload left.
\<close>

theorem x75_iframe_roundtrip:
  assumes "osmo_lib L" and "3 \<le> msgb_headroom L skb" and "link_ok x"
    and "mode y = peer_mode (mode x)" and "headlen_passes L"
  shows "\<exists>m. x75_send_iframe L (Some skb) poll x = Inr (x\<lparr>dev := x75_tx x (dev x) m\<rparr>) \<and>
    (\<forall>n. msgb_data L n = msgb_data L m \<longrightarrow> roomy L n \<longrightarrow>
      (\<exists>m' frame. x75_decode L y n stack = Some (m', frame) \<and> msgb_data L m' = msgb_data L skb \<and>
        f_type frame = X75_I \<and> f_ns frame = vs x \<and> f_nr frame = vr x \<and>
        (f_pf frame \<noteq> 0 \<longleftrightarrow> poll \<noteq> 0) \<and> f_cr frame = X75_COMMAND))"
proof -
  obtain m where s: "x75_send_iframe L (Some skb) poll x = Inr (x\<lparr>dev := x75_tx x (dev x) m\<rparr>)"
    and d: "msgb_data L m = x75_iframe (mode x) (vr x) (vs x) poll (msgb_data L skb)"
    by (rule osmo_lib.send_iframe [OF assms(1,2)])
  have mod: "modulus y = modulus x"
    using assms(4) peer_mode_bits(1) by (simp add: modulus_def)
  have lt: "vr x < modulus y" "vs x < modulus y"
    using assms(3) mod by (simp_all add: link_ok_def)
  have "\<exists>m' frame. x75_decode L y n stack = Some (m', frame) \<and> msgb_data L m' = msgb_data L skb \<and>
      f_type frame = X75_I \<and> f_ns frame = vs x \<and> f_nr frame = vr x \<and>
      (f_pf frame \<noteq> 0 \<longleftrightarrow> poll \<noteq> 0) \<and> f_cr frame = X75_COMMAND"
    if n: "msgb_data L n = msgb_data L m" "roomy L n" for n
  proof -
    note d' = n(1) [unfolded d]
    show ?thesis
      by (rule osmo_lib.decode_iframe [OF assms(1) d' assms(4) osmo_lib.headlen_iframe [OF assms(1,5) n(2) d'] lt, of stack])
         auto
  qed
  with s show ?thesis by blast
qed

theorem x75_iframe_roundtrip_witness:
  "\<exists>m' frame. x75_decode list_osmo (lab_station 5 X75_STATE_3) (lab_msg [1, 0, 0, 1, 2]) lab_frame = Some (m', frame) \<and>
     msgb_data list_osmo m' = [1, 2] \<and> f_type frame = X75_I"
proof -
  let ?x = "lab_station X75_EXTENDED X75_STATE_3" and ?y = "lab_station 5 X75_STATE_3"
  have "3 \<le> msgb_headroom list_osmo (lab_msg [1, 2])" "link_ok ?x" "mode ?y = peer_mode (mode ?x)" "headlen_passes list_osmo"
    by (simp_all add: link_ok_def modulus_def lab_station_def lab_msg_def list_osmo_def headlen_passes_def peer_mode_def)
  from x75_iframe_roundtrip [OF lo.osmo_lib_axioms this, of 0 lab_frame] obtain m where
    m: "x75_send_iframe list_osmo (Some (lab_msg [1, 2])) 0 ?x = Inr (?x\<lparr>dev := x75_tx ?x (dev ?x) m\<rparr>)"
    and n: "\<forall>n. msgb_data list_osmo n = msgb_data list_osmo m \<longrightarrow> roomy list_osmo n \<longrightarrow>
      (\<exists>m' frame. x75_decode list_osmo ?y n lab_frame = Some (m', frame) \<and>
        msgb_data list_osmo m' = msgb_data list_osmo (lab_msg [1, 2]) \<and>
        f_type frame = X75_I \<and> f_ns frame = vs ?x \<and> f_nr frame = vr ?x \<and>
        (f_pf frame \<noteq> 0 \<longleftrightarrow> (0::byte) \<noteq> 0) \<and> f_cr frame = X75_COMMAND)"
    by (elim exE conjE) (rule that)
  have "map_sum id (\<lambda>z. lab_tx (dev z)) (x75_send_iframe list_osmo (Some (lab_msg [1, 2])) 0 ?x) = Inr [[1, 0, 0, 1, 2]]"
    by code_simp
  then have "msgb_data list_osmo m = [1, 0, 0, 1, 2]"
    unfolding m by (simp add: lab_station_def x75_tx_def lab_callbacks_def list_osmo_def)
  with n [rule_format, of "lab_msg [1, 0, 0, 1, 2]"] show ?thesis
    by (auto simp: lab_msg_def list_osmo_def roomy_def)
qed

text \<open>
  Supervisory and unnumbered frames survive the line. What \<open>x75_send_control\<close> hands to
  the transmit call-back for one of the nine control frame types is parsed by the peer,
  in any message with room left, as that type, command or response, with that poll/final bit, and the three supervisory
  types with the sender's V(R) as N(R).
\<close>

theorem x75_control_roundtrip:
  assumes "osmo_mem L" and "link_ok x" and "mode y = peer_mode (mode x)" and "headlen_passes L"
    and "type = X75_COMMAND \<or> type = X75_RESPONSE"
    and "t \<in> {X75_RR, X75_RNR, X75_REJ, X75_SABM, X75_SABME, X75_DISC, X75_DM, X75_UA, X75_FRMR}"
  shows "\<exists>m. x75_send_control L t poll type x = Inr (x\<lparr>dev := x75_tx x (dev x) m\<rparr>) \<and>
    (\<forall>n. msgb_data L n = msgb_data L m \<longrightarrow> roomy L n \<longrightarrow>
      (\<exists>m' frame. x75_decode L y n stack = Some (m', frame) \<and> f_type frame = t \<and>
        (t \<in> {X75_RR, X75_RNR, X75_REJ} \<longrightarrow> f_nr frame = vr x) \<and>
        (f_pf frame \<noteq> 0 \<longleftrightarrow> poll \<noteq> 0) \<and> f_cr frame = type))"
proof -
  have lib: "osmo_lib L" by (rule osmo_mem_lib [OF assms(1)])
  have "msgb_alloc L 23 \<noteq> None"
    using msgb_mem.alloc_some [OF osmo_mem.axioms(1) [OF assms(1)], of 23] by auto
  then obtain m where s: "x75_send_control L t poll type x = Inr (x\<lparr>dev := x75_tx x (dev x) m\<rparr>)"
    and d: "msgb_data L m = x75_addr (mode x) type # x75_ctl (mode x) (vr x) t poll"
    using osmo_lib.send_control [OF lib assms(5), of t poll x] by metis
  have r: "vr x < modulus y"
    using assms(2,3) peer_mode_bits(1) by (simp add: modulus_def link_ok_def)
  have "\<exists>m' frame. x75_decode L y n stack = Some (m', frame) \<and> f_type frame = t \<and>
        (t \<in> {X75_RR, X75_RNR, X75_REJ} \<longrightarrow> f_nr frame = vr x) \<and>
        (f_pf frame \<noteq> 0 \<longleftrightarrow> poll \<noteq> 0) \<and> f_cr frame = type"
    if n: "msgb_data L n = msgb_data L m" "roomy L n" for n
  proof (cases "t \<in> {X75_RR, X75_RNR, X75_REJ}")
    case True
    note d' = n(1) [unfolded d]
    note len = osmo_lib.headlen_sframe [OF lib assms(4) n(2) d' True]
    show ?thesis
      by (rule osmo_lib.decode_sframe [OF lib d' assms(5) True assms(3) len r, of stack]) auto
  next
    case False
    then have t: "t \<in> {X75_SABM, X75_SABME, X75_DISC, X75_DM, X75_UA, X75_FRMR}"
      using assms(6) by auto
    note d' = n(1) [unfolded d]
    have len: "2 \<le> msgb_headlen L n"
      using assms(4) n(2) d' by (auto simp: headlen_passes_def x75_ctl_def Let_def)
    show ?thesis
      by (rule osmo_lib.decode_uframe [OF lib d' assms(5) t assms(3) len, of stack]) (use False in auto)
  qed
  with s show ?thesis by blast
qed

theorem x75_control_roundtrip_witness:
  "\<exists>m. x75_send_control list_osmo X75_RR 1 X75_RESPONSE (lab_station X75_STANDARD X75_STATE_3)
      = Inr ((lab_station X75_STANDARD X75_STATE_3)\<lparr>dev := x75_tx (lab_station X75_STANDARD X75_STATE_3)
               (dev (lab_station X75_STANDARD X75_STATE_3)) m\<rparr>) \<and>
    (\<forall>n. msgb_data list_osmo n = msgb_data list_osmo m \<longrightarrow> roomy list_osmo n \<longrightarrow>
      (\<exists>m' frame. x75_decode list_osmo (lab_station X75_DCE X75_STATE_3) n lab_frame = Some (m', frame) \<and>
        f_type frame = X75_RR \<and>
        (X75_RR \<in> {X75_RR, X75_RNR, X75_REJ} \<longrightarrow> f_nr frame = vr (lab_station X75_STANDARD X75_STATE_3)) \<and>
        (f_pf frame \<noteq> 0 \<longleftrightarrow> (1 :: byte) \<noteq> 0) \<and> f_cr frame = X75_RESPONSE))"
  by (rule x75_control_roundtrip [OF lo.osmo_mem_axioms])
     (simp_all add: link_ok_def modulus_def lab_station_def list_osmo_def headlen_passes_def peer_mode_def)

text \<open>
  C36: whatever bytes arrive, a frame the parser lets through has a type its control octet
  encodes, never the internal \<open>X75_ILLEGAL\<close>, and its sequence numbers are below the modulus
  in use. In particular the frame reject for an illegal control field is unreachable.
\<close>

theorem x75_decode_bounds:
  "x75_decode L x m stack = Some (m', frame) \<Longrightarrow>
     f_type frame \<noteq> X75_ILLEGAL \<and>
     (f_type frame \<in> {X75_I, X75_RR, X75_RNR, X75_REJ} \<longrightarrow> f_nr frame < modulus x) \<and>
     (f_type frame = X75_I \<longrightarrow> f_ns frame < modulus x)"
  using decode_ok [of L x m stack m' frame] by (simp add: frame_ok_def)

theorem x75_decode_bounds_witness:
  "x75_decode list_osmo (lab_station X75_STANDARD X75_STATE_3) (lab_msg [3, 0xEE]) lab_frame
     = Some (\<lparr>buf_head = 10, buf_data = [], buf_tail = 0\<rparr>,
             lab_frame\<lparr>f_type := X75_I, f_nr := 7, f_ns := 7, f_cr := 1, f_control0 := 0xEE\<rparr>) \<and>
   (7 :: nat) < modulus (lab_station X75_STANDARD X75_STATE_3)"
proof -
  have d: "x75_decode list_osmo (lab_station X75_STANDARD X75_STATE_3) (lab_msg [3, 0xEE]) lab_frame
     = Some (\<lparr>buf_head = 10, buf_data = [], buf_tail = 0\<rparr>,
             lab_frame\<lparr>f_type := X75_I, f_nr := 7, f_ns := 7, f_cr := 1, f_control0 := 0xEE\<rparr>)"
    by code_simp
  from x75_decode_bounds [OF d] d show ?thesis by (simp add: lab_frame_def)
qed

section \<open>The sliding window\<close>

text \<open>A station with one frame outstanding and two messages waiting.\<close>

definition lab_loaded :: "u32 \<Rightarrow> (lab, buf, buf list, tmr) x75_cb" where
  "lab_loaded md = (lab_station md X75_STATE_3)\<lparr>va := 7, vs := 0, vr := 3,
     ack_queue := [lab_msg [10]], ack_queue_count := 1,
     write_queue := [lab_msg [11], lab_msg [12]], write_queue_count := 2\<rparr>"

lemma lab_loaded_inv: "x75_inv list_osmo True (lab_loaded X75_STANDARD)"
  by (simp add: inv_defs lab_loaded_def lab_station_def list_osmo_def modulus_def lab_msg_def
      ring_dist_def)

lemmas lab_simps = lab_loaded_def lab_station_def list_osmo_def modulus_def lab_msg_def lab_timer_def

text \<open>
  The N(R) check always ends and accepts exactly the sequence numbers from V(A) to
  V(S) on the ring.
\<close>

theorem x75_validate_nr_exact:
  "va x < modulus x \<Longrightarrow> vs x < modulus x \<Longrightarrow>
   x75_validate_nr x nr =
     Inr (\<exists>k \<le> ring_dist (modulus x) (va x) (vs x). nr = (va x + k) mod modulus x)"
  using validate_nr [of x nr] by (simp add: nr_valid_def)

theorem x75_validate_nr_exact_witness:
  "x75_validate_nr ((lab_station X75_STANDARD X75_STATE_3)\<lparr>va := 6, vs := 1\<rparr>) 0 = Inr True \<and>
   x75_validate_nr ((lab_station X75_STANDARD X75_STATE_3)\<lparr>va := 6, vs := 1\<rparr>) 2 = Inr False"
proof -
  have m: "modulus ((lab_station X75_STANDARD X75_STATE_3)\<lparr>va := 6, vs := 1\<rparr>) = 8"
    by (simp add: modulus_def lab_station_def)
  have r: "(\<exists>k\<le>3. (0::nat) = (6 + k) mod 8)" "\<not> (\<exists>k\<le>3. (2::nat) = (6 + k) mod 8)"
    by presburger+
  show ?thesis
    using x75_validate_nr_exact [of "(lab_station X75_STANDARD X75_STATE_3)\<lparr>va := 6, vs := 1\<rparr>"] m r
    by (simp add: ring_dist_def)
qed

text \<open>
  Acknowledgement. Under the session invariant, an acceptable N(R) removes exactly the
  frames before it from the acknowledgement queue, leaves the rest in order, moves V(A) to
  N(R) when anything was outstanding, and keeps the queue counter exact.
\<close>

theorem x75_frames_acked_exact:
  assumes "osmo_lib L" and "x75_inv L True x" and "x75_validate_nr x nr = Inr True"
  shows "\<exists>y. x75_frames_acked L nr x = Inr y \<and>
    (if aq L x = [] then aq L y = [] \<and> va y = va x
     else aq L y = drop (ring_dist (modulus x) (va x) nr) (aq L x) \<and> va y = nr) \<and>
    ack_queue_count y = length (aq L y) \<and> wq L y = wq L x \<and> dev y = dev x"
proof -
  let ?n = "modulus x" and ?a = "length (aq L x)"
  have va: "va x < ?n" and vs: "vs x < ?n" and cnt: "ack_queue_count x = ?a"
    and win: "aq L x \<noteq> [] \<longrightarrow> ring_dist ?n (va x) (vs x) = ?a"
    using assms(2) by (simp_all add: inv_defs)
  from assms(3) have v: "nr_valid x nr" by (simp add: validate_nr_inv [OF assms(2)])
  then obtain j where j: "j \<le> ring_dist ?n (va x) (vs x)" "nr = (va x + j) mod ?n"
    unfolding nr_valid_def by blast
  then have nr: "nr < ?n" by simp
  have dj: "ring_dist ?n (va x) nr = j"
    using j va ring_dist_less [of ?n "va x" "vs x"] by (simp add: ring_dist_add)
  obtain q c k where "x75_frames_acked L nr x
       = Inr (x\<lparr>ack_queue := q, ack_queue_count := c, va := (va x + k) mod ?n\<rparr>)"
    and "msgb_queue L q = drop k (aq L x)" and "k \<le> ring_dist ?n (va x) nr"
    and "ack_queue_count x = ?a \<longrightarrow>
       c = length (msgb_queue L q) \<and> k = min ?a (ring_dist ?n (va x) nr)"
    by (rule osmo_lib.frames_acked [OF assms(1) va nr]) (rule that)
  then show ?thesis using cnt win dj j va by auto
qed

theorem x75_frames_acked_exact_witness:
  "\<exists>y. x75_frames_acked list_osmo 0 (lab_loaded X75_STANDARD) = Inr y \<and> aq list_osmo y = [] \<and>
     va y = 0 \<and> ack_queue_count y = 0"
proof -
  have "x75_validate_nr (lab_loaded X75_STANDARD) 0 = Inr True" by code_simp
  from x75_frames_acked_exact [OF lo.osmo_lib_axioms lab_loaded_inv this] show ?thesis
    by (auto simp: lab_simps ring_dist_def)
qed

context osmo_mem
begin

lemma kick_sends:
  assumes "x75_inv L True x" and "\<not> kick_blocked x"
    and "k = min (length (wq L x)) (unat (window x) - length (aq L x))"
  shows "0 < k \<and> (\<exists>y frames. x75_kick L x = Inr y \<and>
    dev y = foldl (x75_tx x) (dev x) frames \<and>
    map (msgb_data L) frames = iframes (mode x) (vr x) (modulus x)
      ((va x + length (aq L x)) mod modulus x) (map (msgb_data L) (take k (wq L x))) \<and>
    aq L y = aq L x @ take k (wq L x) \<and> wq L y = drop k (wq L x) \<and>
    vs y = (va x + length (aq L x) + k) mod modulus x \<and> t1timer_running y)"
proof -
  note kw = kick_window [OF assms(1)]
  have k: "kick_sent L x = k" using assms(3) kw by (simp add: kick_sent_def)
  have ne: "wq L x \<noteq> []"
    using assms(1,2) by (auto simp: kick_blocked_def inv_defs)
  have "kick_start x < modulus x" "kick_end x < modulus x" "kick_start x \<noteq> kick_end x"
    using assms(1,2) by (auto simp: kick_start_def kick_end_def kick_blocked_def inv_defs)
  then have "0 < ring_dist (modulus x) (kick_start x) (kick_end x)"
    using ring_dist_eq_0 by blast
  then have pos: "0 < k" using ne kw(3) assms(3) by simp
  have "ends {} (kick_result L x k) (x75_kick L x)"
    using kick_run [OF assms(2) ne, of "{}"] assms(1) no_faults k
    by (auto simp: inv_defs faults_for_def)
  then obtain y where "x75_kick L x = Inr y" "kick_result L x k y" by (auto simp: ends_total)
  with pos show ?thesis
    unfolding kick_result_def kw(1) by (auto simp: mod_simps)
qed

end

text \<open>
  C11: the transmit routine. When the peer is ready, the window open and a message queued,
  \<open>x75_kick\<close> sends as many messages as the window leaves room for, as I-frames numbered
  consecutively behind the outstanding ones, moves them in order to the acknowledgement
  queue, and leaves T1 running.
\<close>

theorem x75_kick_sends:
  assumes "osmo_mem L" and "x75_inv L True x" and "\<not> kick_blocked x"
    and "k = min (length (wq L x)) (unat (window x) - length (aq L x))"
  shows "0 < k \<and> (\<exists>y frames. x75_kick L x = Inr y \<and>
    dev y = foldl (x75_tx x) (dev x) frames \<and>
    map (msgb_data L) frames = iframes (mode x) (vr x) (modulus x)
      ((va x + length (aq L x)) mod modulus x) (map (msgb_data L) (take k (wq L x))) \<and>
    aq L y = aq L x @ take k (wq L x) \<and> wq L y = drop k (wq L x) \<and>
    vs y = (va x + length (aq L x) + k) mod modulus x \<and> t1timer_running y)"
  using assms by (rule osmo_mem.kick_sends)

lemma lab_tx_frames:
  "callbacks x = lab_callbacks \<Longrightarrow>
   lab_tx (foldl (x75_tx x) d frames) = lab_tx d @ map (msgb_data list_osmo) frames"
  by (induction frames arbitrary: d) (simp_all add: x75_tx_def lab_callbacks_def list_osmo_def)

theorem x75_kick_sends_witness:
  "\<exists>y. x75_kick list_osmo (lab_loaded X75_STANDARD) = Inr y \<and>
     lab_tx (dev y) = [[1, 0x60, 11], [1, 0x62, 12]] \<and>
     aq list_osmo y = [lab_msg [10], lab_msg [11], lab_msg [12]] \<and> wq list_osmo y = [] \<and> vs y = 2"
proof -
  let ?x = "lab_loaded X75_STANDARD"
  have b: "\<not> kick_blocked ?x" by code_simp
  have k: "2 = min (length (wq list_osmo ?x)) (unat (window ?x) - length (aq list_osmo ?x))"
    by code_simp
  have c: "iframes (mode ?x) (vr ?x) (modulus ?x) ((va ?x + length (aq list_osmo ?x)) mod modulus ?x)
      (map (msgb_data list_osmo) (take 2 (wq list_osmo ?x))) = [[1, 0x60, 11], [1, 0x62, 12]]"
    "aq list_osmo ?x @ take 2 (wq list_osmo ?x) = [lab_msg [10], lab_msg [11], lab_msg [12]]"
    "drop 2 (wq list_osmo ?x) = []" "(va ?x + length (aq list_osmo ?x) + 2) mod modulus ?x = 2"
    by code_simp+
  have t: "callbacks ?x = lab_callbacks" "lab_tx (dev ?x) = []" by (simp_all add: lab_simps)
  from x75_kick_sends [OF lo.osmo_mem_axioms lab_loaded_inv b k]
  obtain y frames where y: "x75_kick list_osmo ?x = Inr y"
    "dev y = foldl (x75_tx ?x) (dev ?x) frames"
    "map (msgb_data list_osmo) frames = [[1, 0x60, 11], [1, 0x62, 12]]"
    "aq list_osmo y = [lab_msg [10], lab_msg [11], lab_msg [12]]" "wq list_osmo y = []" "vs y = 2"
    unfolding c by (elim exE conjE) (rule that)
  moreover have "lab_tx (dev y) = [[1, 0x60, 11], [1, 0x62, 12]]"
    unfolding y(2) lab_tx_frames [OF t(1)] y(3) t(2) by simp
  ultimately show ?thesis by metis
qed

end
