(* ===== verification/X75_Receive.thy ===== *)
theory X75_Receive
  imports X75_Behaviour
begin

text \<open>
  Receiving information frames: in sequence they are delivered once, out of sequence they
  are answered with one REJ and otherwise ignored, and what one station's transmit routine
  sends is delivered in order by the other.
\<close>

text \<open>What the data indication does to the user's state, nothing when none is registered.\<close>

definition x75_ind :: "('d, 'm, 'q, 't) x75_cb \<Rightarrow> 'd \<Rightarrow> 'm \<Rightarrow> 'd" where
  "x75_ind x d m = (case data_indication (callbacks x) of None \<Rightarrow> d | Some f \<Rightarrow> snd (f d m))"

lemma snd_data_indication_eq: "snd (x75_data_indication m x) = x\<lparr>dev := x75_ind x (dev x) m\<rparr>"
  by (cases "data_indication (callbacks x)") (simp_all add: x75_data_indication_def x75_ind_def split_beta)

text \<open>Input of messages one after the other.\<close>

primrec x75_inputs ::
    "('m, 'q, 't) osmo_api \<Rightarrow> x75_frame \<Rightarrow> 'm list \<Rightarrow> ('d, 'm, 'q, 't) x75_cb
     \<Rightarrow> fault + ('d, 'm, 'q, 't) x75_cb" where
  "x75_inputs L stack [] x = Inr x"
| "x75_inputs L stack (m # ms) x =
     (case x75_data_input L stack m x of Inl e \<Rightarrow> Inl e | Inr y \<Rightarrow> x75_inputs L stack ms y)"

text \<open>A receiver in data transfer with nothing of its own to send.\<close>

definition listening :: "('d, 'm, 'q, 't) x75_cb \<Rightarrow> bool" where
  "listening x \<longleftrightarrow> state x = X75_STATE_3 \<and> link_ok x \<and> va x = vs x \<and> write_queue_count x = 0"

context osmo_lib
begin

lemma check_iframes_noop:
  assumes "va x = nr" and "vs x = nr"
  shows "x75_check_iframes_acked L nr x = Inr ((x75_stop_t1timer L x)\<lparr>n2count := 0\<rparr>)"
  using assms by (simp add: x75_check_iframes_acked_def x75_frames_acked_def seqs.simps)

lemma accept_in_sequence:
  assumes "f_ns frame = vr x" and "f_pf frame = 0"
  shows "\<exists>c t1 t2 r. x75_state3_accept L m frame x = Inr (x\<lparr>dev := x75_ind x (dev x) m,
     vr := Suc (vr x) mod modulus x, condition := c, t1timer := t1, t2timer := t2,
     t2timer_running := r\<rparr>)"
proof -
  let ?y = "x\<lparr>dev := x75_ind x (dev x) m, vr := Suc (vr x) mod modulus x,
    condition := condition x AND NOT X75_REJECT_CONDITION\<rparr>"
  have r: "x75_state3_accept L m frame x =
      Inr (if \<not> cond X75_ACK_PENDING_CONDITION ?y
           then x75_start_t2timer L (set_cond X75_ACK_PENDING_CONDITION ?y) else ?y)"
    using assms by (simp add: x75_state3_accept_def snd_data_indication_eq seqs.simps)
  show ?thesis
  proof (cases "cond X75_ACK_PENDING_CONDITION ?y")
    case True
    with r show ?thesis
      by (intro exI [of _ "condition ?y"] exI [of _ "t1timer x"] exI [of _ "t2timer x"]
          exI [of _ "t2timer_running x"]) simp
  next
    case False
    with r show ?thesis
      by (intro exI [of _ "condition ?y OR X75_ACK_PENDING_CONDITION"]
          exI [of _ "timer_setup L (t1timer x) (Some X75_t2timer_expiry)"]
          exI [of _ "timer_schedule L (timer_del L (t2timer x)) 0 (unat (t2 x) * 1000)"]
          exI [of _ True]) (simp add: x75_start_t2timer_def)
  qed
qed

lemma receive_iframe:
  assumes y: "listening y" "mode y = peer_mode md" and "headlen_passes L" and "roomy L m"
    and d: "msgb_data L m = x75_iframe md (vs y) (vr y) 0 p"
  obtains m' z where "x75_data_input L stack m y = Inr z" and "msgb_data L m' = p"
    and "dev z = x75_ind y (dev y) m'" and "vr z = Suc (vr y) mod modulus y"
    and "listening z" and "mode z = mode y" and "vs z = vs y" and "callbacks z = callbacks y"
proof -
  have ok: "state y = X75_STATE_3" "link_ok y" "va y = vs y" "write_queue_count y = 0"
    using y(1) by (simp_all add: listening_def)
  then have lt: "vs y < modulus y" "vr y < modulus y" by (simp_all add: link_ok_def)
  obtain m' frame where dec: "x75_decode L y m stack = Some (m', frame)"
    and p: "msgb_data L m' = p" and f: "f_type frame = X75_I" "f_ns frame = vr y"
      "f_nr frame = vs y" "f_pf frame = 0"
    using decode_iframe [OF d y(2) headlen_iframe [OF assms(3,4) d] lt(1) lt(2)] by metis
  have v: "x75_validate_nr y (vs y) = Inr True"
    using ok lt by (auto simp: validate_nr nr_valid_def intro: exI [of _ 0])
  define w where
    "w = (if cond X75_PEER_RX_BUSY_CONDITION y then y else (x75_stop_t1timer L y)\<lparr>n2count := 0\<rparr>)"
  have w: "vr w = vr y" "vs w = vs y" "va w = va y" "dev w = dev y" "mode w = mode y"
    "state w = state y" "window w = window y" "write_queue_count w = write_queue_count y"
    "callbacks w = callbacks y" "modulus w = modulus y"
    by (simp_all add: w_def x75_stop_t1timer_def)
  have "f_ns frame = vr w" using f w by simp
  from accept_in_sequence [OF this f(4), of m'] obtain c t1 t2 r where
    a: "x75_state3_accept L m' frame w = Inr (w\<lparr>dev := x75_ind w (dev w) m',
     vr := Suc (vr w) mod modulus w, condition := c, t1timer := t1, t2timer := t2,
     t2timer_running := r\<rparr>)" (is "_ = Inr ?z") by (elim exE) (rule that)
  have "x75_state3_i L m' frame y = x75_state3_accept L m' frame w"
    using f v ok check_iframes_noop [of y "vs y"]
    by (auto simp: w_def x75_state3_i_def x75_frames_acked_def seqs.simps split: sum.split)
  then have "x75_machine L m' frame y = Inr ?z"
    using ok(1) f(1) a by (simp add: x75_machine_def x75_state3_machine_def)
  moreover have "kick_blocked ?z" using ok(4) w by (simp add: kick_blocked_def)
  ultimately have "x75_data_input L stack m y = Inr ?z"
    using dec kick_idle [of ?z] by (simp add: x75_data_input_def seqs.simps)
  moreover have "listening ?z" using ok lt w by (auto simp: listening_def link_ok_def)
  moreover have "x75_ind w = x75_ind y" using w by (simp add: x75_ind_def fun_eq_iff)
  ultimately show ?thesis
    using p w by (intro that [of ?z m']) simp_all
qed

lemma receive_iframes:
  assumes "listening y" and "mode y = peer_mode md" and "headlen_passes L"
    and "\<forall>m \<in> set ms. roomy L m" and "map (msgb_data L) ms = iframes md (vs y) (modulus y) (vr y) ps"
  shows "\<exists>z ns. x75_inputs L stack ms y = Inr z \<and> map (msgb_data L) ns = ps \<and>
    dev z = foldl (x75_ind y) (dev y) ns \<and> vr z = (vr y + length ps) mod modulus y"
  using assms(1,2,4,5)
proof (induction ps arbitrary: ms y)
  case Nil
  then show ?case by (auto simp: listening_def link_ok_def)
next
  case (Cons p ps)
  then obtain m ms' where ms: "ms = m # ms'"
    and m: "msgb_data L m = x75_iframe md (vs y) (vr y) 0 p"
    and ms': "map (msgb_data L) ms' = iframes md (vs y) (modulus y) (Suc (vr y) mod modulus y) ps"
    by auto
  obtain m' z where z: "x75_data_input L stack m y = Inr z" "msgb_data L m' = p"
    "dev z = x75_ind y (dev y) m'" "vr z = Suc (vr y) mod modulus y" "listening z"
    "mode z = mode y" "vs z = vs y" "callbacks z = callbacks y"
    by (rule receive_iframe [OF Cons.prems(1,2) assms(3) _ m, of stack]) (use Cons.prems(3) ms in simp, rule that)
  then have "modulus z = modulus y" by (simp add: modulus_def)
  then obtain z' ns where "x75_inputs L stack ms' z = Inr z'" "map (msgb_data L) ns = ps"
    "dev z' = foldl (x75_ind z) (dev z) ns" "vr z' = (vr z + length ps) mod modulus z"
    using Cons.IH [of z ms'] z Cons.prems(2,3) ms ms' by auto
  moreover have "x75_ind z = x75_ind y" using z(8) by (simp add: x75_ind_def fun_eq_iff)
  ultimately show ?case
    using ms z \<open>modulus z = modulus y\<close>
    by (intro exI [of _ z'] exI [of _ "m' # ns"]) (simp add: mod_simps)
qed

end

context osmo_mem
begin

lemma send_control_mem:
  "type = X75_COMMAND \<or> type = X75_RESPONSE \<Longrightarrow>
   \<exists>fr. x75_send_control L frametype poll type x = Inr (x\<lparr>dev := x75_tx x (dev x) fr\<rparr>) \<and>
     msgb_data L fr = x75_addr (mode x) type # x75_ctl (mode x) (vr x) frametype poll"
  using send_control [of type frametype poll x] alloc_some [of 23] by (metis option.distinct(1))

lemma enquiry_mem:
  "\<exists>fr. x75_enquiry_response L x = Inr (x\<lparr>dev := x75_tx x (dev x) fr,
       condition := condition x AND NOT X75_ACK_PENDING_CONDITION\<rparr>) \<and>
     msgb_data L fr = x75_addr (mode x) X75_RESPONSE # x75_ctl (mode x) (vr x) X75_RR X75_POLLON"
proof -
  obtain fr where "x75_send_control L X75_RR X75_POLLON X75_RESPONSE x = Inr (x\<lparr>dev := x75_tx x (dev x) fr\<rparr>)"
    "msgb_data L fr = x75_addr (mode x) X75_RESPONSE # x75_ctl (mode x) (vr x) X75_RR X75_POLLON"
    using send_control_mem [of X75_RESPONSE X75_RR X75_POLLON x] by auto
  then show ?thesis by (intro exI [of _ fr]) (simp add: x75_enquiry_response_def seqs.simps)
qed

end

text \<open>The condition bits do not disturb each other.\<close>

lemma reject_bit:
  fixes c :: byte
  shows "(c AND NOT X75_REJECT_CONDITION) AND X75_REJECT_CONDITION = 0"
    and "(c OR X75_REJECT_CONDITION) AND X75_REJECT_CONDITION \<noteq> 0"
    and "(c AND NOT X75_ACK_PENDING_CONDITION) AND X75_REJECT_CONDITION = c AND X75_REJECT_CONDITION"
    and "(c OR X75_ACK_PENDING_CONDITION) AND X75_REJECT_CONDITION = c AND X75_REJECT_CONDITION"
  by (simp_all add: and.assoc bit.conj_disj_distrib2)

section \<open>Delivery\<close>

text \<open>
  An information frame in sequence. The user gets the payload once, V(R) advances by
  one, the reject condition is lifted; a polled frame is answered at once with RR carrying
  the new V(R), an unpolled one leaves an acknowledgement pending.
\<close>

theorem x75_in_sequence:
  assumes "osmo_mem L" and "f_ns frame = vr x"
  shows "\<exists>y. x75_state3_accept L m frame x = Inr y \<and> vr y = Suc (vr x) mod modulus x \<and>
    \<not> cond X75_REJECT_CONDITION y \<and>
    (if f_pf frame = 0 then dev y = x75_ind x (dev x) m \<and> cond X75_ACK_PENDING_CONDITION y
     else \<exists>fr. dev y = x75_tx x (x75_ind x (dev x) m) fr \<and> \<not> cond X75_ACK_PENDING_CONDITION y \<and>
       msgb_data L fr = x75_addr (mode x) X75_RESPONSE #
         x75_ctl (mode x) (Suc (vr x) mod modulus x) X75_RR X75_POLLON)"
proof -
  let ?y = "clr_cond X75_REJECT_CONDITION
    (x\<lparr>dev := x75_ind x (dev x) m, vr := Suc (vr x) mod modulus x\<rparr>)"
  have ack: "w AND 1 \<noteq> 0 \<longleftrightarrow> bit w 0" for w :: byte
    using and_exp_eq_0_iff_not_bit [of w 0] by simp
  have r: "x75_state3_accept L m frame x =
      (if f_pf frame \<noteq> 0 then x75_enquiry_response L ?y
       else if \<not> cond X75_ACK_PENDING_CONDITION ?y
       then Inr (x75_start_t2timer L (set_cond X75_ACK_PENDING_CONDITION ?y)) else Inr ?y)"
    using assms(2)
    by (auto simp: x75_state3_accept_def snd_data_indication_eq seqs.simps split: sum.splits)
  show ?thesis
  proof (cases "f_pf frame = 0")
    case True
    then show ?thesis
      using r reject_bit(1,4) by (auto simp: x75_start_t2timer_def Let_def ack bit_or_iff)
  next
    case False
    obtain fr where "x75_enquiry_response L ?y = Inr (?y\<lparr>dev := x75_tx ?y (dev ?y) fr,
        condition := condition ?y AND NOT X75_ACK_PENDING_CONDITION\<rparr>)"
      "msgb_data L fr = x75_addr (mode ?y) X75_RESPONSE # x75_ctl (mode ?y) (vr ?y) X75_RR X75_POLLON"
      using osmo_mem.enquiry_mem [OF assms(1), of ?y] by blast
    then show ?thesis
      using r False reject_bit(1,3) by (auto simp: x75_tx_def ack bit_and_iff bit_not_iff)
  qed
qed

theorem x75_in_sequence_witness:
  "\<exists>y. x75_state3_accept list_osmo (lab_msg [7]) lab_frame (lab_station X75_STANDARD X75_STATE_3) = Inr y \<and>
     vr y = 1 \<and> lab_rx (dev y) = [[7]]"
proof -
  have n: "f_ns lab_frame = vr (lab_station X75_STANDARD X75_STATE_3)"
    by (simp add: lab_frame_def lab_station_def)
  from x75_in_sequence [OF lo.osmo_mem_axioms n, of "lab_msg [7]"] show ?thesis
    by (auto simp: lab_frame_def lab_simps lab_callbacks_def x75_ind_def)
qed

text \<open>
  C34: an information frame out of sequence never reaches the user and never moves V(R).
  The first one is answered with one REJ carrying V(R); until the gap is closed further
  ones are ignored, except that a poll is answered with RR.
\<close>

theorem x75_out_of_sequence:
  assumes "osmo_mem L" and "f_ns frame \<noteq> vr x"
  shows "\<exists>y. x75_state3_accept L m frame x = Inr y \<and> vr y = vr x \<and> cond X75_REJECT_CONDITION y \<and>
    (if \<not> cond X75_REJECT_CONDITION x then
       \<exists>fr. dev y = x75_tx x (dev x) fr \<and> msgb_data L fr =
         x75_addr (mode x) X75_RESPONSE # x75_ctl (mode x) (vr x) X75_REJ (f_pf frame)
     else if f_pf frame = 0 then y = x
     else \<exists>fr. dev y = x75_tx x (dev x) fr \<and> msgb_data L fr =
         x75_addr (mode x) X75_RESPONSE # x75_ctl (mode x) (vr x) X75_RR X75_POLLON)"
proof (cases "cond X75_REJECT_CONDITION x")
  case True
  obtain fr where "x75_enquiry_response L x = Inr (x\<lparr>dev := x75_tx x (dev x) fr,
      condition := condition x AND NOT X75_ACK_PENDING_CONDITION\<rparr>)"
    "msgb_data L fr = x75_addr (mode x) X75_RESPONSE # x75_ctl (mode x) (vr x) X75_RR X75_POLLON"
    using osmo_mem.enquiry_mem [OF assms(1), of x] by blast
  with True assms(2) show ?thesis
    using reject_bit(3) by (auto simp: x75_state3_accept_def)
next
  case False
  let ?y = "set_cond X75_REJECT_CONDITION x"
  obtain fr where "x75_send_control L X75_REJ (f_pf frame) X75_RESPONSE ?y
      = Inr (?y\<lparr>dev := x75_tx ?y (dev ?y) fr\<rparr>)"
    "msgb_data L fr = x75_addr (mode ?y) X75_RESPONSE # x75_ctl (mode ?y) (vr ?y) X75_REJ (f_pf frame)"
    using osmo_mem.send_control_mem [OF assms(1), of X75_RESPONSE X75_REJ "f_pf frame" ?y] by auto
  then have "x75_state3_accept L m frame x = Inr (clr_cond X75_ACK_PENDING_CONDITION
      (?y\<lparr>dev := x75_tx ?y (dev ?y) fr\<rparr>))"
    and "msgb_data L fr = x75_addr (mode x) X75_RESPONSE # x75_ctl (mode x) (vr x) X75_REJ (f_pf frame)"
    using False assms(2) by (simp_all add: x75_state3_accept_def seqs.simps)
  then show ?thesis
    using False reject_bit(2,3) by (auto simp: x75_tx_def)
qed

theorem x75_out_of_sequence_witness:
  "\<exists>y. x75_state3_accept list_osmo (lab_msg [7]) (lab_frame\<lparr>f_ns := 2\<rparr>)
      (lab_station X75_STANDARD X75_STATE_3) = Inr y \<and> vr y = 0 \<and> cond X75_REJECT_CONDITION y"
proof -
  have n: "f_ns (lab_frame\<lparr>f_ns := 2\<rparr>) \<noteq> vr (lab_station X75_STANDARD X75_STATE_3)"
    by (simp add: lab_frame_def lab_station_def)
  have v: "vr (lab_station X75_STANDARD X75_STATE_3) = 0" by (simp add: lab_station_def)
  from x75_out_of_sequence [OF lo.osmo_mem_axioms n, of "lab_msg [7]"] v show ?thesis by metis
qed

lemma lab_rx_frames:
  "callbacks x = lab_callbacks \<Longrightarrow>
   lab_rx (foldl (x75_ind x) d ms) = lab_rx d @ map (msgb_data list_osmo) ms"
  by (induction ms arbitrary: d) (simp_all add: x75_ind_def lab_callbacks_def list_osmo_def)

text \<open>
  C2: end-to-end delivery. A sender's transmit routine and a listening receiver that has
  acknowledged everything sent before: when the frames the sender hands to its line reach
  the receiver one after the other, in messages of its own with room left, the receiver's user gets exactly the payloads
  of the messages the window let through, each once and in order, and the receiver's V(R)
  ends at the sender's V(S).
\<close>

theorem x75_end_to_end:
  assumes "osmo_mem L" and "headlen_passes L"
    and "x75_inv L True a" and "\<not> kick_blocked a"
    and "listening b" and "mode b = peer_mode (mode a)" and "vs b = vr a"
    and "vr b = (va a + length (aq L a)) mod modulus a"
    and "k = min (length (wq L a)) (unat (window a) - length (aq L a))"
  shows "\<exists>a' frames. x75_kick L a = Inr a' \<and> dev a' = foldl (x75_tx a) (dev a) frames \<and> frames \<noteq> [] \<and>
    (\<forall>rs. map (msgb_data L) rs = map (msgb_data L) frames \<longrightarrow> (\<forall>m \<in> set rs. roomy L m) \<longrightarrow>
      (\<exists>b' ms. x75_inputs L stack rs b = Inr b' \<and> dev b' = foldl (x75_ind b) (dev b) ms \<and>
        map (msgb_data L) ms = map (msgb_data L) (take k (wq L a)) \<and> vr b' = vs a'))"
proof -
  have m: "modulus b = modulus a"
    using assms(6) peer_mode_bits(1) by (simp add: modulus_def)
  from osmo_mem.kick_sends [OF assms(1,3,4,9)] obtain a' frames where pos: "0 < k" and
    a': "x75_kick L a = Inr a'" "dev a' = foldl (x75_tx a) (dev a) frames"
    "map (msgb_data L) frames = iframes (mode a) (vr a) (modulus a)
      ((va a + length (aq L a)) mod modulus a) (map (msgb_data L) (take k (wq L a)))"
    and vs: "vs a' = (va a + length (aq L a) + k) mod modulus a"
    by (elim exE conjE) (rule that)
  let ?ps = "map (msgb_data L) (take k (wq L a))"
  have n: "length ?ps = k" using assms(9) by simp
  have "\<exists>b' ms. x75_inputs L stack rs b = Inr b' \<and> dev b' = foldl (x75_ind b) (dev b) ms \<and>
      map (msgb_data L) ms = ?ps \<and> vr b' = vs a'"
    if rs: "map (msgb_data L) rs = map (msgb_data L) frames" "\<forall>m \<in> set rs. roomy L m" for rs
  proof -
    have "map (msgb_data L) rs = iframes (mode a) (vs b) (modulus b) (vr b) ?ps"
      using rs(1) a'(3) assms(7,8) m by simp
    from osmo_lib.receive_iframes [OF osmo_mem_lib [OF assms(1)] assms(5,6,2) rs(2) this, of stack]
    show ?thesis
      using vs m n assms(8) by (auto simp: mod_simps)
  qed
  moreover have "frames \<noteq> []"
  proof
    assume "frames = []"
    with a'(3) have "?ps = []"
      by (cases ?ps) auto
    with n pos show False by simp
  qed
  ultimately show ?thesis
    using a'(1,2) by blast
qed

theorem x75_end_to_end_witness:
  "\<exists>a' b' frames. x75_kick list_osmo (lab_loaded X75_STANDARD) = Inr a' \<and>
     x75_inputs list_osmo lab_frame (map (\<lambda>m. lab_msg (msgb_data list_osmo m)) frames)
       ((lab_station X75_DCE X75_STATE_3)\<lparr>va := 3, vs := 3, vr := 0\<rparr>) = Inr b' \<and>
     lab_rx (dev b') = [[11], [12]] \<and> vr b' = vs a'"
proof -
  let ?a = "lab_loaded X75_STANDARD" and ?b = "(lab_station X75_DCE X75_STATE_3)\<lparr>va := 3, vs := 3, vr := 0\<rparr>"
  have k: "2 = min (length (wq list_osmo ?a)) (unat (window ?a) - length (aq list_osmo ?a))"
    by code_simp
  have h: "headlen_passes list_osmo" by (simp add: headlen_passes_def list_osmo_def)
  have c: "\<not> kick_blocked ?a" "listening ?b" "mode ?b = peer_mode (mode ?a)" "vs ?b = vr ?a"
    "vr ?b = (va ?a + length (aq list_osmo ?a)) mod modulus ?a"
    "map (msgb_data list_osmo) (take 2 (wq list_osmo ?a)) = [[11], [12]]"
    by code_simp+
  have t: "callbacks ?b = lab_callbacks" "lab_rx (dev ?b) = []" by (simp_all add: lab_simps)
  from x75_end_to_end [OF lo.osmo_mem_axioms h lab_loaded_inv c(1-5) k, of lab_frame]
  obtain a' frames where a: "x75_kick list_osmo ?a = Inr a'"
    and r: "\<forall>rs. map (msgb_data list_osmo) rs = map (msgb_data list_osmo) frames \<longrightarrow>
      (\<forall>m \<in> set rs. roomy list_osmo m) \<longrightarrow>
      (\<exists>b' ms. x75_inputs list_osmo lab_frame rs ?b = Inr b' \<and> dev b' = foldl (x75_ind ?b) (dev ?b) ms \<and>
        map (msgb_data list_osmo) ms = map (msgb_data list_osmo) (take 2 (wq list_osmo ?a)) \<and> vr b' = vs a')"
    by (elim exE conjE) (rule that)
  have "map (msgb_data list_osmo) (map (\<lambda>m. lab_msg (msgb_data list_osmo m)) frames) = map (msgb_data list_osmo) frames"
    "\<forall>m \<in> set (map (\<lambda>m. lab_msg (msgb_data list_osmo m)) frames). roomy list_osmo m"
    by (simp_all add: lab_msg_def list_osmo_def roomy_def)
  from r [THEN spec, THEN mp, OF this(1), THEN mp, OF this(2)]
  obtain b' ms where b: "x75_inputs list_osmo lab_frame (map (\<lambda>m. lab_msg (msgb_data list_osmo m)) frames) ?b = Inr b'"
    "vr b' = vs a'" and d: "dev b' = foldl (x75_ind ?b) (dev ?b) ms"
      "map (msgb_data list_osmo) ms = map (msgb_data list_osmo) (take 2 (wq list_osmo ?a))"
    by (elim exE conjE) (rule that)
  have "lab_rx (dev b') = [[11], [12]]"
    unfolding d(1) lab_rx_frames [OF t(1)] d(2) c(6) t(2) by simp
  with a b show ?thesis by blast
qed

end
