(* ===== verification/X75_Link.thy ===== *)
theory X75_Link
  imports X75_Receive
begin

text \<open>
  Link management: the state table, giving up on a silent peer, and the parameters.
\<close>

section \<open>The state table\<close>

text \<open>The state after a received frame.\<close>

definition x75_next :: "('d, 'm, 'q, 't) x75_cb \<Rightarrow> x75_frame \<Rightarrow> x75_state" where
  "x75_next x frame =
     (let t = f_type frame; final = f_pf frame \<noteq> 0;
          opens = (if extended x then t = X75_SABME else t = X75_SABM)
      in case state x of
           X75_STATE_0 \<Rightarrow> if opens then X75_STATE_3 else X75_STATE_0
         | X75_STATE_1 \<Rightarrow>
             if t = X75_UA \<and> final then X75_STATE_3
             else if t = X75_DM \<and> final then X75_STATE_0 else X75_STATE_1
         | X75_STATE_2 \<Rightarrow> if (t = X75_UA \<or> t = X75_DM) \<and> final then X75_STATE_0 else X75_STATE_2
         | X75_STATE_3 \<Rightarrow>
             if t = X75_DISC \<or> t = X75_DM then X75_STATE_0
             else if t = X75_FRMR then X75_STATE_1
             else if t \<in> {X75_I, X75_RR, X75_RNR, X75_REJ} \<and> \<not> nr_valid x (f_nr frame)
             then X75_STATE_4 else X75_STATE_3
         | X75_STATE_4 \<Rightarrow> if opens then X75_STATE_3 else X75_STATE_4)"

lemma state_timers [simp]:
  "state (x75_start_t1timer L x) = state x" "state (x75_start_t2timer L x) = state x"
  "state (x75_stop_t1timer L x) = state x" "state (x75_stop_t2timer L x) = state x"
  "state (x75_clear_queues L x) = state x" "state (x75_reset_link x) = state x"
  "state (x75_connect_confirmation r x) = state x" "state (x75_connect_indication r x) = state x"
  "state (x75_disconnect_confirmation r x) = state x" "state (x75_disconnect_indication r x) = state x"
  "state (snd (x75_data_indication m x)) = state x"
  by (simp_all add: x75_start_t1timer_def x75_start_t2timer_def x75_stop_t1timer_def
      x75_stop_t2timer_def x75_clear_queues_def x75_reset_link_def x75_connect_confirmation_def
      x75_connect_indication_def x75_disconnect_confirmation_def x75_disconnect_indication_def
      snd_data_indication_eq Let_def)

lemma kick_rel_same:
  "kick_rel L x y \<Longrightarrow> state y = state x \<and> n2 y = n2 x \<and> n2count y = n2count x \<and>
     mode y = mode x \<and> callbacks y = callbacks x"
  by (auto simp: kick_rel_def kick_result_def split: if_splits)

context osmo_lib
begin

lemma frame_reject_state: "ends E (\<lambda>y. state y = X75_STATE_4) (x75_frame_reject L frame reason x)"
  by (simp add: x75_frame_reject_def) (rule wp, simp)

lemma accept_connection_state: "ends E (\<lambda>y. state y = X75_STATE_3) (x75_accept_connection L pf x)"
  by (simp add: x75_accept_connection_def) (rule wp, simp_all)

lemma check_iframes_state:
  "x75_inv L False x \<Longrightarrow> nr < modulus x \<Longrightarrow> nr_valid x nr \<Longrightarrow>
   ends E (\<lambda>y. state y = state x) (x75_check_iframes_acked L nr x)"
  by (auto simp: x75_check_iframes_acked_def intro!: wp_frames_acked)

lemma accept_state: "ends E (\<lambda>y. state y = state x) (x75_state3_accept L m frame x)"
  by (auto simp: x75_state3_accept_def intro!: wp_send_control enquiry_wp)

lemma state3_supervisory_state:
  assumes "x75_inv L False x" and "f_nr frame < modulus x" and "state x = X75_STATE_3"
  shows "ends E (\<lambda>y. state y = (if nr_valid x (f_nr frame) then X75_STATE_3 else X75_STATE_4))
      (x75_state3_rr L busy frame x)"
    and "ends E (\<lambda>y. state y = (if nr_valid x (f_nr frame) then X75_STATE_3 else X75_STATE_4))
      (x75_state3_rej L frame x)"
    and "ends E (\<lambda>y. state y = (if nr_valid x (f_nr frame) then X75_STATE_3 else X75_STATE_4))
      (x75_state3_i L m frame x)"
  using assms
  by (auto simp: x75_state3_rr_def x75_state3_rej_def x75_state3_i_def validate_nr_inv [of L False]
      intro!: need_response_wp wp_frames_acked wp_requeue [where b = False] x75_inv_queues
        ends_mono [OF frame_reject_state] ends_mono [OF check_iframes_state] ends_mono [OF accept_state])

lemma machine_state:
  assumes inv: "x75_inv L False x" and f: "frame_ok x frame"
  shows "ends E (\<lambda>y. state y = x75_next x frame) (x75_machine L m frame x)"
proof (cases "state x")
  case X75_STATE_0
  then show ?thesis
    by (auto simp: x75_machine_def x75_state0_machine_def x75_next_def Let_def
        intro!: wp_send_control accept_connection_state)
next
  case X75_STATE_1
  then show ?thesis
    by (auto simp: x75_machine_def x75_state1_machine_def x75_next_def Let_def intro!: wp_send_control)
next
  case X75_STATE_2
  then show ?thesis
    by (auto simp: x75_machine_def x75_state2_machine_def x75_next_def Let_def intro!: wp_send_control)
next
  case X75_STATE_4
  then show ?thesis
    by (auto simp: x75_machine_def x75_state4_machine_def x75_next_def Let_def
        intro!: wp_send_control accept_connection_state)
next
  case X75_STATE_3
  have nr: "f_nr frame < modulus x" if "f_type frame \<in> {X75_I, X75_RR, X75_RNR, X75_REJ}"
    using f that by (auto simp: frame_ok_def)
  have "f_type frame \<noteq> X75_ILLEGAL" using f by (simp add: frame_ok_def)
  with X75_STATE_3 show ?thesis
    using inv nr state3_supervisory_state [OF inv _ X75_STATE_3, of frame E]
    by (auto simp: x75_machine_def x75_state3_machine_def x75_next_def x75_state3_reset_def
        x75_establish_data_link_def x75_inv_queues reset_link_queues Let_def
        intro!: wp_send_control wp_requeue [where b = False])
qed

lemma input_state:
  assumes "x75_inv L False x" and "faults_for L False E" and "x75_decode L x m stack = Some (m', frame)"
  shows "ends E (\<lambda>y. state y = x75_next x frame) (x75_data_input L stack m x)"
proof -
  have f: "frame_ok x frame" by (rule decode_ok [OF assms(3)])
  have "ends (E \<inter> E) (\<lambda>y. x75_inv L False y \<and> state y = x75_next x frame) (x75_machine L m' frame x)"
    by (intro ends_conj machine_inv machine_state assms f) simp
  then have "ends E (\<lambda>y. ends E (\<lambda>z. state z = x75_next x frame) (x75_kick L y)) (x75_machine L m' frame x)"
    by (rule ends_mono) (auto intro!: wp_kick assms(2) dest!: kick_rel_same)
  with assms(3) show ?thesis by (simp add: x75_data_input_def)
qed

end

text \<open>
  C12: the state table. In every reachable state and for every frame the parser lets
  through, the state after \<open>x75_data_input\<close> is the one of the table \<open>x75_next\<close>: links open
  with the mode's SABM or SABME, close on DISC and DM, a final UA or DM answers a pending
  request, an unacceptable N(R) leads to frame reject, FRMR to re-establishment.
\<close>

theorem x75_state_table:
  assumes "osmo_lib L" and "x75_inv L False x" and "x75_decode L x m stack = Some (m', frame)"
  shows "ends {NullDeref, ExitFailure} (\<lambda>y. state y = x75_next x frame) (x75_data_input L stack m x)"
  using assms by (intro osmo_lib.input_state) (auto simp: faults_for_def copy_or_exit_def)

theorem x75_state_table_witness:
  "ends {NullDeref, ExitFailure} (\<lambda>y. state y = X75_STATE_3)
     (x75_data_input list_osmo lab_frame (lab_msg [3, 0x3F]) (lab_station X75_STANDARD X75_STATE_0))"
proof -
  let ?x = "lab_station X75_STANDARD X75_STATE_0"
  have d: "x75_decode list_osmo ?x (lab_msg [3, 0x3F]) lab_frame
     = Some (\<lparr>buf_head = 10, buf_data = [], buf_tail = 0\<rparr>,
         lab_frame\<lparr>f_type := X75_SABM, f_cr := 1, f_pf := 0x10, f_control0 := 0x3F\<rparr>)"
    by code_simp
  have n: "x75_next ?x (lab_frame\<lparr>f_type := X75_SABM, f_cr := 1, f_pf := 0x10, f_control0 := 0x3F\<rparr>)
      = X75_STATE_3"
    by (simp add: x75_next_def lab_station_def)
  have i: "x75_inv list_osmo False ?x" using lab_inv by (simp add: x75_inv_def queues_inv_def)
  from x75_state_table [OF lo.osmo_lib_axioms i d] show ?thesis unfolding n .
qed

section \<open>A silent peer\<close>

text \<open>T1 expires \<open>n\<close> times in a row.\<close>

primrec x75_t1s :: "('m, 'q, 't) osmo_api \<Rightarrow> nat \<Rightarrow> ('d, 'm, 'q, 't) x75_cb
    \<Rightarrow> fault + ('d, 'm, 'q, 't) x75_cb" where
  "x75_t1s L 0 x = Inr x"
| "x75_t1s L (Suc n) x =
     (case x75_t1timer_due L x of Inl e \<Rightarrow> Inl e | Inr y \<Rightarrow> x75_t1s L n y)"

text \<open>Waiting for an answer with T1 armed.\<close>

definition waiting :: "('m, 'q, 't) osmo_api \<Rightarrow> ('d, 'm, 'q, 't) x75_cb \<Rightarrow> bool" where
  "waiting L x \<longleftrightarrow> x75_inv L True x \<and> state x \<noteq> X75_STATE_0 \<and> t1timer_running x \<and>
     timer_cb L (t1timer x) = Some X75_t1timer_expiry"

text \<open>The request that sets up a link.\<close>

definition set_mode :: "('d, 'm, 'q, 't) x75_cb \<Rightarrow> u16" where
  "set_mode x = (if extended x then X75_SABME else X75_SABM)"

text \<open>
  The contents of the frames that a retry sends: the request again, or, in data transfer, unless
  the peer is busy, as many I-frames as the window allows, numbered from V(A), of the messages that
  wait and the unacknowledged ones behind them, or the frame reject again.
\<close>

definition retry_frames :: "('m, 'q, 't) osmo_api \<Rightarrow> ('d, 'm, 'q, 't) x75_cb \<Rightarrow> byte list list" where
  "retry_frames L x =
     (case state x of
        X75_STATE_0 \<Rightarrow> []
      | X75_STATE_1 \<Rightarrow> [x75_addr (mode x) X75_COMMAND # x75_ctl (mode x) (vr x) (set_mode x) X75_POLLON]
      | X75_STATE_2 \<Rightarrow> [x75_addr (mode x) X75_COMMAND # x75_ctl (mode x) (vr x) X75_DISC X75_POLLON]
      | X75_STATE_3 \<Rightarrow>
          if cond X75_PEER_RX_BUSY_CONDITION x then []
          else iframes (mode x) (vr x) (modulus x) (va x)
                 (map (msgb_data L) (take (unat (window x)) (wq L x @ aq L x)))
      | X75_STATE_4 \<Rightarrow> [x75_addr (mode x) X75_RESPONSE # x75_frmr x])"

text \<open>From \<open>x\<close> to \<open>y\<close> exactly frames of these contents were put on the line.\<close>

definition line_sent :: "('m, 'q, 't) osmo_api \<Rightarrow> byte list list \<Rightarrow> ('d, 'm, 'q, 't) x75_cb \<Rightarrow> ('d, 'm, 'q, 't) x75_cb \<Rightarrow> bool" where
  "line_sent L fs x y \<longleftrightarrow> (\<exists>frames. dev y = foldl (x75_tx x) (dev x) frames \<and> map (msgb_data L) frames = fs)"

lemma line_sent_one: "dev y = x75_tx x (dev x) m \<Longrightarrow> line_sent L [msgb_data L m] x y"
  unfolding line_sent_def by (intro exI [of _ "[m]"]) simp

context osmo_mem
begin

lemma control_sent:
  assumes "type = X75_COMMAND \<or> type = X75_RESPONSE"
  obtains m where "x75_send_control L t poll type x = Inr (x\<lparr>dev := x75_tx x (dev x) m\<rparr>)"
    and "msgb_data L m = x75_addr (mode x) type # x75_ctl (mode x) (vr x) t poll"
  using send_control [OF assms, of t poll x] alloc_some [of 23] by (metis option.distinct(1))

lemma requeue_kick:
  assumes inv: "x75_inv L True x"
  shows "\<exists>z y. x75_requeue_frames L x = Inr z \<and> x75_kick L z = Inr y \<and>
    line_sent L (if cond X75_PEER_RX_BUSY_CONDITION x then []
      else iframes (mode x) (vr x) (modulus x) (va x) (map (msgb_data L) (take (unat (window x)) (wq L x @ aq L x)))) x y"
proof -
  obtain q1 q2 c2 where r: "x75_requeue_frames L x = Inr (x\<lparr>write_queue := q1,
       write_queue_count := write_queue_count x + length (aq L x), ack_queue := q2, ack_queue_count := c2\<rparr>)"
    and q: "msgb_queue L q1 = wq L x @ aq L x" "msgb_queue L q2 = []"
    and c: "ack_queue_count x = length (aq L x) \<longrightarrow> c2 = 0"
    by (rule requeue_frames [of x]) (rule that)
  define z where "z = x\<lparr>write_queue := q1,
       write_queue_count := write_queue_count x + length (aq L x), ack_queue := q2, ack_queue_count := c2\<rparr>"
  have z: "x75_inv L True z" "wq L z = wq L x @ aq L x" "aq L z = []" "mode z = mode x" "vr z = vr x" "va z = va x"
    "modulus z = modulus x" "window z = window x" "dev z = dev x" "callbacks z = callbacks x"
    "cond X75_PEER_RX_BUSY_CONDITION z = cond X75_PEER_RX_BUSY_CONDITION x"
    "write_queue_count z = length (wq L x @ aq L x)"
    using inv q c by (auto simp: z_def inv_defs)
  have tx: "x75_tx z = x75_tx x"
    using z(10) by (simp add: x75_tx_def fun_eq_iff)
  have "\<exists>y. x75_kick L z = Inr y \<and> line_sent L (if cond X75_PEER_RX_BUSY_CONDITION x then []
      else iframes (mode x) (vr x) (modulus x) (va x) (map (msgb_data L) (take (unat (window x)) (wq L x @ aq L x)))) x y"
  proof (cases "kick_blocked z")
    case True
    have va: "va z < modulus z" using z(1) by (simp add: inv_defs)
    have "kick_start z \<noteq> kick_end z"
      using kick_window [OF z(1)] z(1,3,8) va by (auto simp: inv_defs)
    then have "cond X75_PEER_RX_BUSY_CONDITION x \<or> wq L x @ aq L x = []"
      using True z(11,12) by (auto simp: kick_blocked_def)
    then show ?thesis
      using True z(9) by (auto simp: kick_idle line_sent_def)
  next
    case False
    then have nb: "\<not> cond X75_PEER_RX_BUSY_CONDITION x" using z(11) by (simp add: kick_blocked_def)
    have va: "va x < modulus x" using inv by (simp add: inv_defs)
    from kick_sends [OF z(1) False refl] obtain y frames where "x75_kick L z = Inr y"
      "dev y = foldl (x75_tx z) (dev z) frames"
      "map (msgb_data L) frames = iframes (mode z) (vr z) (modulus z) (va z mod modulus z)
        (map (msgb_data L) (take (min (length (wq L z)) (unat (window z))) (wq L z)))"
      unfolding z(3) by auto
    moreover have "take (min (length (wq L z)) (unat (window z))) (wq L z) = take (unat (window x)) (wq L x @ aq L x)"
      unfolding z(2,8) by (simp add: min_def)
    ultimately show ?thesis
      using nb va unfolding line_sent_def by (auto simp: tx z(4-9) simp del: take_append)
  qed
  with r show ?thesis unfolding z_def by blast
qed

lemma t1_resends:
  assumes w: "waiting L x" and n: "n2count x \<noteq> n2 x" and y: "x75_t1timer_due L x = Inr y"
  shows "line_sent L (retry_frames L x) x y"
proof -
  let ?x = "x\<lparr>t1timer := timer_expire L (t1timer x), n2count := n2count x + 1\<rparr>"
  have inv: "x75_inv L True ?x" and x: "t1timer_running ?x" "\<not> timer_pending L (t1timer ?x)"
    "state x \<noteq> X75_STATE_0"
    using w pending_expire by (simp_all add: waiting_def)
  have r: "x75_t1timer_due L x = x75_t1timer_expiry L (x\<lparr>t1timer := timer_expire L (t1timer x)\<rparr>)"
    using w by (simp add: x75_t1timer_due_def x75_timer_call_def waiting_def)
  have tx: "x75_tx ?x = x75_tx x" by (simp add: x75_tx_def fun_eq_iff)
  have ctl: "line_sent L [x75_addr (mode x) X75_COMMAND # x75_ctl (mode x) (vr x) t X75_POLLON] x y"
    if "seqs [x75_send_control L t X75_POLLON X75_COMMAND, upd (x75_start_t1timer L)] ?x = Inr y" for t
  proof -
    obtain m where "x75_send_control L t X75_POLLON X75_COMMAND ?x = Inr (?x\<lparr>dev := x75_tx ?x (dev ?x) m\<rparr>)"
      and d: "msgb_data L m = x75_addr (mode ?x) X75_COMMAND # x75_ctl (mode ?x) (vr ?x) t X75_POLLON"
      by (rule control_sent [of X75_COMMAND]) simp
    with that have "dev y = x75_tx x (dev x) m"
      by (auto simp: seqs.simps tx x75_start_t1timer_def)
    from line_sent_one [OF this, of L] d show ?thesis by simp
  qed
  show ?thesis
  proof (cases "state x")
    case X75_STATE_3
    have f: "retry_frames L x = (if cond X75_PEER_RX_BUSY_CONDITION ?x then []
        else iframes (mode ?x) (vr ?x) (modulus ?x) (va ?x)
          (map (msgb_data L) (take (unat (window ?x)) (wq L ?x @ aq L ?x))))"
      using X75_STATE_3 by (simp add: retry_frames_def)
    obtain z u where "x75_requeue_frames L ?x = Inr z" "x75_kick L z = Inr u"
      and s: "line_sent L (retry_frames L x) ?x u"
      unfolding f using requeue_kick [OF inv] by blast
    then have "dev y = dev u"
      using y n x X75_STATE_3 unfolding r by (auto simp: x75_t1timer_expiry_def seqs.simps x75_start_t1timer_def)
    with s show ?thesis by (simp add: line_sent_def tx)
  next
    case X75_STATE_4
    obtain m where "x75_transmit_frmr L ?x = Inr (?x\<lparr>dev := x75_tx ?x (dev ?x) m\<rparr>)"
      and d: "msgb_data L m = x75_addr (mode ?x) X75_RESPONSE # x75_frmr ?x"
      using transmit_frmr [of ?x] alloc_some [of 27] by (metis option.distinct(1))
    then have "dev y = x75_tx x (dev x) m"
      using y n x X75_STATE_4 unfolding r by (auto simp: x75_t1timer_expiry_def seqs.simps tx x75_start_t1timer_def)
    moreover have "x75_frmr ?x = x75_frmr x" by (simp add: x75_frmr_def)
    ultimately show ?thesis
      using line_sent_one [of y x m L] d X75_STATE_4 by (simp add: retry_frames_def)
  next
    case X75_STATE_1
    with y n x ctl [of "set_mode x"] show ?thesis
      unfolding r by (simp add: x75_t1timer_expiry_def retry_frames_def set_mode_def seqs.simps split: if_splits)
  next
    case X75_STATE_2
    with y n x ctl [of X75_DISC] show ?thesis
      unfolding r by (simp add: x75_t1timer_expiry_def retry_frames_def seqs.simps)
  qed (use x in simp)
qed

lemma t1_started:
  "t1timer_running (x75_start_t1timer L x)"
  "timer_cb L (t1timer (x75_start_t1timer L x)) = Some X75_t1timer_expiry"
  "n2 (x75_start_t1timer L x) = n2 x" "n2count (x75_start_t1timer L x) = n2count x"
  by (simp_all add: x75_start_t1timer_def timer_simps)

lemma t1_retry:
  assumes w: "waiting L x" and n: "n2count x \<noteq> n2 x"
  shows "ends {} (\<lambda>y. waiting L y \<and> state y = state x \<and> n2 y = n2 x \<and> n2count y = n2count x + 1)
    (x75_t1timer_due L x)"
proof -
  let ?x = "x\<lparr>t1timer := timer_expire L (t1timer x), n2count := n2count x + 1\<rparr>"
  have inv: "x75_inv L True ?x" and x: "t1timer_running ?x" "\<not> timer_pending L (t1timer ?x)"
    "state x \<noteq> X75_STATE_0"
    using w pending_expire by (simp_all add: waiting_def)
  have r: "x75_t1timer_due L x = x75_t1timer_expiry L (x\<lparr>t1timer := timer_expire L (t1timer x)\<rparr>)"
    using w by (simp add: x75_t1timer_due_def x75_timer_call_def waiting_def)
  show ?thesis
    using x n inv no_faults unfolding r
    by (cases "state x")
       (auto simp: x75_t1timer_expiry_def x75_inv_queues waiting_def t1_started intro!: wp_send_control
         wp_transmit_frmr wp_requeue [where b = True] wp_kick [where b = True] dest!: kick_rel_same)
qed

lemma t1_give_up:
  assumes w: "waiting L x" and n: "n2count x = n2 x"
  shows "\<exists>y. x75_t1timer_due L x = Inr y \<and> state y = X75_STATE_0 \<and> \<not> t1timer_running y \<and>
    dev y = dev (if state x = X75_STATE_2 then x75_disconnect_confirmation X75_TIMEDOUT x
                 else x75_disconnect_indication X75_TIMEDOUT x) \<and> quiet L y"
proof -
  have x: "t1timer_running x" "\<not> timer_pending L (timer_expire L (t1timer x))" "state x \<noteq> X75_STATE_0"
    "timer_cb L (t1timer x) = Some X75_t1timer_expiry"
    using w pending_expire by (simp_all add: waiting_def)
  then show ?thesis
    using n
    by (cases "state x")
       (auto simp: x75_t1timer_due_def x75_timer_call_def x75_t1timer_expiry_def x75_t1_give_up_def
         x75_clear_queues_def x75_disconnect_confirmation_def x75_disconnect_indication_def
         x75_stop_t2timer_def quiet_def queue_free split: option.split)
qed

lemma t1_runs:
  assumes "waiting L x" and "k \<le> unat (n2 x - n2count x)"
  shows "\<exists>y. x75_t1s L k x = Inr y \<and> waiting L y \<and> state y = state x \<and> n2 y = n2 x \<and>
    n2count y = n2count x + of_nat k"
  using assms
proof (induction k arbitrary: x)
  case (Suc k)
  have ne: "n2count x \<noteq> n2 x" using Suc.prems(2) by auto
  from t1_retry [OF Suc.prems(1) ne] obtain y where
    y: "x75_t1timer_due L x = Inr y" "waiting L y" "state y = state x" "n2 y = n2 x"
      "n2count y = n2count x + 1"
    by (auto simp: ends_total)
  have "n2 x - n2count x \<noteq> 0" using ne by simp
  then have "unat (n2 x - n2count x - 1) = unat (n2 x - n2count x) - 1"
    by (simp add: unat_minus_one)
  then have "k \<le> unat (n2 y - n2count y)"
    using Suc.prems(2) y by (simp add: diff_diff_eq)
  from Suc.IH [OF y(2) this] show ?case using y by (auto simp: ac_simps)
qed simp

end



section \<open>Parameters\<close>

lemma u32_bounds: "\<not> p < 1 \<longleftrightarrow> 1 \<le> unat p" "\<not> 127 < p \<longleftrightarrow> unat p \<le> 127" "\<not> 7 < p \<longleftrightarrow> unat p \<le> 7"
  for p :: u32
  by (simp_all add: word_less_nat_alt not_less Suc_le_eq)

lemma unat_ucast_u32:
  "unat (ucast p :: u16) = unat p mod 65536" "unat (ucast p :: byte) = unat p mod 256" for p :: u32
  by (simp_all add: unsigned_ucast_eq unsigned_take_bit_eq take_bit_eq_mod)

lemma seconds_fit:
  fixes p :: u32
  assumes "unat p \<le> 65"
  shows "unat (ucast (p * 1000) :: u16) div 1000 = unat p"
proof -
  have "unat (p * 1000) = unat p * 1000 mod 2 ^ 32"
    by (simp add: unat_word_ariths)
  also have "\<dots> = unat p * 1000" using assms by simp
  finally show ?thesis using assms by (simp add: unat_ucast_u32)
qed

lemma unat_ucast_up: "unat (ucast v :: u32) = unat v" "unat (ucast b :: u32) = unat b"
  for v :: u16 and b :: byte
proof -
  have "unat v < 2 ^ LENGTH(16)" "unat b < 2 ^ LENGTH(8)" by (rule unsigned_less)+
  then show "unat (ucast v :: u32) = unat v" "unat (ucast b :: u32) = unat b"
    by (simp_all add: unsigned_ucast_eq take_bit_eq_mod)
qed

lemma ucast_u32_eq: "unat v = unat p \<Longrightarrow> ucast v = p" for v :: u16 and p :: u32
  by (simp add: word_unat_eq_iff unat_ucast_up)

lemma ucast_byte_eq: "unat p \<le> 127 \<Longrightarrow> ucast (ucast p :: byte) = p" for p :: u32
  by (simp add: word_unat_eq_iff unat_ucast_up unat_ucast_u32 del: unsigned_ucast_eq)

text \<open>
  \<open>x75_setparms\<close> either rejects the parameters and changes nothing, or accepts them; in
  the disconnected state an accepted window is at least 1 and below the modulus of the
  accepted mode, and in every other state mode and window are left alone.
\<close>

theorem x75_setparms_checked:
  "x75_setparms parms x = (rc, y) \<Longrightarrow>
     (rc = X75_INVALUE \<and> y = x) \<or>
     (rc = X75_OK \<and> p_t1 parms \<noteq> 0 \<and> p_t2 parms \<noteq> 0 \<and> p_n2 parms \<noteq> 0 \<and>
      (if state x = X75_STATE_0
       then mode y = p_mode parms \<and> 0 < unat (window y) \<and> unat (window y) < modulus y
       else mode y = mode x \<and> window y = window x))"
  by (auto simp: x75_setparms_def modulus_def Let_def u32_bounds unat_ucast_u32
      word_less_nat_alt not_less Suc_le_eq split: if_splits)

theorem x75_setparms_checked_witness:
  "x75_setparms \<lparr>p_t1 = 3, p_t1timer = 0, p_t2 = 1, p_t2timer = 0, p_n2 = 10, p_n2count = 0,
       p_window = 200, p_state = X75_STATE_0, p_mode = X75_EXTENDED\<rparr> (lab_station X75_STANDARD X75_STATE_0)
     = (X75_INVALUE, lab_station X75_STANDARD X75_STATE_0)"
proof -
  let ?p = "\<lparr>p_t1 = 3, p_t1timer = 0, p_t2 = 1, p_t2timer = 0, p_n2 = 10, p_n2count = 0,
       p_window = 200, p_state = X75_STATE_0, p_mode = X75_EXTENDED\<rparr>"
  obtain rc y where r: "x75_setparms ?p (lab_station X75_STANDARD X75_STATE_0) = (rc, y)"
    by (cases "x75_setparms ?p (lab_station X75_STANDARD X75_STATE_0)")
  then have "rc = X75_INVALUE" by (simp add: x75_setparms_def lab_station_def)
  with x75_setparms_checked [OF r] r show ?thesis by simp
qed

text \<open>
  Parameters read back. In the disconnected state, parameters within the documented
  bounds (times up to 65 seconds, the largest that fit the 16-bit millisecond fields) are
  accepted, and \<open>x75_getparms\<close> then returns the same times, retry limit, window and mode.
\<close>

theorem x75_parms_roundtrip:
  assumes "state x = X75_STATE_0"
    and "1 \<le> unat (p_t1 parms)" "unat (p_t1 parms) \<le> 65"
    and "1 \<le> unat (p_t2 parms)" "unat (p_t2 parms) \<le> 65"
    and "1 \<le> unat (p_n2 parms)" "unat (p_n2 parms) < 65536"
    and "1 \<le> unat (p_window parms)"
    and "unat (p_window parms) \<le> (if p_mode parms AND X75_EXTENDED \<noteq> 0 then 127 else 7)"
  shows "\<exists>y q. x75_setparms parms x = (X75_OK, y) \<and> x75_getparms L y = (X75_OK, q) \<and>
    p_t1 q = p_t1 parms \<and> p_t2 q = p_t2 parms \<and> p_n2 q = p_n2 parms \<and>
    p_window q = p_window parms \<and> p_mode q = p_mode parms \<and> p_state q = X75_STATE_0"
proof -
  let ?y = "x\<lparr>mode := p_mode parms, window := ucast (p_window parms),
    t1 := ucast (p_t1 parms * 1000), t2 := ucast (p_t2 parms * 1000), n2 := ucast (p_n2 parms)\<rparr>"
  have lo: "\<not> p_t1 parms < 1" "\<not> p_t2 parms < 1" "\<not> p_n2 parms < 1" "\<not> p_window parms < 1"
    using assms(2,4,6,8) u32_bounds(1) by blast+
  have w: "if p_mode parms AND X75_EXTENDED \<noteq> 0 then \<not> 127 < p_window parms else \<not> 7 < p_window parms"
    using assms(9) u32_bounds(2,3) by auto
  have "x75_setparms parms x = (X75_OK, ?y)"
    using lo w assms(1) by (auto simp: x75_setparms_def Let_def)
  moreover have "ucast (ucast (p_window parms) :: byte) = p_window parms"
    using assms(9) by (intro ucast_byte_eq) (auto split: if_splits)
  moreover have "ucast (ucast (p_n2 parms) :: u16) = p_n2 parms"
    using assms(7) by (intro ucast_u32_eq) (simp add: unat_ucast_u32)
  ultimately show ?thesis
    using assms(1) seconds_fit [OF assms(3)] seconds_fit [OF assms(5)]
    by (simp add: x75_getparms_def)
qed

theorem x75_parms_roundtrip_witness:
  "\<exists>y q. x75_setparms \<lparr>p_t1 = 3, p_t1timer = 0, p_t2 = 1, p_t2timer = 0, p_n2 = 10, p_n2count = 0,
       p_window = 7, p_state = X75_STATE_0, p_mode = X75_STANDARD\<rparr> (lab_station X75_STANDARD X75_STATE_0)
     = (X75_OK, y) \<and> x75_getparms list_osmo y = (X75_OK, q) \<and> p_t1 q = 3 \<and> p_n2 q = 10 \<and> p_window q = 7"
proof -
  let ?p = "\<lparr>p_t1 = 3, p_t1timer = 0, p_t2 = 1, p_t2timer = 0, p_n2 = 10, p_n2count = 0,
       p_window = 7, p_state = X75_STATE_0, p_mode = X75_STANDARD\<rparr>"
  have "state (lab_station X75_STANDARD X75_STATE_0) = X75_STATE_0" by (simp add: lab_station_def)
  then show ?thesis
    using x75_parms_roundtrip [of "lab_station X75_STANDARD X75_STATE_0" ?p list_osmo] by fastforce
qed

end
