(* ===== verification/X75_Issues.thy ===== *)
theory X75_Issues
  imports X75_Link
begin

text \<open>
  Where the link layer departs from the protocol it implements, as theorems about the
  model: the T2 timer, stale queue counters, and the order of retransmissions.
\<close>

text \<open>
  Starting T2 sets up the wrong timer. \<open>x75_start_t2timer\<close> replaces the call-back of the
  T1 timer by the T2 expiry routine and leaves the T2 timer, which it schedules, with
  the call-back it had; after \<open>x75_register\<close> that is none, so when T2 is due no
  acknowledgement is sent.
\<close>

theorem x75_t2_misrouted:
  assumes "osmo_lib L"
  shows "timer_cb L (t1timer (x75_start_t2timer L x)) = Some X75_t2timer_expiry \<and>
    timer_cb L (t2timer (x75_start_t2timer L x)) = timer_cb L (t2timer x) \<and>
    timer_pending L (t2timer (x75_start_t2timer L x)) \<and>
    timer_cb L (t2timer (snd (x75_register L cbs x))) = None \<and>
    (timer_cb L (t2timer x) = None \<longrightarrow>
       x75_t2timer_due L x = Inr (x\<lparr>t2timer := timer_expire L (t2timer x)\<rparr>))"
proof -
  have t: "timer_lib L" using assms by (rule osmo_lib.axioms(2))
  note simps = timer_lib.timer_simps [OF t]
  show ?thesis
    by (simp add: x75_start_t2timer_def x75_register_def x75_start_t1timer_def x75_t2timer_due_def
        x75_timer_call_def Let_def simps)
qed

theorem x75_t2_misrouted_witness:
  "timer_cb list_osmo (t1timer (x75_start_t2timer list_osmo (lab_station X75_STANDARD X75_STATE_3)))
     = Some X75_t2timer_expiry"
  using x75_t2_misrouted [OF lo.osmo_lib_axioms, of "lab_station X75_STANDARD X75_STATE_3" lab_callbacks]
  by blast

lemma decode_mode: "mode y = mode x \<Longrightarrow> x75_decode L y = x75_decode L x"
  by (simp add: x75_decode_def fun_eq_iff Let_def)

context osmo_mem
begin

text \<open>DISC in data transfer: disconnected, queues empty, counters as they were.\<close>

lemma disc_leaves_count:
  assumes "state x = X75_STATE_3" and "f_type frame = X75_DISC"
  obtains y where "x75_machine L m frame x = Inr y" and "state y = X75_STATE_0" and "mode y = mode x"
    and "window y = window x" and "wq L y = []" and "write_queue_count y = write_queue_count x"
proof -
  let ?q = "x75_clear_queues L x"
  obtain u where u: "x75_send_control L X75_UA (f_pf frame) X75_RESPONSE ?q = Inr (?q\<lparr>dev := x75_tx ?q (dev ?q) u\<rparr>)"
    by (rule control_sent [of X75_RESPONSE]) simp
  define y where "y = x75_disconnect_indication X75_OK ((x75_stop_t2timer L (x75_start_t1timer L
      (?q\<lparr>dev := x75_tx ?q (dev ?q) u\<rparr>)))\<lparr>state := X75_STATE_0\<rparr>)"
  have "x75_machine L m frame x = Inr y"
    using u assms by (simp add: y_def x75_machine_def x75_state3_machine_def seqs.simps)
  then show ?thesis
    by (rule that) (simp_all add: y_def x75_clear_queues_def x75_start_t1timer_def x75_stop_t2timer_def
        x75_disconnect_indication_def queue_free)
qed

text \<open>The request for a link on a control block with a stale counter.\<close>

lemma stale_request:
  assumes "state y = X75_STATE_0" and "f_type frame = set_mode y" and "wq L y = []" and "0 < write_queue_count y"
    and "0 < unat (window y)" and "unat (window y) < modulus y"
  shows "(case x75_machine L m frame y of Inl e \<Rightarrow> Inl e | Inr z \<Rightarrow> x75_kick L z) = Inl NullDeref"
proof -
  obtain u where u: "x75_send_control L X75_UA (f_pf frame) X75_RESPONSE y = Inr (y\<lparr>dev := x75_tx y (dev y) u\<rparr>)"
    by (rule control_sent [of X75_RESPONSE]) simp
  define z where "z = x75_connect_indication X75_OK (x75_reset_link ((x75_stop_t2timer L
      (x75_stop_t1timer L (y\<lparr>dev := x75_tx y (dev y) u\<rparr>)))\<lparr>state := X75_STATE_3\<rparr>))"
  have m: "x75_machine L m frame y = Inr z"
    using u assms(1,2)
    by (simp add: z_def x75_machine_def x75_state0_machine_def x75_accept_connection_def set_mode_def seqs.simps)
  have z: "wq L z = []" "write_queue_count z = write_queue_count y" "va z = 0" "vs z = 0" "window z = window y"
    "condition z = 0" "modulus z = modulus y"
    using assms(3) by (simp_all add: z_def x75_connect_indication_def x75_reset_link_def
        x75_stop_t1timer_def x75_stop_t2timer_def)
  then have "\<not> kick_blocked z"
    using assms(4-6) by (simp add: kick_blocked_def kick_start_def kick_end_def)
  then show ?thesis using m kick_stale z(1) by simp
qed

end

text \<open>
  C38: a peer can crash the process. \<open>x75_clear_queues\<close> frees the queues but leaves their
  counters. When a message waits to be sent on an established link, a DISC of the peer and then its
  request for a new link end the process on a null pointer: \<open>x75_kick\<close> believes the write queue
  is not empty, dequeues nothing, and passes the null message to \<open>msgb_copy\<close>. This is at the DISC already
  when the window is open and the peer not busy, and else at the request.
\<close>

theorem x75_stale_count_crash:
  assumes "osmo_mem L" and "x75_inv L True x" and "state x = X75_STATE_3" and "wq L x \<noteq> []"
    and "x75_decode L x d stack = Some (d', disc)" and "f_type disc = X75_DISC"
    and "x75_decode L x s stack = Some (s', sabm)" and "f_type sabm = set_mode x"
  shows "x75_inputs L stack [d, s] x = Inl NullDeref"
proof -
  obtain y where y: "x75_machine L d' disc x = Inr y" "state y = X75_STATE_0" "mode y = mode x"
    "window y = window x" "wq L y = []" "write_queue_count y = write_queue_count x"
    by (rule osmo_mem.disc_leaves_count [OF assms(1,3,6)]) (rule that)
  have x: "0 < write_queue_count x" "0 < unat (window x)" "unat (window x) < modulus x"
    using assms(2,4) by (auto simp: inv_defs)
  have in1: "x75_data_input L stack d x = x75_kick L y"
    using assms(5) y(1) by (simp add: x75_data_input_def seqs.simps split: sum.split)
  have lib: "osmo_lib L" using assms(1) by (rule osmo_mem_lib)
  show ?thesis
  proof (cases "kick_blocked y")
    case False
    then show ?thesis using in1 osmo_lib.kick_stale [OF lib False y(5)] by simp
  next
    case True
    have "x75_data_input L stack s y =
        (case x75_machine L s' sabm y of Inl e \<Rightarrow> Inl e | Inr z \<Rightarrow> x75_kick L z)"
      using assms(7) decode_mode [OF y(3)] by (simp add: x75_data_input_def seqs.simps split: sum.split)
    also have "\<dots> = Inl NullDeref"
      using assms(8) x y by (intro osmo_mem.stale_request [OF assms(1)]) (simp_all add: set_mode_def modulus_def)
    finally show ?thesis
      using in1 osmo_lib.kick_idle [OF lib True] by simp
  qed
qed

text \<open>A station with its window full and one more message waiting.\<close>

definition lab_backlog :: "(lab, buf, buf list, tmr) x75_cb" where
  "lab_backlog = (lab_station X75_STANDARD X75_STATE_3)\<lparr>vs := 7,
     ack_queue := replicate 7 (lab_msg [1]), ack_queue_count := 7,
     write_queue := [lab_msg [2]], write_queue_count := 1\<rparr>"

lemma lab_disc:
  "x75_decode list_osmo lab_backlog (lab_msg [3, 0x53]) lab_frame =
     Some (\<lparr>buf_head = 10, buf_data = [], buf_tail = 0\<rparr>,
           lab_frame\<lparr>f_type := X75_DISC, f_cr := 1, f_pf := 0x10, f_control0 := 0x53\<rparr>)"
  by code_simp

lemma lab_sabm:
  "x75_decode list_osmo lab_backlog (lab_msg [3, 0x3F]) lab_frame =
     Some (\<lparr>buf_head = 10, buf_data = [], buf_tail = 0\<rparr>,
           lab_frame\<lparr>f_type := X75_SABM, f_cr := 1, f_pf := 0x10, f_control0 := 0x3F\<rparr>)"
  by code_simp

theorem x75_stale_count_crash_witness:
  "x75_inputs list_osmo lab_frame [lab_msg [3, 0x53], lab_msg [3, 0x3F]] lab_backlog = Inl NullDeref"
proof (rule x75_stale_count_crash [OF lo.osmo_mem_axioms _ _ _ lab_disc _ lab_sabm])
  show "x75_inv list_osmo True lab_backlog"
    by (simp add: inv_defs lab_backlog_def lab_simps ring_dist_def)
qed (simp_all add: lab_backlog_def lab_simps set_mode_def)

text \<open>
  Unacknowledged frames are requeued behind the messages that wait to be sent. The
  routine always ends and moves every frame, in order, but to the end of the write queue:
  unless one of the two queues is empty, a rejected or timed-out frame is sent again only
  after newer messages, which then take its sequence number.
\<close>

theorem x75_requeue_order:
  assumes "osmo_lib L"
  shows "\<exists>y. x75_requeue_frames L x = Inr y \<and> wq L y = wq L x @ aq L x \<and> aq L y = [] \<and>
    vs y = vs x \<and> va y = va x \<and> dev y = dev x"
proof -
  obtain q1 q2 c2 where "x75_requeue_frames L x = Inr (x\<lparr>write_queue := q1,
       write_queue_count := write_queue_count x + length (aq L x),
       ack_queue := q2, ack_queue_count := c2\<rparr>)"
    "msgb_queue L q1 = wq L x @ aq L x" "msgb_queue L q2 = []"
    by (rule osmo_lib.requeue_frames [OF assms, of x]) (rule that)
  then show ?thesis by auto
qed

theorem x75_requeue_order_witness:
  "\<exists>y. x75_requeue_frames list_osmo (lab_loaded X75_STANDARD) = Inr y \<and>
     wq list_osmo y = [lab_msg [11], lab_msg [12], lab_msg [10]]"
proof -
  have "wq list_osmo (lab_loaded X75_STANDARD) @ aq list_osmo (lab_loaded X75_STANDARD)
      = [lab_msg [11], lab_msg [12], lab_msg [10]]"
    by (simp add: lab_loaded_def list_osmo_def)
  with x75_requeue_order [OF lo.osmo_lib_axioms, of "lab_loaded X75_STANDARD"] show ?thesis by metis
qed

text \<open>
  Frames of a single byte are parsed. The parser wants two bytes but looks at \<open>msgb_headlen\<close>, which
  is in libosmocore the length less the size of the buffer, as an unsigned number: for a message
  shorter than its buffer the difference wraps around and passes. The control octet is then the byte behind
  the contents.
\<close>

lemma headlen_wraps:
  assumes "n < dl" and "dl < 65536"
  shows "2 \<le> unat (of_nat n - of_nat dl :: u32)"
proof -
  have "(of_nat (2 ^ 32) :: u32) = 0" by simp
  moreover have "of_nat n + of_nat (2 ^ 32) = (of_nat (n + 2 ^ 32 - dl) + of_nat dl :: u32)"
    using assms by (subst of_nat_add [symmetric]) (simp flip: of_nat_add)
  ultimately have eq: "of_nat n - of_nat dl = (of_nat (n + 2 ^ 32 - dl) :: u32)"
    by (metis add.right_neutral add_diff_cancel_right')
  have "unat (of_nat (n + 2 ^ 32 - dl) :: u32) = n + 2 ^ 32 - dl"
    unfolding unat_of_nat using assms by (intro mod_less) simp
  moreover have "2 \<le> n + 2 ^ 32 - dl" using assms by simp
  ultimately show ?thesis unfolding eq by simp
qed

lemma x75_short_frame_parsed:
  assumes "2 \<le> msgb_headlen L m" and "\<not> extended x"
  shows "\<exists>frame. x75_decode L x m stack = Some (msgb_pull L (msgb_pull L m 1) 1, frame) \<and>
    f_control0 frame = msgb_rd L (msgb_pull L m 1) 0"
  using assms by (auto simp: x75_decode_def x75_decode_std_def Let_def)

end
