(* ===== verification/X75_Handshake.thy ===== *)
theory X75_Handshake
  imports X75_Link
begin

text \<open>
  Two stations on one line: setting up a link and clearing it, frame by frame through the
  wire format, from the request of one user to the confirmation it gets.
\<close>

section \<open>Frames between stations\<close>

text \<open>\<open>arrives L m r\<close>: the contents of \<open>m\<close> reach the peer in a message of its own, with room left.\<close>

definition arrives :: "('m, 'q, 't) osmo_api \<Rightarrow> 'm \<Rightarrow> 'm \<Rightarrow> bool" where
  "arrives L m r \<longleftrightarrow> msgb_data L r = msgb_data L m \<and> roomy L r"

text \<open>What the call-backs of a station do to its user's data.\<close>

definition told ::
    "(('d, 'm) x75_register_struct \<Rightarrow> ('d \<Rightarrow> nat \<Rightarrow> 'd) option) \<Rightarrow> ('d, 'm, 'q, 't) x75_cb \<Rightarrow> nat \<Rightarrow> 'd \<Rightarrow> 'd" where
  "told cb x reason d = (case cb (callbacks x) of None \<Rightarrow> d | Some f \<Rightarrow> f d reason)"

text \<open>A fresh link: data transfer, all sequence variables zero, no condition.\<close>

definition link_up :: "('d, 'm, 'q, 't) x75_cb \<Rightarrow> bool" where
  "link_up x \<longleftrightarrow> state x = X75_STATE_3 \<and> vs x = 0 \<and> va x = 0 \<and> vr x = 0 \<and> condition x = 0 \<and> n2count x = 0 \<and>
     \<not> t1timer_running x"

text \<open>A cleared link: disconnected, nothing queued.\<close>

definition link_cleared :: "('m, 'q, 't) osmo_api \<Rightarrow> ('d, 'm, 'q, 't) x75_cb \<Rightarrow> bool" where
  "link_cleared L x \<longleftrightarrow> state x = X75_STATE_0 \<and> quiet L x"

lemma set_mode_peer: "mode y = peer_mode (mode x) \<Longrightarrow> set_mode y = set_mode x"
  by (simp add: set_mode_def peer_mode_bits)

lemma told_callbacks: "callbacks x = callbacks y \<Longrightarrow> told cb x = told cb y"
  by (simp add: told_def fun_eq_iff)

lemma timers_same:
  "mode (x75_start_t1timer L x) = mode x" "mode (x75_stop_t1timer L x) = mode x" "mode (x75_stop_t2timer L x) = mode x"
  "callbacks (x75_start_t1timer L x) = callbacks x" "callbacks (x75_stop_t1timer L x) = callbacks x"
  "callbacks (x75_stop_t2timer L x) = callbacks x" "dev (x75_start_t1timer L x) = dev x"
  "dev (x75_stop_t1timer L x) = dev x" "dev (x75_stop_t2timer L x) = dev x"
  "write_queue_count (x75_start_t1timer L x) = write_queue_count x"
  "write_queue_count (x75_stop_t1timer L x) = write_queue_count x"
  "write_queue_count (x75_stop_t2timer L x) = write_queue_count x"
  "t1timer_running (x75_stop_t2timer L x) = t1timer_running x" "\<not> t1timer_running (x75_stop_t1timer L x)"
  "quiet K (x75_start_t1timer L x) = quiet K x" "quiet K (x75_stop_t2timer L x) = quiet K x"
  by (simp_all add: x75_start_t1timer_def x75_stop_t1timer_def x75_stop_t2timer_def quiet_def Let_def)

lemma quiet_updates:
  "quiet L (x\<lparr>dev := d\<rparr>) = quiet L x" "quiet L (x\<lparr>state := s\<rparr>) = quiet L x" "quiet L (x\<lparr>n2count := n\<rparr>) = quiet L x"
  by (simp_all add: quiet_def)

lemma kick_nothing: "write_queue_count x = 0 \<Longrightarrow> x75_kick L x = Inr x"
  by (simp add: x75_kick_def)

lemmas handshake_simps = seqs.simps timers_same quiet_updates state_timers kick_nothing told_def link_up_def with_rc_def
  x75_reset_link_def x75_clear_queues_def x75_connect_indication_def x75_connect_confirmation_def
  x75_disconnect_indication_def x75_disconnect_confirmation_def

context osmo_mem
begin

lemma control_heard:
  assumes "headlen_passes L" and "arrives L m r" and "msgb_data L m = x75_addr md type # x75_ctl md n t poll"
    and "type = X75_COMMAND \<or> type = X75_RESPONSE" and "t \<in> {X75_SABM, X75_SABME, X75_DISC, X75_DM, X75_UA, X75_FRMR}"
    and "mode y = peer_mode md"
  obtains r' frame where "x75_decode L y r stack = Some (r', frame)" and "f_type frame = t"
    and "f_pf frame \<noteq> 0 \<longleftrightarrow> poll \<noteq> 0"
proof -
  have d: "msgb_data L r = x75_addr md type # x75_ctl md n t poll"
    using assms(2,3) by (simp add: arrives_def)
  then have "2 \<le> length (msgb_data L r)" by (simp add: x75_ctl_def Let_def)
  then have "2 \<le> msgb_headlen L r" using assms(1,2) by (simp add: headlen_passes_def arrives_def)
  from decode_uframe [OF d assms(4,5,6) this, of stack] that show ?thesis by blast
qed

section \<open>Setting up\<close>

lemma connect_sends:
  assumes "state a = X75_STATE_0"
  obtains a1 m where "x75_connect_request L a = Inr (X75_OK, a1)" and "dev a1 = x75_tx a (dev a) m"
    and "msgb_data L m = x75_addr (mode a) X75_COMMAND # x75_ctl (mode a) (vr a) (set_mode a) X75_POLLON"
    and "state a1 = X75_STATE_1" and "mode a1 = mode a" and "callbacks a1 = callbacks a"
    and "write_queue_count a1 = write_queue_count a"
proof -
  let ?a = "a\<lparr>condition := 0, n2count := 0\<rparr>"
  obtain m where m: "x75_send_control L (set_mode a) X75_POLLON X75_COMMAND ?a = Inr (?a\<lparr>dev := x75_tx ?a (dev ?a) m\<rparr>)"
    "msgb_data L m = x75_addr (mode ?a) X75_COMMAND # x75_ctl (mode ?a) (vr ?a) (set_mode a) X75_POLLON"
    by (rule control_sent [of X75_COMMAND]) simp
  have "x75_connect_request L a = Inr (X75_OK,
      (x75_stop_t2timer L (x75_start_t1timer L (?a\<lparr>dev := x75_tx ?a (dev ?a) m\<rparr>)))\<lparr>state := X75_STATE_1\<rparr>)"
    using assms m(1) by (auto simp: x75_connect_request_def x75_establish_data_link_def set_mode_def handshake_simps split: if_splits)
  then show ?thesis
    by (rule that) (use m(2) in \<open>simp_all add: timers_same x75_tx_def\<close>)
qed

lemma request_accepted:
  assumes "headlen_passes L" and "arrives L m r"
    and "msgb_data L m = x75_addr md X75_COMMAND # x75_ctl md n (set_mode b) X75_POLLON"
    and "mode b = peer_mode md" and "state b = X75_STATE_0" and "write_queue_count b = 0"
  obtains b1 m2 where "x75_data_received L stack r b = Inr (X75_OK, b1)" and "link_up b1"
    and "dev b1 = told connect_indication b X75_OK (x75_tx b (dev b) m2)"
    and "msgb_data L m2 = x75_addr (mode b) X75_RESPONSE # x75_ctl (mode b) (vr b) X75_UA X75_POLLON"
proof -
  obtain r' frame where f: "x75_decode L b r stack = Some (r', frame)" "f_type frame = set_mode b"
    "f_pf frame \<noteq> 0 \<longleftrightarrow> X75_POLLON \<noteq> 0"
    by (rule control_heard [OF assms(1-3) _ _ assms(4)]) (simp_all add: set_mode_def)
  obtain m2 where m2: "x75_send_control L X75_UA (f_pf frame) X75_RESPONSE b = Inr (b\<lparr>dev := x75_tx b (dev b) m2\<rparr>)"
    "msgb_data L m2 = x75_addr (mode b) X75_RESPONSE # x75_ctl (mode b) (vr b) X75_UA (f_pf frame)"
    by (rule control_sent [of X75_RESPONSE]) simp
  let ?b = "x75_connect_indication X75_OK (x75_reset_link ((x75_stop_t2timer L (x75_stop_t1timer L
    (b\<lparr>dev := x75_tx b (dev b) m2\<rparr>)))\<lparr>state := X75_STATE_3\<rparr>))"
  have "x75_machine L r' frame b = x75_accept_connection L (f_pf frame) b"
    using assms(5) f(2) by (simp add: x75_machine_def x75_state0_machine_def set_mode_def)
  also have "\<dots> = Inr ?b"
    using m2(1) by (simp add: x75_accept_connection_def seqs.simps)
  finally have "x75_data_received L stack r b = Inr (X75_OK, ?b)"
    using f(1) assms(6) by (simp add: x75_data_received_def x75_data_input_def handshake_simps)
  moreover have "x75_ctl (mode b) (vr b) X75_UA (f_pf frame) = x75_ctl (mode b) (vr b) X75_UA X75_POLLON"
    using f(3) by (simp add: x75_ctl_def)
  ultimately show ?thesis
    using m2(2) by (intro that [of ?b m2]) (simp_all add: handshake_simps split: option.split)
qed

lemma answer_confirms:
  assumes "headlen_passes L" and "arrives L m r"
    and "msgb_data L m = x75_addr md X75_RESPONSE # x75_ctl md n X75_UA X75_POLLON"
    and "mode a = peer_mode md" and "state a = X75_STATE_1" and "write_queue_count a = 0"
  obtains a2 where "x75_data_received L stack r a = Inr (X75_OK, a2)" and "link_up a2"
    and "dev a2 = told connect_confirmation a X75_OK (dev a)"
proof -
  obtain r' frame where f: "x75_decode L a r stack = Some (r', frame)" "f_type frame = X75_UA"
    "f_pf frame \<noteq> 0 \<longleftrightarrow> X75_POLLON \<noteq> 0"
    by (rule control_heard [OF assms(1-3) _ _ assms(4)]) simp_all
  let ?a = "x75_connect_confirmation X75_OK (x75_reset_link ((x75_stop_t2timer L (x75_stop_t1timer L a))\<lparr>state := X75_STATE_3\<rparr>))"
  have "x75_machine L r' frame a = Inr ?a"
    using assms(5) f(2,3) by (simp add: x75_machine_def x75_state1_machine_def)
  then have "x75_data_received L stack r a = Inr (X75_OK, ?a)"
    using f(1) assms(6) by (simp add: x75_data_received_def x75_data_input_def handshake_simps)
  then show ?thesis
    by (rule that) (simp_all add: handshake_simps split: option.split)
qed

section \<open>Clearing\<close>

lemma queues_freed: "quiet L (x\<lparr>write_queue := msgb_queue_free L q, ack_queue := msgb_queue_free L r\<rparr>)"
  by (simp add: quiet_def queue_free)

lemma disconnect_sends:
  assumes "state a = X75_STATE_3" and "write_queue_count a = 0"
  obtains a1 m where "x75_disconnect_request L a = Inr (X75_OK, a1)" and "dev a1 = x75_tx a (dev a) m"
    and "msgb_data L m = x75_addr (mode a) X75_COMMAND # x75_ctl (mode a) (vr a) X75_DISC X75_POLLON"
    and "state a1 = X75_STATE_2" and "mode a1 = mode a" and "callbacks a1 = callbacks a" and "write_queue_count a1 = 0"
    and "quiet L a1"
proof -
  let ?a = "(x75_clear_queues L a)\<lparr>n2count := 0\<rparr>"
  have c: "mode ?a = mode a" "vr ?a = vr a" "dev ?a = dev a" "callbacks ?a = callbacks a"
    "write_queue_count ?a = 0" "quiet L ?a"
    using assms(2) by (simp_all add: x75_clear_queues_def quiet_updates queues_freed)
  obtain m where m: "x75_send_control L X75_DISC X75_POLLON X75_COMMAND ?a = Inr (?a\<lparr>dev := x75_tx ?a (dev ?a) m\<rparr>)"
    "msgb_data L m = x75_addr (mode ?a) X75_COMMAND # x75_ctl (mode ?a) (vr ?a) X75_DISC X75_POLLON"
    by (rule control_sent [of X75_COMMAND]) simp
  have "x75_disconnect_request L a = Inr (X75_OK,
      (x75_stop_t2timer L (x75_start_t1timer L (?a\<lparr>dev := x75_tx ?a (dev ?a) m\<rparr>)))\<lparr>state := X75_STATE_2\<rparr>)"
    using assms m(1) by (simp add: x75_disconnect_request_def seqs.simps with_rc_def)
  then show ?thesis
    by (rule that) (use m(2) c in \<open>simp_all add: timers_same quiet_updates x75_tx_def\<close>)
qed

lemma disconnect_accepted:
  assumes "headlen_passes L" and "arrives L m r"
    and "msgb_data L m = x75_addr md X75_COMMAND # x75_ctl md n X75_DISC X75_POLLON"
    and "mode b = peer_mode md" and "state b = X75_STATE_3" and "write_queue_count b = 0"
  obtains b1 m2 where "x75_data_received L stack r b = Inr (X75_OK, b1)" and "link_cleared L b1"
    and "dev b1 = told disconnect_indication b X75_OK (x75_tx b (dev b) m2)"
    and "msgb_data L m2 = x75_addr (mode b) X75_RESPONSE # x75_ctl (mode b) (vr b) X75_UA X75_POLLON"
proof -
  obtain r' frame where f: "x75_decode L b r stack = Some (r', frame)" "f_type frame = X75_DISC"
    "f_pf frame \<noteq> 0 \<longleftrightarrow> X75_POLLON \<noteq> 0"
    by (rule control_heard [OF assms(1-3) _ _ assms(4)]) simp_all
  let ?q = "x75_clear_queues L b"
  obtain m2 where m2: "x75_send_control L X75_UA (f_pf frame) X75_RESPONSE ?q = Inr (?q\<lparr>dev := x75_tx ?q (dev ?q) m2\<rparr>)"
    "msgb_data L m2 = x75_addr (mode ?q) X75_RESPONSE # x75_ctl (mode ?q) (vr ?q) X75_UA (f_pf frame)"
    by (rule control_sent [of X75_RESPONSE]) simp
  let ?b = "x75_disconnect_indication X75_OK ((x75_stop_t2timer L (x75_start_t1timer L
    (?q\<lparr>dev := x75_tx ?q (dev ?q) m2\<rparr>)))\<lparr>state := X75_STATE_0\<rparr>)"
  have "x75_machine L r' frame b = Inr ?b"
    using assms(5) f(2) m2(1) by (simp add: x75_machine_def x75_state3_machine_def seqs.simps)
  then have "x75_data_received L stack r b = Inr (X75_OK, ?b)"
    using f(1) assms(6) by (simp add: x75_data_received_def x75_data_input_def handshake_simps)
  moreover have "x75_ctl (mode b) (vr b) X75_UA (f_pf frame) = x75_ctl (mode b) (vr b) X75_UA X75_POLLON"
    using f(3) by (simp add: x75_ctl_def)
  ultimately show ?thesis
    using m2(2) by (intro that [of ?b m2]) (simp_all add: handshake_simps link_cleared_def queues_freed x75_tx_def split: option.split)
qed

lemma disconnect_confirmed:
  assumes "headlen_passes L" and "arrives L m r"
    and "msgb_data L m = x75_addr md X75_RESPONSE # x75_ctl md n X75_UA X75_POLLON"
    and "mode a = peer_mode md" and "state a = X75_STATE_2" and "write_queue_count a = 0" and "quiet L a"
  obtains a2 where "x75_data_received L stack r a = Inr (X75_OK, a2)" and "link_cleared L a2"
    and "dev a2 = told disconnect_confirmation a X75_OK (dev a)"
proof -
  obtain r' frame where f: "x75_decode L a r stack = Some (r', frame)" "f_type frame = X75_UA"
    "f_pf frame \<noteq> 0 \<longleftrightarrow> X75_POLLON \<noteq> 0"
    by (rule control_heard [OF assms(1-3) _ _ assms(4)]) simp_all
  let ?a = "x75_disconnect_confirmation X75_OK (x75_stop_t2timer L (x75_start_t1timer L (a\<lparr>state := X75_STATE_0\<rparr>)))"
  have "x75_machine L r' frame a = Inr ?a"
    using assms(5) f(2,3) by (simp add: x75_machine_def x75_state2_machine_def seqs.simps)
  then have "x75_data_received L stack r a = Inr (X75_OK, ?a)"
    using f(1) assms(6) by (simp add: x75_data_received_def x75_data_input_def handshake_simps)
  then show ?thesis
    by (rule that) (use assms(7) in \<open>simp_all add: handshake_simps link_cleared_def split: option.split\<close>)
qed

end

section \<open>Both stations\<close>

lemma peer_back: "mode y = peer_mode (mode x) \<Longrightarrow> peer_mode (mode y) = mode x"
  by (simp add: peer_mode_def xor.assoc)

lemma lab_line:
  "headlen_passes list_osmo" "mode (lab_station X75_DCE s) = peer_mode (mode (lab_station X75_STANDARD t))"
  "state (lab_station md s) = s" "write_queue_count (lab_station md s) = 0"
  by (simp_all add: headlen_passes_def peer_mode_def lab_station_def list_osmo_def)

lemma lab_arrives: "arrives list_osmo m (lab_msg (msgb_data list_osmo m))"
  by (simp add: arrives_def roomy_def lab_msg_def list_osmo_def)



text \<open>
  C14: clearing a link. A disconnect request in data transfer empties the queues and puts a
  DISC command on the line; the peer in data transfer drops what it still had to send, goes to
  the disconnected state, answers and tells its user; and on the answer the requesting station
  is disconnected and its user gets the confirmation.
\<close>

theorem x75_link_down:
  assumes "osmo_mem L" and "headlen_passes L" and "mode b = peer_mode (mode a)"
    and "state a = X75_STATE_3" and "state b = X75_STATE_3" and "write_queue_count a = 0" and "write_queue_count b = 0"
  shows "\<exists>a1 m. x75_disconnect_request L a = Inr (X75_OK, a1) \<and> dev a1 = x75_tx a (dev a) m \<and>
    (\<forall>r. arrives L m r \<longrightarrow> (\<exists>b1 m2. x75_data_received L stack r b = Inr (X75_OK, b1) \<and> link_cleared L b1 \<and>
       dev b1 = told disconnect_indication b X75_OK (x75_tx b (dev b) m2) \<and>
       (\<forall>r2. arrives L m2 r2 \<longrightarrow> (\<exists>a2. x75_data_received L stack2 r2 a1 = Inr (X75_OK, a2) \<and> link_cleared L a2 \<and>
          dev a2 = told disconnect_confirmation a X75_OK (dev a1)))))"
proof -
  obtain a1 m where a1: "x75_disconnect_request L a = Inr (X75_OK, a1)" "dev a1 = x75_tx a (dev a) m"
    and m: "msgb_data L m = x75_addr (mode a) X75_COMMAND # x75_ctl (mode a) (vr a) X75_DISC X75_POLLON"
    and k: "state a1 = X75_STATE_2" "mode a1 = mode a" "callbacks a1 = callbacks a" "write_queue_count a1 = 0"
      "quiet L a1"
    by (rule osmo_mem.disconnect_sends [OF assms(1,4,6)])
  note k = k(1) k(2) [folded peer_back [OF assms(3)]] k(3,4,5)
  have "\<exists>b1 m2. x75_data_received L stack r b = Inr (X75_OK, b1) \<and> link_cleared L b1 \<and>
      dev b1 = told disconnect_indication b X75_OK (x75_tx b (dev b) m2) \<and>
      (\<forall>r2. arrives L m2 r2 \<longrightarrow> (\<exists>a2. x75_data_received L stack2 r2 a1 = Inr (X75_OK, a2) \<and> link_cleared L a2 \<and>
         dev a2 = told disconnect_confirmation a X75_OK (dev a1)))" if r: "arrives L m r" for r
  proof -
    obtain b1 m2 where b1: "x75_data_received L stack r b = Inr (X75_OK, b1)" "link_cleared L b1"
      "dev b1 = told disconnect_indication b X75_OK (x75_tx b (dev b) m2)"
      and m2: "msgb_data L m2 = x75_addr (mode b) X75_RESPONSE # x75_ctl (mode b) (vr b) X75_UA X75_POLLON"
      by (rule osmo_mem.disconnect_accepted [OF assms(1,2) r m assms(3,5,7)])
    have "\<exists>a2. x75_data_received L stack2 r2 a1 = Inr (X75_OK, a2) \<and> link_cleared L a2 \<and>
        dev a2 = told disconnect_confirmation a X75_OK (dev a1)" if "arrives L m2 r2" for r2
      by (rule osmo_mem.disconnect_confirmed [OF assms(1,2) that m2 k(2,1,4,5), of stack2]) (auto simp: told_callbacks [OF k(3)])
    with b1 show ?thesis by (intro exI [of _ b1] exI [of _ m2] conjI allI impI)
  qed
  with a1 show ?thesis by (intro exI [of _ a1] exI [of _ m] conjI allI impI)
qed

theorem x75_link_down_witness:
  "\<exists>a1 m b1 m2 a2. x75_disconnect_request list_osmo (lab_station X75_STANDARD X75_STATE_3) = Inr (X75_OK, a1) \<and>
     x75_data_received list_osmo lab_frame (lab_msg (msgb_data list_osmo m)) (lab_station X75_DCE X75_STATE_3) = Inr (X75_OK, b1) \<and>
     link_cleared list_osmo b1 \<and>
     x75_data_received list_osmo lab_frame (lab_msg (msgb_data list_osmo m2)) a1 = Inr (X75_OK, a2) \<and> link_cleared list_osmo a2"
  using x75_link_down [OF lo.osmo_mem_axioms lab_line(1,2,3,3,4,4), of lab_frame lab_frame] lab_arrives by metis

end
