(* ===== verification/Isdn_Line.thy ===== *)
theory Isdn_Line
  imports Osmo_Core
begin

text \<open>
  The HDLC channel of an ISDN call, as the two call handlers \<open>src/yate_hdlc_ppp.c\<close> and
  \<open>src/yate_x75.c\<close> drive it: both contain the same loop that fills a buffer of samples with
  the packets of a queue.

  The HDLC encoder and decoder are those of libosmocore and enter as a parameter: a record
  of their operations over a coder state \<open>'h\<close>, and two locales with what the program relies
  on. The locales speak of the history of the coder: the frames the decoder has reported,
  the frames the encoder has taken completely, and the part it has taken of the current
  one.
\<close>

section \<open>The coder\<close>

text \<open>
  \<open>hdlc_decode H h src dst dsize\<close> gives the return value, the number of source bytes used, the
  new state and the destination buffer; \<open>hdlc_encode H h src dsize\<close> the return value, the
  number of source bytes used, the new state and the bytes stored.
\<close>

record 'h hdlc_api =
  hdlc_decode :: "'h \<Rightarrow> byte list \<Rightarrow> byte list \<Rightarrow> nat \<Rightarrow> int \<times> nat \<times> 'h \<times> byte list"
  hdlc_encode :: "'h \<Rightarrow> byte list \<Rightarrow> nat \<Rightarrow> int \<times> nat \<times> 'h \<times> byte list"

text \<open>
  The decoder never uses more than it is given and, called with bytes left, uses at least
  one or comes closer to the end of a byte it has begun. A positive result is the length
  of a frame in the buffer, which fits it.
\<close>

locale hdlc_decoder =
  fixes H :: "'h hdlc_api" and dec_frames :: "'h \<Rightarrow> byte list list" and dec_left :: "'h \<Rightarrow> nat"
  assumes decode_count:
      "src \<noteq> [] \<Longrightarrow> hdlc_decode H h src dst n = (rv, c, h', dst') \<Longrightarrow>
       c \<le> length src \<and> (c = 0 \<longrightarrow> dec_left h' < dec_left h)"
    and decode_frame:
      "hdlc_decode H h src dst n = (rv, c, h', dst') \<Longrightarrow> n \<le> length dst \<Longrightarrow>
       rv \<le> int n \<and> length dst' = length dst \<and>
       dec_frames h' = dec_frames h @ (if 0 < rv then [take (nat rv) dst'] else [])"

text \<open>
  The encoder stores at least one byte and no more than there is room for. It takes bytes
  from the front of its source; a frame ends when the source of a call is used up.
\<close>

locale hdlc_encoder =
  fixes H :: "'h hdlc_api" and enc_frames :: "'h \<Rightarrow> byte list list" and enc_part :: "'h \<Rightarrow> byte list"
  assumes encode_progress:
      "0 < n \<Longrightarrow> hdlc_encode H h src n = (rv, c, h', bs) \<Longrightarrow>
       0 < rv \<and> rv \<le> int n \<and> length bs = nat rv \<and> c \<le> length src"
    and encode_idle:
      "0 < n \<Longrightarrow> hdlc_encode H h [] n = (rv, c, h', bs) \<Longrightarrow>
       enc_frames h' = enc_frames h \<and> enc_part h' = enc_part h"
    and encode_part:
      "0 < n \<Longrightarrow> src \<noteq> [] \<Longrightarrow> hdlc_encode H h src n = (rv, c, h', bs) \<Longrightarrow> c < length src \<Longrightarrow>
       enc_frames h' = enc_frames h \<and> enc_part h' = enc_part h @ take c src"
    and encode_whole:
      "0 < n \<Longrightarrow> src \<noteq> [] \<Longrightarrow> hdlc_encode H h src n = (rv, c, h', bs) \<Longrightarrow> c = length src \<Longrightarrow>
       enc_frames h' = enc_frames h @ [enc_part h @ src] \<and> enc_part h' = []"

section \<open>Sending\<close>

text \<open>
  The globals of the sending side. \<open>hdlc_tx_buf\<close> stands for the bytes the pointer leads to,
  those of the message that is being sent.
\<close>

record ('m, 'q, 'h) hdlc_line =
  hdlc_tx :: 'h
  isdn_hdlc_tx_queue :: 'q
  hdlc_tx_msgb :: "'m option"
  hdlc_tx_buf :: "byte list"
  hdlc_tx_buf_pos :: nat
  hdlc_tx_buf_len :: nat

definition hdlc_tx_fetch ::
    "('m, 'q, 't) osmo_api \<Rightarrow> ('m, 'q, 'h) hdlc_line \<Rightarrow> ('m, 'q, 'h) hdlc_line" where
  "hdlc_tx_fetch L t =
     (if hdlc_tx_buf_len t = 0 then
        (let (m, q) = msgb_dequeue L (isdn_hdlc_tx_queue t);
             t = t\<lparr>hdlc_tx_msgb := m, isdn_hdlc_tx_queue := q\<rparr>
         in case m of
              None \<Rightarrow> t
            | Some m \<Rightarrow> t\<lparr>hdlc_tx_buf := msgb_data L m, hdlc_tx_buf_len := length (msgb_data L m),
                          hdlc_tx_buf_pos := 0\<rparr>)
      else t)"

text \<open>One pass of the loop, over \<open>samplesProcessed\<close>, the output buffer and the globals.\<close>

definition hdlc_tx_pass ::
    "('m, 'q, 't) osmo_api \<Rightarrow> 'h hdlc_api \<Rightarrow> nat \<Rightarrow> nat \<times> byte list \<times> ('m, 'q, 'h) hdlc_line
     \<Rightarrow> nat \<times> byte list \<times> ('m, 'q, 'h) hdlc_line" where
  "hdlc_tx_pass L H num_samples = (\<lambda>(samplesProcessed, out_buf, t).
     let t = hdlc_tx_fetch L t;
         (rv, count, h, bs) = hdlc_encode H (hdlc_tx t)
            (take (hdlc_tx_buf_len t - hdlc_tx_buf_pos t) (drop (hdlc_tx_buf_pos t) (hdlc_tx_buf t)))
            (num_samples - samplesProcessed);
         t = t\<lparr>hdlc_tx := h\<rparr>;
         out_buf = store out_buf samplesProcessed bs
     in if 0 < rv then
          (samplesProcessed + nat rv, out_buf,
           if hdlc_tx_buf_len t \<noteq> 0 then
             (let t = t\<lparr>hdlc_tx_buf_pos := hdlc_tx_buf_pos t + count\<rparr> in
              if hdlc_tx_buf_pos t = hdlc_tx_buf_len t
              then t\<lparr>hdlc_tx_buf_len := 0, hdlc_tx_buf_pos := 0\<rparr> else t)
           else t)
        else (samplesProcessed, out_buf, t))"

definition hdlc_tx_loop ::
    "('m, 'q, 't) osmo_api \<Rightarrow> 'h hdlc_api \<Rightarrow> nat \<Rightarrow> byte list \<Rightarrow> ('m, 'q, 'h) hdlc_line
     \<Rightarrow> fault + byte list \<times> ('m, 'q, 'h) hdlc_line" where
  "hdlc_tx_loop L H num_samples out_buf t =
     (case while_option (\<lambda>(samplesProcessed, out_buf, t). samplesProcessed < num_samples)
         (hdlc_tx_pass L H num_samples) (0, out_buf, t) of
        None \<Rightarrow> Inl Hang
      | Some (samplesProcessed, out_buf, t) \<Rightarrow> Inr (out_buf, t))"

section \<open>What the encoder is given\<close>

text \<open>
  The frames still to be sent: the rest of the current message, with the part the encoder
  has taken already, and the messages in the queue that are not empty.
\<close>

definition tx_ok :: "('h \<Rightarrow> byte list) \<Rightarrow> ('m, 'q, 'h) hdlc_line \<Rightarrow> bool" where
  "tx_ok part t \<longleftrightarrow>
     (if hdlc_tx_buf_len t = 0 then part (hdlc_tx t) = [] \<and> hdlc_tx_buf_pos t = 0
      else hdlc_tx_buf_pos t < hdlc_tx_buf_len t \<and> hdlc_tx_buf_len t = length (hdlc_tx_buf t) \<and>
        part (hdlc_tx t) = take (hdlc_tx_buf_pos t) (hdlc_tx_buf t))"

definition tx_waiting :: "('m, 'q, 't) osmo_api \<Rightarrow> ('m, 'q, 'h) hdlc_line \<Rightarrow> byte list list" where
  "tx_waiting L t =
     (if hdlc_tx_buf_len t = 0 then [] else [hdlc_tx_buf t]) @
     filter (\<lambda>p. p \<noteq> []) (map (msgb_data L) (msgb_queue L (isdn_hdlc_tx_queue t)))"

locale hdlc_sender = osmo_lib L + hdlc_encoder H enc_frames enc_part
  for L :: "('m, 'q, 't) osmo_api" and H :: "'h hdlc_api"
    and enc_frames :: "'h \<Rightarrow> byte list list" and enc_part :: "'h \<Rightarrow> byte list"
begin

lemma fetch_ok:
  assumes "tx_ok enc_part t"
  shows "tx_ok enc_part (hdlc_tx_fetch L t)" and "tx_waiting L (hdlc_tx_fetch L t) = tx_waiting L t"
    and "hdlc_tx (hdlc_tx_fetch L t) = hdlc_tx t"
    and "hdlc_tx_buf_len (hdlc_tx_fetch L t) = 0 \<Longrightarrow> hdlc_tx_buf_pos (hdlc_tx_fetch L t) = 0"
proof -
  have "tx_ok enc_part (hdlc_tx_fetch L t) \<and> tx_waiting L (hdlc_tx_fetch L t) = tx_waiting L t \<and>
      hdlc_tx (hdlc_tx_fetch L t) = hdlc_tx t \<and>
      (hdlc_tx_buf_len (hdlc_tx_fetch L t) = 0 \<longrightarrow> hdlc_tx_buf_pos (hdlc_tx_fetch L t) = 0)"
  proof (cases "msgb_queue L (isdn_hdlc_tx_queue t)")
    case Nil
    then show ?thesis
      using assms dequeue_plain_empty [OF Nil] by (auto simp: hdlc_tx_fetch_def tx_ok_def tx_waiting_def)
  next
    case (Cons m ms)
    then obtain q where "msgb_dequeue L (isdn_hdlc_tx_queue t) = (Some m, q)" "msgb_queue L q = ms"
      using dequeue_plain_some by blast
    then show ?thesis
      using assms Cons by (auto simp: hdlc_tx_fetch_def tx_ok_def tx_waiting_def)
  qed
  then show "tx_ok enc_part (hdlc_tx_fetch L t)" "tx_waiting L (hdlc_tx_fetch L t) = tx_waiting L t"
    "hdlc_tx (hdlc_tx_fetch L t) = hdlc_tx t"
    "hdlc_tx_buf_len (hdlc_tx_fetch L t) = 0 \<Longrightarrow> hdlc_tx_buf_pos (hdlc_tx_fetch L t) = 0"
    by auto
qed

lemma tx_pass:
  assumes ok: "tx_ok enc_part t" and sp: "sp < num" and len: "num \<le> length out"
    and pass: "hdlc_tx_pass L H num (sp, out, t) = (sp', out', t')"
  shows "tx_ok enc_part t' \<and> sp < sp' \<and> sp' \<le> num \<and> length out' = length out \<and>
    enc_frames (hdlc_tx t') @ tx_waiting L t' = enc_frames (hdlc_tx t) @ tx_waiting L t"
proof -
  define u where "u = hdlc_tx_fetch L t"
  note u = fetch_ok [OF ok, folded u_def]
  define src where "src = take (hdlc_tx_buf_len u - hdlc_tx_buf_pos u) (drop (hdlc_tx_buf_pos u) (hdlc_tx_buf u))"
  obtain rv c h bs where enc: "hdlc_encode H (hdlc_tx u) src (num - sp) = (rv, c, h, bs)"
    by (metis prod_cases4)
  have room: "0 < num - sp" using sp by simp
  have e: "0 < rv" "rv \<le> int (num - sp)" "length bs = nat rv" "c \<le> length src"
    using encode_progress [OF room enc] by auto
  have run: "hdlc_tx_pass L H num (sp, out, t) =
      (sp + nat rv, store out sp bs,
       if hdlc_tx_buf_len u \<noteq> 0 then
         if hdlc_tx_buf_pos u + c = hdlc_tx_buf_len u
         then u\<lparr>hdlc_tx := h, hdlc_tx_buf_len := 0, hdlc_tx_buf_pos := 0\<rparr>
         else u\<lparr>hdlc_tx := h, hdlc_tx_buf_pos := hdlc_tx_buf_pos u + c\<rparr>
       else u\<lparr>hdlc_tx := h\<rparr>)"
    using e(1) by (simp add: hdlc_tx_pass_def u_def [symmetric] src_def [symmetric] enc Let_def)
  have "length (store out sp bs) = length out"
    using e len sp by (subst length_store) auto
  moreover have "tx_ok enc_part t' \<and> enc_frames (hdlc_tx t') @ tx_waiting L t' = enc_frames (hdlc_tx t) @ tx_waiting L t"
  proof (cases "hdlc_tx_buf_len u = 0")
    case True
    then have "src = []" by (simp add: src_def)
    with True encode_idle [OF room, of "hdlc_tx u"] enc u pass run show ?thesis
      by (auto simp: tx_ok_def tx_waiting_def)
  next
    case False
    then have k: "hdlc_tx_buf_pos u < length (hdlc_tx_buf u)" "hdlc_tx_buf_len u = length (hdlc_tx_buf u)"
        "enc_part (hdlc_tx u) = take (hdlc_tx_buf_pos u) (hdlc_tx_buf u)"
      using u(1) by (auto simp: tx_ok_def)
    then have src: "src = drop (hdlc_tx_buf_pos u) (hdlc_tx_buf u)" "src \<noteq> []"
      by (simp_all add: src_def)
    show ?thesis
    proof (cases "c = length src")
      case True
      then show ?thesis
        using encode_whole [OF room src(2) enc True] False k src(1) u pass run
        by (auto simp: tx_ok_def tx_waiting_def)
    next
      case less: False
      then have "c < length src" using e by simp
      then show ?thesis
        using encode_part [OF room src(2) enc] False k src(1) u pass run
        by (auto simp: tx_ok_def tx_waiting_def take_add [symmetric] less_diff_conv)
    qed
  qed
  ultimately show ?thesis
    using run pass e by auto
qed

lemma tx_loop:
  assumes "tx_ok enc_part t" and "num \<le> length out"
  shows "\<exists>out' t'. hdlc_tx_loop L H num out t = Inr (out', t') \<and> length out' = length out \<and> tx_ok enc_part t' \<and>
    enc_frames (hdlc_tx t') @ tx_waiting L t' = enc_frames (hdlc_tx t) @ tx_waiting L t"
proof -
  let ?P = "\<lambda>(sp, o2 :: byte list, u). sp \<le> num \<and> length o2 = length out \<and> tx_ok enc_part u \<and>
    enc_frames (hdlc_tx u) @ tx_waiting L u = enc_frames (hdlc_tx t) @ tx_waiting L t"
  have "\<exists>s. while_option (\<lambda>(sp, out, u). sp < num) (hdlc_tx_pass L H num) (0, out, t) = Some s \<and>
      ?P s \<and> \<not> (\<lambda>(sp, out, u). sp < num) s"
  proof (rule while_option_ends [where f = "\<lambda>(sp, out, u). num - sp"])
    show "?P (0, out, t)" using assms by simp
  next
    fix s assume s: "?P s" "(\<lambda>(sp, out, u). sp < num) s"
    obtain sp o' u where s': "s = (sp, o', u)" by (cases s)
    obtain sp2 o2 u2 where p: "hdlc_tx_pass L H num s = (sp2, o2, u2)" by (cases "hdlc_tx_pass L H num s")
    with s s' assms(2) tx_pass [of u sp num o' sp2 o2 u2]
    show "?P (hdlc_tx_pass L H num s) \<and>
        (case hdlc_tx_pass L H num s of (sp, out, u) \<Rightarrow> num - sp) < (case s of (sp, out, u) \<Rightarrow> num - sp)"
      by auto
  qed
  then show ?thesis by (auto simp: hdlc_tx_loop_def)
qed

end

section \<open>Receiving\<close>

text \<open>
  The positions the decoder comes through on a buffer of samples, with its state and the
  destination buffer, of which it is offered all but five bytes. They depend on the coder
  and the samples only. \<open>frames_bounded\<close> says of the samples that no frame in them is
  longer than \<open>k\<close> bytes.
\<close>

inductive hdlc_reads ::
    "'h hdlc_api \<Rightarrow> byte list \<Rightarrow> 'h \<Rightarrow> byte list \<Rightarrow> nat \<Rightarrow> 'h \<Rightarrow> byte list \<Rightarrow> bool"
  for H :: "'h hdlc_api" and in_buf :: "byte list" and h0 :: 'h and dst0 :: "byte list" where
  start: "hdlc_reads H in_buf h0 dst0 0 h0 dst0"
| onward: "hdlc_reads H in_buf h0 dst0 sp h dst \<Longrightarrow> sp < length in_buf \<Longrightarrow>
    hdlc_decode H h (drop sp in_buf) dst (length dst - 5) = (rv, c, h', dst') \<Longrightarrow>
    hdlc_reads H in_buf h0 dst0 (sp + c) h' dst'"

definition frames_bounded :: "'h hdlc_api \<Rightarrow> nat \<Rightarrow> byte list \<Rightarrow> 'h \<Rightarrow> byte list \<Rightarrow> bool" where
  "frames_bounded H k in_buf h0 dst0 \<longleftrightarrow>
     (\<forall>sp h dst. hdlc_reads H in_buf h0 dst0 sp h dst \<longrightarrow> sp < length in_buf \<longrightarrow>
        fst (hdlc_decode H h (drop sp in_buf) dst (length dst - 5)) \<le> int k)"

lemma frames_boundedD:
  assumes "frames_bounded H k in_buf h0 dst0" and "hdlc_reads H in_buf h0 dst0 sp h dst" and "sp < length in_buf"
    and "hdlc_decode H h (drop sp in_buf) dst (length dst - 5) = (rv, c, h', dst')"
  shows "rv \<le> int k"
  using assms unfolding frames_bounded_def by (metis fst_conv)

context hdlc_decoder
begin

text \<open>What one call of the decoder on the rest of the samples does.\<close>

lemma decode_rest:
  assumes "frames_bounded H k in_buf h0 dst0" and "hdlc_reads H in_buf h0 dst0 sp h dst" and "sp < length in_buf"
    and "hdlc_decode H h (drop sp in_buf) dst (length dst - 5) = (rv, c, h', dst')"
  shows "sp + c \<le> length in_buf" and "c = 0 \<Longrightarrow> dec_left h' < dec_left h" and "length dst' = length dst"
    and "dec_frames h' = dec_frames h @ (if 0 < rv then [take (nat rv) dst'] else [])"
    and "length (take (nat rv) dst') \<le> k" and "hdlc_reads H in_buf h0 dst0 (sp + c) h' dst'"
proof -
  have "drop sp in_buf \<noteq> []" using assms(3) by simp
  from decode_count [OF this assms(4)] show "sp + c \<le> length in_buf" "c = 0 \<Longrightarrow> dec_left h' < dec_left h"
    using assms(3) by auto
  show "length dst' = length dst" "dec_frames h' = dec_frames h @ (if 0 < rv then [take (nat rv) dst'] else [])"
    using decode_frame [OF assms(4)] by auto
  show "length (take (nat rv) dst') \<le> k"
    using frames_boundedD [OF assms] by simp
  show "hdlc_reads H in_buf h0 dst0 (sp + c) h' dst'"
    using assms(2-4) by (rule hdlc_reads.onward)
qed

end

section \<open>Both directions\<close>

text \<open>What a call handler relies on: message buffers, timers and both halves of the coder.\<close>

locale hdlc_channel = hdlc_sender L H enc_frames enc_part + hdlc_decoder H dec_frames dec_left
  for L :: "('m, 'q, 't) osmo_api" and H :: "'h hdlc_api" and enc_frames enc_part dec_frames dec_left

section \<open>A coder to run the theorems on\<close>

text \<open>
  A byte-wise coder: a flag ends a frame, every other byte is data. It keeps the history
  the interface speaks of.
\<close>

record lab_coder =
  lab_pos :: nat
  lab_decoded :: "byte list list"
  lab_sent :: "byte list list"
  lab_part :: "byte list"

definition lab_hdlc :: "lab_coder hdlc_api" where
  "lab_hdlc = \<lparr>
     hdlc_decode = (\<lambda>h src dst n. case src of
          [] \<Rightarrow> (0, 0, h, dst)
        | b # bs \<Rightarrow>
            let k = min (lab_pos h) (min n 1021) in
            if b = 0x7e
            then (int k, 1, h\<lparr>lab_pos := 0,
                    lab_decoded := lab_decoded h @ (if 0 < k then [take k dst] else [])\<rparr>, dst)
            else (0, 1, h\<lparr>lab_pos := Suc (lab_pos h)\<rparr>, dst[lab_pos h := b])),
     hdlc_encode = (\<lambda>h src n.
        let k = min n (length src) in
        (int n, k,
         if src = [] then h
         else if k = length src then h\<lparr>lab_sent := lab_sent h @ [lab_part h @ src], lab_part := []\<rparr>
         else h\<lparr>lab_part := lab_part h @ take k src\<rparr>,
         take k src @ replicate (n - k) 0x7e))\<rparr>"

interpretation lab: hdlc_channel list_osmo lab_hdlc lab_sent lab_part lab_decoded "\<lambda>h. 0"
  by unfold_locales (auto simp: lab_hdlc_def Let_def split: list.splits if_splits)

lemma lab_bounded: "1021 \<le> k \<Longrightarrow> frames_bounded lab_hdlc k in_buf h dst"
  by (auto simp: frames_bounded_def lab_hdlc_def Let_def split: list.splits)

end
