(* ===== verification/Isdn_Progress.thy ===== *)
theory Isdn_Progress
  imports Isdn_Line
begin

text \<open>
  Progress of the sending loop on an HDLC channel: as long as something waits, every buffer of
  samples brings it closer to the encoder, and buffers that keep coming drain the queue.
\<close>

section \<open>What the encoder promises\<close>

text \<open>
  Called with bytes to send and with room, the encoder takes at least one or comes closer to the
  point where it takes the next one: \<open>enc_left\<close> is what is left to be sent before that, such as the
  rest of a byte or of a flag.
\<close>

locale hdlc_encoder_live =
  fixes H :: "'h hdlc_api" and enc_left :: "'h \<Rightarrow> nat"
  assumes encode_advance:
    "0 < n \<Longrightarrow> src \<noteq> [] \<Longrightarrow> hdlc_encode H h src n = (rv, 0, h', bs) \<Longrightarrow> enc_left h' < enc_left h"

interpretation lab_live: hdlc_encoder_live lab_hdlc "\<lambda>h. 0"
  by unfold_locales (auto simp: lab_hdlc_def Let_def min_def split: if_splits)

section \<open>A rank that falls\<close>

text \<open>
  The messages of the queue and the one that is being sent, the bytes of the latter that the
  encoder has not taken, and what is left before it takes the next.
\<close>

definition tx_busy :: "('m, 'q, 't) osmo_api \<Rightarrow> ('m, 'q, 'h) hdlc_line \<Rightarrow> bool" where
  "tx_busy L t \<longleftrightarrow> hdlc_tx_buf_len t \<noteq> 0 \<or> msgb_queue L (isdn_hdlc_tx_queue t) \<noteq> []"

definition tx_rank :: "('m, 'q, 't) osmo_api \<Rightarrow> ('h \<Rightarrow> nat) \<Rightarrow> ('m, 'q, 'h) hdlc_line \<Rightarrow> nat \<times> nat \<times> nat" where
  "tx_rank L enc_left t =
     (2 * length (msgb_queue L (isdn_hdlc_tx_queue t)) + (if hdlc_tx_buf_len t = 0 then 0 else 1),
      hdlc_tx_buf_len t - hdlc_tx_buf_pos t, enc_left (hdlc_tx t))"

definition rank_less :: "((nat \<times> nat \<times> nat) \<times> (nat \<times> nat \<times> nat)) set" where
  "rank_less = less_than <*lex*> less_than <*lex*> less_than"

lemma wf_rank_less: "wf rank_less" and rank_less_trans: "trans rank_less"
  by (simp_all add: rank_less_def wf_lex_prod trans_lex_prod)

lemma waiting_busy: "tx_waiting L t \<noteq> [] \<Longrightarrow> tx_busy L t"
  by (auto simp: tx_waiting_def tx_busy_def split: if_splits)

locale hdlc_sender_live = hdlc_sender L H enc_frames enc_part + hdlc_encoder_live H enc_left
  for L :: "('m, 'q, 't) osmo_api" and H :: "'h hdlc_api" and enc_frames enc_part enc_left
begin

lemma fetch_rank:
  assumes "tx_ok enc_part t" and "tx_busy L t"
  shows "fst (tx_rank L enc_left (hdlc_tx_fetch L t)) < fst (tx_rank L enc_left t) \<or>
    hdlc_tx_buf_len (hdlc_tx_fetch L t) \<noteq> 0 \<and> tx_rank L enc_left (hdlc_tx_fetch L t) = tx_rank L enc_left t"
proof (cases "hdlc_tx_buf_len t = 0")
  case True
  then obtain m ms where q: "msgb_queue L (isdn_hdlc_tx_queue t) = m # ms"
    using assms(2) by (auto simp: tx_busy_def neq_Nil_conv)
  then obtain q where "msgb_dequeue L (isdn_hdlc_tx_queue t) = (Some m, q)" "msgb_queue L q = ms"
    using dequeue_plain_some by blast
  with True q show ?thesis
    by (simp add: hdlc_tx_fetch_def tx_rank_def)
qed (simp add: hdlc_tx_fetch_def)

lemma pass_rank:
  assumes "tx_ok enc_part t" and "tx_busy L t" and "sp < num"
    and pass: "hdlc_tx_pass L H num (sp, out, t) = (sp', out', t')"
  shows "(tx_rank L enc_left t', tx_rank L enc_left t) \<in> rank_less"
proof -
  define u where "u = hdlc_tx_fetch L t"
  note u = fetch_ok [OF assms(1), folded u_def] fetch_rank [OF assms(1,2), folded u_def]
  define src where "src = take (hdlc_tx_buf_len u - hdlc_tx_buf_pos u) (drop (hdlc_tx_buf_pos u) (hdlc_tx_buf u))"
  obtain rv c h bs where enc: "hdlc_encode H (hdlc_tx u) src (num - sp) = (rv, c, h, bs)"
    by (metis prod_cases4)
  have room: "0 < num - sp" using assms(3) by simp
  have e: "0 < rv" "c \<le> length src"
    using encode_progress [OF room enc] by auto
  have t': "t' = (if hdlc_tx_buf_len u \<noteq> 0 then
         if hdlc_tx_buf_pos u + c = hdlc_tx_buf_len u
         then u\<lparr>hdlc_tx := h, hdlc_tx_buf_len := 0, hdlc_tx_buf_pos := 0\<rparr>
         else u\<lparr>hdlc_tx := h, hdlc_tx_buf_pos := hdlc_tx_buf_pos u + c\<rparr>
       else u\<lparr>hdlc_tx := h\<rparr>)"
  proof -
    have "hdlc_tx_pass L H num (sp, out, t) = (sp + nat rv, store out sp bs,
       if hdlc_tx_buf_len u \<noteq> 0 then
         if hdlc_tx_buf_pos u + c = hdlc_tx_buf_len u
         then u\<lparr>hdlc_tx := h, hdlc_tx_buf_len := 0, hdlc_tx_buf_pos := 0\<rparr>
         else u\<lparr>hdlc_tx := h, hdlc_tx_buf_pos := hdlc_tx_buf_pos u + c\<rparr>
       else u\<lparr>hdlc_tx := h\<rparr>)"
      using e(1) by (simp add: hdlc_tx_pass_def u_def [symmetric] src_def [symmetric] enc Let_def)
    with pass show ?thesis by auto
  qed
  show ?thesis
  proof (cases "hdlc_tx_buf_len u = 0")
    case True
    then have "fst (tx_rank L enc_left u) < fst (tx_rank L enc_left t)"
      using u(5) by simp
    moreover have "fst (tx_rank L enc_left t') = fst (tx_rank L enc_left u)"
      using True by (simp add: t' tx_rank_def)
    ultimately show ?thesis
      by (simp add: rank_less_def tx_rank_def)
  next
    case False
    then have k: "hdlc_tx_buf_pos u < hdlc_tx_buf_len u" "src \<noteq> []" "length src = hdlc_tx_buf_len u - hdlc_tx_buf_pos u"
      using u(1) by (auto simp: tx_ok_def src_def)
    have "(tx_rank L enc_left t', tx_rank L enc_left u) \<in> rank_less"
    proof (cases "c = 0")
      case True
      then show ?thesis
        using encode_advance [OF room k(2)] enc False k(1) by (simp add: t' tx_rank_def rank_less_def)
    next
      case c: False
      then show ?thesis
        using False k e(2) by (auto simp: t' tx_rank_def rank_less_def)
    qed
    then show ?thesis
      using u(5) by (auto simp: rank_less_def tx_rank_def)
  qed
qed

lemma loop_rank:
  assumes "tx_ok enc_part t" and "tx_busy L t" and "0 < num" and "num \<le> length out"
    and "hdlc_tx_loop L H num out t = Inr (out', t')"
  shows "(tx_rank L enc_left t', tx_rank L enc_left t) \<in> rank_less"
proof -
  let ?P = "\<lambda>(sp, o2 :: byte list, u). length o2 = length out \<and> tx_ok enc_part u \<and>
    (if sp = 0 then u = t else (tx_rank L enc_left u, tx_rank L enc_left t) \<in> rank_less)"
  obtain sp o2 where w: "while_option (\<lambda>(sp, out, u). sp < num) (hdlc_tx_pass L H num) (0, out, t) = Some (sp, o2, t')"
    using assms(5) by (auto simp: hdlc_tx_loop_def split: option.splits)
  have step: "?P (hdlc_tx_pass L H num s)" if s: "?P s" "(\<lambda>(sp, out, u). sp < num) s" for s
  proof -
    obtain sp o1 u where s': "s = (sp, o1, u)" by (cases s)
    obtain sp2 o2 u2 where p: "hdlc_tx_pass L H num (sp, o1, u) = (sp2, o2, u2)"
      by (cases "hdlc_tx_pass L H num (sp, o1, u)")
    have ok: "tx_ok enc_part u2" "0 < sp2" "length o2 = length out"
      using tx_pass [OF _ _ _ p] s s' assms(4) by auto
    have "(tx_rank L enc_left u2, tx_rank L enc_left t) \<in> rank_less"
    proof (cases "tx_busy L u")
      case True
      then have "(tx_rank L enc_left u2, tx_rank L enc_left u) \<in> rank_less"
        using pass_rank [OF _ True _ p] s s' by auto
      then show ?thesis
        using s s' rank_less_trans by (auto dest: transD split: if_splits)
    next
      case False
      then have u: "hdlc_tx_buf_len u = 0" "msgb_queue L (isdn_hdlc_tx_queue u) = []"
        by (simp_all add: tx_busy_def)
      then have "tx_waiting L u2 = [] \<and> fst (tx_rank L enc_left u2) = 0"
        using p dequeue_plain_empty [OF u(2)]
        by (auto simp: hdlc_tx_pass_def hdlc_tx_fetch_def Let_def tx_rank_def tx_waiting_def split: prod.splits if_splits)
      moreover have "0 < fst (tx_rank L enc_left t)"
        using assms(2) by (auto simp: tx_busy_def tx_rank_def)
      ultimately show ?thesis
        by (simp add: rank_less_def tx_rank_def)
    qed
    with ok p s' show ?thesis by simp
  qed
  have "?P (sp, o2, t')"
    using while_option_rule [of ?P, OF step w] assms(1) by simp
  moreover have "sp \<noteq> 0"
    using while_option_stop [OF w] assms(3) by auto
  ultimately show ?thesis by simp
qed

end

section \<open>Buffers that keep coming\<close>

primrec hdlc_tx_loops ::
    "('m, 'q, 't) osmo_api \<Rightarrow> 'h hdlc_api \<Rightarrow> byte list \<Rightarrow> nat \<Rightarrow> ('m, 'q, 'h) hdlc_line \<Rightarrow> fault + ('m, 'q, 'h) hdlc_line" where
  "hdlc_tx_loops L H out 0 t = Inr t"
| "hdlc_tx_loops L H out (Suc n) t =
     (case hdlc_tx_loop L H (length out) out t of Inl e \<Rightarrow> Inl e | Inr (out', t) \<Rightarrow> hdlc_tx_loops L H out n t)"

context hdlc_sender_live
begin

text \<open>With nothing queued meanwhile, the encoder has been given all that waited after finitely many buffers.\<close>

lemma tx_drains:
  assumes "tx_ok enc_part t" and "out \<noteq> []"
  shows "\<exists>n t'. hdlc_tx_loops L H out n t = Inr t' \<and> \<not> tx_busy L t' \<and>
    enc_frames (hdlc_tx t') = enc_frames (hdlc_tx t) @ tx_waiting L t"
  using assms(1)
proof (induction "tx_rank L enc_left t" arbitrary: t rule: wf_induct_rule [OF wf_rank_less])
  case (1 t)
  show ?case
  proof (cases "tx_busy L t")
    case True
    obtain out' u where u: "hdlc_tx_loop L H (length out) out t = Inr (out', u)" "tx_ok enc_part u"
      "enc_frames (hdlc_tx u) @ tx_waiting L u = enc_frames (hdlc_tx t) @ tx_waiting L t"
      using tx_loop [OF 1(2) order_refl] by blast
    have "(tx_rank L enc_left u, tx_rank L enc_left t) \<in> rank_less"
      using loop_rank [OF 1(2) True _ order_refl u(1)] assms(2) by simp
    from 1(1) [OF this u(2)] obtain n t' where "hdlc_tx_loops L H out n u = Inr t'" "\<not> tx_busy L t'"
      "enc_frames (hdlc_tx t') = enc_frames (hdlc_tx u) @ tx_waiting L u" by blast
    with u show ?thesis
      by (intro exI [of _ "Suc n"] exI [of _ t']) simp
  next
    case False
    then have "tx_waiting L t = []" using waiting_busy by blast
    with False show ?thesis
      by (intro exI [of _ 0] exI [of _ t]) simp
  qed
qed

end

interpretation lab_sends: hdlc_sender_live list_osmo lab_hdlc lab_sent lab_part "\<lambda>h. 0"
  by unfold_locales

end
