(* ===== verification/X75_Dev.thy ===== *)
theory X75_Dev
  imports X75_Safety
begin

text \<open>
  The link layer reaches the data of its user only through the registered call-backs:
  whatever the call-backs keep of that data, every call of the layer keeps, however the
  call ends. The result needs no law of the message library.
\<close>

named_theorems dev_rules "calls that keep what the call-backs keep"

text \<open>What call-backs \<open>cb\<close> keep of the user's data: the contract a user of the layer meets.\<close>

locale x75_user =
  fixes cb :: "('d, 'm) x75_register_struct" and D :: "'d \<Rightarrow> bool"
  assumes confirmation: "connect_confirmation cb = Some f \<Longrightarrow> D d \<Longrightarrow> D (f d r)"
    and indication: "connect_indication cb = Some f \<Longrightarrow> D d \<Longrightarrow> D (f d r)"
    and disconfirmation: "disconnect_confirmation cb = Some f \<Longrightarrow> D d \<Longrightarrow> D (f d r)"
    and disindication: "disconnect_indication cb = Some f \<Longrightarrow> D d \<Longrightarrow> D (f d r)"
    and data: "data_indication cb = Some g \<Longrightarrow> D d \<Longrightarrow> D (snd (g d m))"
    and transmit: "data_transmit cb = Some h \<Longrightarrow> D d \<Longrightarrow> D (h d m)"
begin

definition dev_ok :: "('d, 'm, 'q, 't) x75_cb \<Rightarrow> bool" where
  "dev_ok x \<longleftrightarrow> callbacks x = cb \<and> D (dev x)"

definition safe :: "fault + ('d, 'm, 'q, 't) x75_cb \<Rightarrow> bool" where
  "safe r \<longleftrightarrow> ends UNIV dev_ok r"

lemma safe_simps [simp]: "safe (Inl e)" "safe (Inr x) = dev_ok x"
  by (simp_all add: safe_def)

lemma dev_ok_upd [simp]:
  "dev_ok (x\<lparr>mode := a1\<rparr>) = dev_ok x" "dev_ok (x\<lparr>state := a2\<rparr>) = dev_ok x"
  "dev_ok (x\<lparr>vs := a3\<rparr>) = dev_ok x" "dev_ok (x\<lparr>vr := a4\<rparr>) = dev_ok x" "dev_ok (x\<lparr>va := a5\<rparr>) = dev_ok x"
  "dev_ok (x\<lparr>condition := a6\<rparr>) = dev_ok x" "dev_ok (x\<lparr>n2count := a7\<rparr>) = dev_ok x"
  "dev_ok (x\<lparr>t1timer := a8\<rparr>) = dev_ok x" "dev_ok (x\<lparr>t2timer := a9\<rparr>) = dev_ok x"
  "dev_ok (x\<lparr>t1timer_running := b1\<rparr>) = dev_ok x" "dev_ok (x\<lparr>t2timer_running := b2\<rparr>) = dev_ok x"
  "dev_ok (x\<lparr>write_queue := b3\<rparr>) = dev_ok x" "dev_ok (x\<lparr>write_queue_count := b4\<rparr>) = dev_ok x"
  "dev_ok (x\<lparr>ack_queue := b5\<rparr>) = dev_ok x" "dev_ok (x\<lparr>ack_queue_count := b6\<rparr>) = dev_ok x"
  "dev_ok (x\<lparr>frmr_data := b7\<rparr>) = dev_ok x" "dev_ok (x\<lparr>frmr_type := b8\<rparr>) = dev_ok x"
  by (simp_all add: dev_ok_def)

lemma dev_ok_helpers [simp]:
  "dev_ok (x75_start_t1timer L x) = dev_ok x" "dev_ok (x75_start_t2timer L x) = dev_ok x"
  "dev_ok (x75_stop_t1timer L x) = dev_ok x" "dev_ok (x75_stop_t2timer L x) = dev_ok x"
  "dev_ok (x75_reset_link x) = dev_ok x" "dev_ok (x75_clear_queues L x) = dev_ok x"
  "dev_ok (enq_write L m x) = dev_ok x" "dev_ok (enq_ack L m x) = dev_ok x"
  "dev_ok (snd (deq_write L x)) = dev_ok x" "dev_ok (snd (deq_ack L x)) = dev_ok x"
  by (simp_all add: x75_start_t1timer_def x75_start_t2timer_def x75_stop_t1timer_def x75_stop_t2timer_def
      x75_reset_link_def x75_clear_queues_def enq_write_def enq_ack_def deq_write_def deq_ack_def
      Let_def split_beta)

lemma deq_write_dev: "deq_write L x = (s, y) \<Longrightarrow> dev_ok y = dev_ok x"
  using dev_ok_helpers(9) [of L x] by simp

lemma dev_ok_callbacks:
  assumes "dev_ok x"
  shows "dev_ok (x75_connect_confirmation r x)" "dev_ok (x75_connect_indication r x)"
    "dev_ok (x75_disconnect_confirmation r x)" "dev_ok (x75_disconnect_indication r x)"
    "dev_ok (snd (x75_data_indication m x))" "dev_ok (snd (x75_data_transmit m x))"
  using assms confirmation indication disconfirmation disindication data transmit
  by (auto simp: dev_ok_def x75_connect_confirmation_def x75_connect_indication_def
      x75_disconnect_confirmation_def x75_disconnect_indication_def x75_data_indication_def
      x75_data_transmit_def split_beta split: option.splits)

lemma safe_seqs [dev_rules]:
  "dev_ok x \<Longrightarrow> (\<And>f y. f \<in> set fs \<Longrightarrow> dev_ok y \<Longrightarrow> safe (f y)) \<Longrightarrow> safe (seqs fs x)"
proof (induction fs arbitrary: x)
  case (Cons f fs)
  then have "safe (f x)" by simp
  with Cons show ?case by (cases "f x") (auto simp: seqs.simps)
qed simp

lemma safe_while:
  assumes "dev_ok (proj s)" and "\<And>s. dev_ok (proj s) \<Longrightarrow> dev_ok (proj (c s))"
    and "while_option b c s = Some t"
  shows "dev_ok (proj t)"
  using while_option_rule [of "\<lambda>s. dev_ok (proj s)" b c s t] assms by blast

section \<open>Sending\<close>

lemma safe_transmit [dev_rules]: "dev_ok x \<Longrightarrow> safe (x75_transmit_buffer L m type x)"
  by (auto simp: x75_transmit_buffer_def Let_def dev_ok_callbacks split: option.split)

lemma safe_control [dev_rules]: "dev_ok x \<Longrightarrow> safe (x75_send_control L frametype poll type x)"
  by (auto simp: x75_send_control_def Let_def safe_transmit split: option.split)

lemma safe_frmr [dev_rules]: "dev_ok x \<Longrightarrow> safe (x75_transmit_frmr L x)"
  by (auto simp: x75_transmit_frmr_def Let_def safe_transmit split: option.split)

lemma safe_iframe [dev_rules]: "dev_ok x \<Longrightarrow> safe (x75_send_iframe L m poll x)"
  by (auto simp: x75_send_iframe_def safe_transmit split: option.split)

lemma safe_acked [dev_rules]: "dev_ok x \<Longrightarrow> safe (x75_frames_acked L nr x)"
  using safe_while [of id x "\<lambda>x. let (skb, x) = deq_ack L x in x\<lparr>va := (va x + 1) mod modulus x\<rparr>"]
    dev_ok_helpers(10)
  by (auto simp: x75_frames_acked_def Let_def split_beta split: option.split)

lemma safe_requeue [dev_rules]: "dev_ok x \<Longrightarrow> safe (x75_requeue_frames L x)"
  using safe_while [of snd "deq_ack L x"
      "\<lambda>(skb, x). case skb of None \<Rightarrow> (skb, x) | Some m \<Rightarrow> deq_ack L (enq_write L m x)"]
  by (auto simp: x75_requeue_frames_def split: option.split)

lemma safe_kick_body:
  assumes "dev_ok x" and "x75_kick_body L e m x = Inr (s, y)"
  shows "dev_ok y"
proof (cases "msgb_copy L m")
  case (Some m')
  have "safe (x75_send_iframe L (Some m') X75_POLLOFF x)"
    using assms(1) by (rule safe_iframe)
  with Some assms(2) show ?thesis
    by (auto simp: x75_kick_body_def Let_def dest!: deq_write_dev split: sum.splits if_splits)
qed (use assms in \<open>simp add: x75_kick_body_def\<close>)

lemma safe_kick [dev_rules]:
  assumes "dev_ok x"
  shows "safe (x75_kick L x)"
proof -
  have loop: "safe (x75_kick_loop L e (Inr (Some m, y)))" if "dev_ok y" for e m y
  proof -
    let ?I = "\<lambda>r. case r of Inl f \<Rightarrow> True | Inr (s, y) \<Rightarrow> dev_ok y"
    have "?I t" if "while_option (\<lambda>r. case r of Inl e \<Rightarrow> False | Inr (skb, x) \<Rightarrow> skb \<noteq> None)
         (\<lambda>r. case r of Inl e \<Rightarrow> r
            | Inr (skb, x) \<Rightarrow> (case skb of None \<Rightarrow> r | Some m \<Rightarrow> x75_kick_body L e m x)) (Inr (Some m, y)) = Some t" for t
      using that
      by (rule while_option_rule [of ?I, rotated])
         (use \<open>dev_ok y\<close> in \<open>auto dest: safe_kick_body split: sum.splits prod.splits option.splits\<close>)
    then show ?thesis
      by (auto simp: x75_kick_loop_def simp del: not_None_eq split: option.split sum.split)
  qed
  show ?thesis
    using assms loop
    by (auto simp: x75_kick_def Let_def dest!: deq_write_dev intro!: safe_seqs split: prod.split option.split)
qed

section \<open>All calls\<close>

lemma safe_establish [dev_rules]: "dev_ok x \<Longrightarrow> safe (x75_establish_data_link L x)"
  unfolding x75_establish_data_link_def by (auto intro!: dev_rules)

lemma safe_enquiry [dev_rules]: "dev_ok x \<Longrightarrow> safe (x75_enquiry_response L x)"
  unfolding x75_enquiry_response_def by (auto intro!: dev_rules)

lemma safe_timeout [dev_rules]: "dev_ok x \<Longrightarrow> safe (x75_timeout_response L x)"
  unfolding x75_timeout_response_def by (auto intro!: dev_rules)

lemma safe_check_acked [dev_rules]: "dev_ok x \<Longrightarrow> safe (x75_check_iframes_acked L nr x)"
  unfolding x75_check_iframes_acked_def by (auto intro!: dev_rules)

lemma safe_need_response [dev_rules]: "dev_ok x \<Longrightarrow> safe (x75_check_need_response L type pf x)"
  unfolding x75_check_need_response_def by (auto intro!: dev_rules)

lemma safe_reject [dev_rules]: "dev_ok x \<Longrightarrow> safe (x75_frame_reject L frame reason x)"
  unfolding x75_frame_reject_def by (auto intro!: dev_rules)

lemma safe_state3 [dev_rules]:
  assumes "dev_ok x"
  shows "safe (x75_state3_reset L pf x)" "safe (x75_state3_rr L busy frame x)"
    "safe (x75_state3_rej L frame x)" "safe (x75_state3_accept L m frame x)" "safe (x75_state3_i L m frame x)"
proof -
  have accept: "safe (x75_state3_accept L m frame y)" if "dev_ok y" for y
    using that unfolding x75_state3_accept_def by (auto intro!: dev_rules dev_ok_callbacks)
  show "safe (x75_state3_accept L m frame x)"
    using assms by (rule accept)
  show "safe (x75_state3_reset L pf x)" "safe (x75_state3_rr L busy frame x)" "safe (x75_state3_rej L frame x)"
    using assms unfolding x75_state3_reset_def x75_state3_rr_def x75_state3_rej_def
    by (auto intro!: dev_rules split: sum.split)
  show "safe (x75_state3_i L m frame x)"
    using assms accept unfolding x75_state3_i_def by (auto intro!: dev_rules split: sum.split)
qed

lemma safe_accept_connection [dev_rules]: "dev_ok x \<Longrightarrow> safe (x75_accept_connection L pf x)"
  unfolding x75_accept_connection_def by (auto intro!: dev_rules dev_ok_callbacks)

lemma safe_machine [dev_rules]: "dev_ok x \<Longrightarrow> safe (x75_machine L m frame x)"
  by (cases "state x")
     (auto simp: x75_machine_def x75_state0_machine_def x75_state1_machine_def x75_state2_machine_def
        x75_state3_machine_def x75_state4_machine_def intro!: dev_rules dev_ok_callbacks)

lemma safe_input: "dev_ok x \<Longrightarrow> safe (x75_data_input L stack m x)"
  unfolding x75_data_input_def by (auto intro!: dev_rules split: option.split)

lemma safe_give_up [dev_rules]:
  "dev_ok x \<Longrightarrow> (\<And>y. dev_ok y \<Longrightarrow> dev_ok (report y)) \<Longrightarrow> safe (x75_t1_give_up L report x)"
  unfolding x75_t1_give_up_def by (auto intro!: dev_rules)

lemma safe_timer [dev_rules]: "dev_ok x \<Longrightarrow> safe (x75_timer_call L f x)"
  by (cases "state x")
     (auto simp: x75_timer_call_def x75_t1timer_expiry_def x75_t2timer_expiry_def
        intro!: dev_rules dev_ok_callbacks split: option.split timer_fn.split)

lemma safe_with_rc [simp]: "safe (map_sum id snd (with_rc rc r)) = safe r"
  by (simp add: safe_def)

lemma safe_step: "dev_ok x \<Longrightarrow> safe (x75_step L stack ev x)"
  by (cases ev)
     (auto simp: x75_step_def x75_data_received_def x75_data_request_def x75_connect_request_def
        x75_disconnect_request_def x75_t1timer_due_def x75_t2timer_due_def safe_input
        intro!: dev_rules split: x75_state.split)

end

end
