(* ===== verification/Telnet.thy ===== *)
theory Telnet
  imports Ras_Prelude
begin

text \<open>
  The telnet connection of the call handlers, \<open>src/telnet.c\<close>, and how \<open>main\<close> of
  \<open>src/yate_x75.c\<close> and \<open>src/yate_tty.c\<close> reads host name and port from the command line.
\<close>

section \<open>The connection\<close>

record osmo_fd =
  ofd_fd :: int
  ofd_when :: u32
  ofd_cb :: bool

definition OSMO_FD_READ :: u32 where "OSMO_FD_READ = 1"

definition OSMO_FD_EXCEPT :: u32 where "OSMO_FD_EXCEPT = 4"

definition ofd_reads :: "osmo_fd \<Rightarrow> bool" where
  "ofd_reads f \<longleftrightarrow> ofd_when f AND OSMO_FD_READ \<noteq> 0"

text \<open>
  The library and the system: \<open>sock_init\<close> connects to a host and port and gives a result with
  the descriptor it stored, if it stored one; \<open>set_nodelay\<close> is \<open>setsockopt\<close> with the option's
  value.
\<close>

record sock_api =
  sock_init :: "string \<Rightarrow> u16 \<Rightarrow> int \<times> int option"
  set_nodelay :: "int \<Rightarrow> int \<Rightarrow> int"

text \<open>
  \<open>on\<close> is an uninitialised variable, \<open>telnet_ofd\<close> the static structure, \<open>ofd\<close> whether the caller's
  pointer is set to it. The result is \<open>rc\<close>, the structure and the pointer.
\<close>

definition telnet_init ::
    "sock_api \<Rightarrow> int \<Rightarrow> string \<Rightarrow> u16 \<Rightarrow> osmo_fd \<Rightarrow> bool \<Rightarrow> int \<times> osmo_fd \<times> bool" where
  "telnet_init S on hostname port telnet_ofd ofd =
     (let telnet_ofd = telnet_ofd\<lparr>ofd_cb := True, ofd_when := OSMO_FD_READ OR OSMO_FD_EXCEPT\<rparr>;
          (rc, stored) = sock_init S hostname port;
          telnet_ofd = (case stored of None \<Rightarrow> telnet_ofd | Some i \<Rightarrow> telnet_ofd\<lparr>ofd_fd := i\<rparr>);
          ret = set_nodelay S (ofd_fd telnet_ofd) on in
      if ret \<noteq> 0 then (rc, telnet_ofd, ofd)
      else (rc, telnet_ofd, True))"

section \<open>The command line\<close>

definition isspace :: "char \<Rightarrow> bool" where
  "isspace c \<longleftrightarrow> c \<in> {CHR 0x20, CHR 0x09, CHR 0x0A, CHR 0x0B, CHR 0x0C, CHR 0x0D}"

definition isdigit :: "char \<Rightarrow> bool" where
  "isdigit c \<longleftrightarrow> 48 \<le> (of_char c :: nat) \<and> (of_char c :: nat) \<le> 57"

definition digit_val :: "char \<Rightarrow> int" where
  "digit_val c = of_char c - 48"

text \<open>
  \<open>atoi\<close> skips white space, reads an optional sign and then digits. Values that an \<open>int\<close>
  cannot hold are undefined in C; the number itself stands for them here.
\<close>

definition dec_val :: "string \<Rightarrow> int" where
  "dec_val s = foldl (\<lambda>n c. 10 * n + digit_val c) 0 (takeWhile isdigit s)"

definition atoi :: "string \<Rightarrow> int" where
  "atoi s = (case dropWhile isspace s of
      [] \<Rightarrow> 0
    | c # cs \<Rightarrow> if c = CHR ''-'' then - dec_val cs
                else if c = CHR ''+'' then dec_val cs else dec_val (c # cs))"

text \<open>The arguments of \<open>main\<close>, the name of the program first; the port is cut to 16 bits.\<close>

definition main_args :: "string list \<Rightarrow> fault + string \<times> u16" where
  "main_args argv =
     (if length argv \<noteq> 2 \<and> length argv \<noteq> 3 then Inl ExitFailure
      else if length argv = 3 then Inr (argv ! 1, of_int (atoi (argv ! 2)))
      else (case dropWhile (\<lambda>c. c \<noteq> CHR '' '') (argv ! 1) of
              [] \<Rightarrow> Inl ExitFailure
            | _ # rest \<Rightarrow> Inr (takeWhile (\<lambda>c. c \<noteq> CHR '' '') (argv ! 1), of_int (atoi rest))))"

section \<open>Facts\<close>

lemma telnet_reads [simp]: "ofd_reads (fst (snd (telnet_init S on h p f b)))"
  by (simp add: telnet_init_def ofd_reads_def OSMO_FD_READ_def OSMO_FD_EXCEPT_def Let_def
      split: prod.splits option.splits)

text \<open>The engine passes both arguments as one: it is the same as passing them apart.\<close>

lemma main_args_joined:
  assumes "CHR '' '' \<notin> set host"
  shows "main_args [prog, host @ '' '' @ port] = main_args [prog, host, port]"
proof -
  have "takeWhile (\<lambda>c. c \<noteq> CHR '' '') host = host" and "dropWhile (\<lambda>c. c \<noteq> CHR '' '') host = []"
    using assms by (auto simp: takeWhile_eq_all_conv)
  then show ?thesis
    by (simp add: main_args_def takeWhile_append dropWhile_append)
qed

text \<open>The decimal notation of a port number is read back.\<close>

fun dec :: "nat \<Rightarrow> string" where
  "dec n = (if n < 10 then [] else dec (n div 10)) @ [char_of (48 + n mod 10)]"

declare dec.simps [simp del]

lemma digit_char:
  assumes "d < 10"
  shows "isdigit (char_of (48 + d))" and "digit_val (char_of (48 + d)) = int d"
    and "\<not> isspace (char_of (48 + d))"
proof -
  have "d \<in> set [0..<10]" using assms by simp
  moreover have "list_all (\<lambda>d. isdigit (char_of (48 + d)) \<and> digit_val (char_of (48 + d)) = int d \<and>
      \<not> isspace (char_of (48 + d))) [0..<10]"
    by code_simp
  ultimately show "isdigit (char_of (48 + d))" and "digit_val (char_of (48 + d)) = int d"
      and "\<not> isspace (char_of (48 + d))"
    by (auto simp: list_all_iff)
qed

lemma dec_digits: "list_all isdigit (dec n)" "foldl (\<lambda>n c. 10 * n + digit_val c) 0 (dec n) = int n"
proof (induction n rule: dec.induct)
  case (1 n)
  have m: "n mod 10 < 10" by simp
  have "10 * int (n div 10) + int (n mod 10) = int n"
    by (simp add: zdiv_int zmod_int)
  moreover have "dec n = (if n < 10 then [] else dec (n div 10)) @ [char_of (48 + n mod 10)]"
    by (rule dec.simps)
  ultimately show "list_all isdigit (dec n)" and "foldl (\<lambda>n c. 10 * n + digit_val c) 0 (dec n) = int n"
    using 1 digit_char [OF m] by auto
qed

lemma atoi_dec: "atoi (dec n) = int n"
proof -
  have all: "takeWhile isdigit (dec n) = dec n"
    using dec_digits(1) by (auto simp: list_all_iff takeWhile_eq_all_conv)
  obtain c cs where d: "dec n = c # cs"
    by (cases "dec n") (use dec.simps [of n] in auto)
  then have "isdigit c" using dec_digits(1) [of n] by simp
  then have "\<not> isspace c" and "c \<noteq> CHR ''-''" and "c \<noteq> CHR ''+''"
    by (auto simp: isdigit_def isspace_def)
  then show ?thesis
    using dec_digits(2) [of n] all by (simp add: atoi_def dec_val_def d)
qed

lemma main_args_port: "p < 65536 \<Longrightarrow> main_args [prog, host, dec p] = Inr (host, of_nat p)"
  by (simp add: main_args_def atoi_dec)

end
