(* ===== verification/Gsmtap.thy ===== *)
theory Gsmtap
  imports Ras_Prelude
begin

text \<open>
  The packet capture, \<open>src/gsmtap.c\<close>: a header in front of a packet, written to a socket. The
  layout of the header and its numbers are libosmocore's; whether \<open>malloc\<close> succeeds for the
  packet number \<open>n\<close> and what \<open>write\<close> then returns are answers of the system.
\<close>

record gsmtap_hdr =
  gh_version :: byte
  gh_hdr_len :: byte
  gh_arfcn :: u16
  gh_type :: byte
  gh_sub_type :: byte

text \<open>\<open>hdr_bytes\<close> lays out a header, its other fields zero, with \<open>arfcn\<close> in network byte order.\<close>

record gsmtap_api =
  hdr_bytes :: "gsmtap_hdr \<Rightarrow> byte list"
  sizeof_hdr :: nat
  GSMTAP_VERSION :: byte
  GSMTAP_TYPE_E1T1 :: byte
  GSMTAP_TYPE_GSM_RLP :: byte
  GSMTAP_E1T1_X75 :: byte
  gsmtap_malloc :: "nat \<Rightarrow> bool"
  gsmtap_write :: "nat \<Rightarrow> int"

locale gsmtap_lib =
  fixes G :: gsmtap_api
  assumes hdr_length: "length (hdr_bytes G h) = sizeof_hdr G"
    and hdr_size: "sizeof_hdr G < 1024"

abbreviation (input) GSMTAP_ARFCN_F_UPLINK :: u16 where "GSMTAP_ARFCN_F_UPLINK \<equiv> 0x4000"
abbreviation (input) GSMTAP_E1T1_PPP :: byte where "GSMTAP_E1T1_PPP \<equiv> 0x0b"
abbreviation (input) EEXIST :: int where "EEXIST \<equiv> 17"
abbreviation (input) EIO :: int where "EIO \<equiv> 5"
abbreviation (input) ENOMEM :: int where "ENOMEM \<equiv> 12"

text \<open>
  \<open>g_gti\<close> tells whether the pointer is set. \<open>gsmtap_log\<close> is the history of the packets handed to the
  routines of this file, \<open>gsmtap_out\<close> what the socket took: a datagram as a whole or, when the
  write fails, nothing.
\<close>

record gsmtap =
  g_gti :: bool
  gsmtap_log :: "(gsmtap_hdr \<times> byte list) list"
  gsmtap_out :: "byte list list"

definition gsmtap_statics :: gsmtap where
  "gsmtap_statics = \<lparr>g_gti = False, gsmtap_log = [], gsmtap_out = []\<rparr>"

text \<open>\<open>source\<close> tells whether \<open>gsmtap_source_init\<close> gives an instance.\<close>

definition gsmtap_init :: "bool \<Rightarrow> gsmtap \<Rightarrow> int \<times> gsmtap" where
  "gsmtap_init source g =
     (if g_gti g then (- EEXIST, g)
      else if \<not> source then (- EIO, g)
      else (0, g\<lparr>g_gti := True\<rparr>))"

text \<open>
  Both sending routines: the packet is put together in a buffer of \<open>len\<close> and the header's
  size, computed on 32 bits.
\<close>

definition gsmtap_send ::
    "gsmtap_api \<Rightarrow> gsmtap_hdr \<Rightarrow> byte list \<Rightarrow> u32 \<Rightarrow> gsmtap \<Rightarrow> fault + int \<times> gsmtap" where
  "gsmtap_send G gh data len g =
     (let n = length (gsmtap_log g);
          g = g\<lparr>gsmtap_log := gsmtap_log g @ [(gh, take (unat len) data)]\<rparr>;
          gross_len = len + of_nat (sizeof_hdr G) in
      if \<not> gsmtap_malloc G n then Inr (- ENOMEM, g)
      else if unat gross_len < sizeof_hdr G then Inl ArrayOverrun
      else if unat gross_len < sizeof_hdr G + unat len \<or> length data < unat len then Inl ArrayOverrun
      else if \<not> g_gti g then Inl NullDeref
      else if gsmtap_write G n < 0 then Inr (gsmtap_write G n, g)
      else Inr (0, g\<lparr>gsmtap_out := gsmtap_out g @ [hdr_bytes G gh @ take (unat len) data]\<rparr>))"

definition packet_hdr :: "gsmtap_api \<Rightarrow> byte \<Rightarrow> bool \<Rightarrow> gsmtap_hdr" where
  "packet_hdr G sub_type network_to_user =
     \<lparr>gh_version = GSMTAP_VERSION G, gh_hdr_len = of_nat (sizeof_hdr G div 4),
      gh_arfcn = (if network_to_user then GSMTAP_ARFCN_F_UPLINK else 0),
      gh_type = GSMTAP_TYPE_E1T1 G, gh_sub_type = sub_type\<rparr>"

definition gsmtap_send_packet ::
    "gsmtap_api \<Rightarrow> byte \<Rightarrow> bool \<Rightarrow> byte list \<Rightarrow> u32 \<Rightarrow> gsmtap \<Rightarrow> fault + int \<times> gsmtap" where
  "gsmtap_send_packet G sub_type network_to_user data len g =
     gsmtap_send G (packet_hdr G sub_type network_to_user) data len g"

definition rlp_hdr :: "gsmtap_api \<Rightarrow> bool \<Rightarrow> gsmtap_hdr" where
  "rlp_hdr G network_to_user =
     \<lparr>gh_version = GSMTAP_VERSION G, gh_hdr_len = of_nat (sizeof_hdr G div 4),
      gh_arfcn = (if network_to_user then GSMTAP_ARFCN_F_UPLINK else 0),
      gh_type = GSMTAP_TYPE_GSM_RLP G, gh_sub_type = 0\<rparr>"

definition gsmtap_send_rlp ::
    "gsmtap_api \<Rightarrow> bool \<Rightarrow> byte list \<Rightarrow> u32 \<Rightarrow> gsmtap \<Rightarrow> fault + int \<times> gsmtap" where
  "gsmtap_send_rlp G network_to_user data len g = gsmtap_send G (rlp_hdr G network_to_user) data len g"

section \<open>What a capture does\<close>

text \<open>
  The packets of a history, from number \<open>n\<close> on, that reached the socket: those for which there
  was memory and whose write did not fail, each behind its header.
\<close>

primrec packets :: "gsmtap_api \<Rightarrow> nat \<Rightarrow> (gsmtap_hdr \<times> byte list) list \<Rightarrow> byte list list" where
  "packets G n [] = []"
| "packets G n (c # cs) =
     (if gsmtap_malloc G n \<and> 0 \<le> gsmtap_write G n then [hdr_bytes G (fst c) @ snd c] else []) @ packets G (Suc n) cs"

lemma packets_append: "packets G n (cs @ ds) = packets G n cs @ packets G (n + length cs) ds"
  by (induction cs arbitrary: n) simp_all

lemma packets_all:
  "(\<And>n. gsmtap_malloc G n \<and> 0 \<le> gsmtap_write G n) \<Longrightarrow> packets G n cs = map (\<lambda>(h, p). hdr_bytes G h @ p) cs"
  by (induction cs arbitrary: n) auto

text \<open>What reached the socket is what the history says.\<close>

definition gsmtap_ok :: "gsmtap_api \<Rightarrow> gsmtap \<Rightarrow> bool" where
  "gsmtap_ok G g \<longleftrightarrow> gsmtap_out g = packets G 0 (gsmtap_log g)"

lemma gsmtap_ok_init [simp]: "gsmtap_ok G (snd (gsmtap_init source gsmtap_statics))"
    "gsmtap_log (snd (gsmtap_init source gsmtap_statics)) = []" "g_gti (snd (gsmtap_init source gsmtap_statics)) = source"
    "gsmtap_out (snd (gsmtap_init source gsmtap_statics)) = []"
  by (simp_all add: gsmtap_ok_def gsmtap_init_def gsmtap_statics_def)

text \<open>From \<open>g\<close> to \<open>g'\<close> one packet was handed over.\<close>

definition gsmtap_next :: "gsmtap_api \<Rightarrow> gsmtap_hdr \<times> byte list \<Rightarrow> gsmtap \<Rightarrow> gsmtap \<Rightarrow> bool" where
  "gsmtap_next G c g g' \<longleftrightarrow> gsmtap_log g' = gsmtap_log g @ [c] \<and> g_gti g' = g_gti g \<and>
     (gsmtap_ok G g \<longrightarrow> gsmtap_ok G g')"

context gsmtap_lib
begin

lemma gross_len:
  assumes "length data < 2 ^ 31"
  shows "unat (of_nat (length data) :: u32) = length data"
    "unat (of_nat (length data) + of_nat (sizeof_hdr G) :: u32) = length data + sizeof_hdr G"
  using assms hdr_size by (simp_all add: unat_of_nat flip: of_nat_add)

text \<open>A packet of the length that is announced: without the socket it may end the process, else nothing does.\<close>

lemma send_next:
  assumes "length data < 2 ^ 31"
  shows "ends (if g_gti g then {} else {NullDeref}) (\<lambda>(rc, g'). gsmtap_next G (gh, data) g g')
    (gsmtap_send G gh data (of_nat (length data)) g)"
  using gross_len [OF assms]
  by (simp add: gsmtap_send_def Let_def gsmtap_next_def gsmtap_ok_def packets_append)

lemma packet_next:
  assumes "length data < 2 ^ 31"
  shows "ends (if g_gti g then {} else {NullDeref}) (\<lambda>(rc, g'). gsmtap_next G (packet_hdr G st dir, data) g g')
    (gsmtap_send_packet G st dir data (of_nat (length data)) g)"
  unfolding gsmtap_send_packet_def using assms by (rule send_next)

text \<open>A negative length, such as that of a packet shorter than the header to be skipped.\<close>

lemma send_negative:
  assumes "0 < sizeof_hdr G" and "gsmtap_malloc G (length (gsmtap_log g))"
  shows "gsmtap_send G gh data (- 1) g = Inl ArrayOverrun"
proof -
  have "(- 1 :: u32) + of_nat (sizeof_hdr G) = of_nat (sizeof_hdr G - 1)"
    using assms(1) by (simp add: of_nat_diff)
  then have "unat ((- 1 :: u32) + of_nat (sizeof_hdr G)) = sizeof_hdr G - 1"
    using hdr_size by (simp add: unat_of_nat)
  with assms show ?thesis
    by (simp add: gsmtap_send_def Let_def)
qed

text \<open>The main routines ignore that \<open>gsmtap_init\<close> failed; the first capture with memory for it then dies.\<close>

lemma send_without_source:
  assumes "length data < 2 ^ 31" and "g = snd (gsmtap_init False gsmtap_statics)" and "gsmtap_malloc G 0"
  shows "gsmtap_send G gh data (of_nat (length data)) g = Inl NullDeref"
  using gross_len [OF assms(1)] assms(2,3) by (simp add: gsmtap_send_def gsmtap_init_def gsmtap_statics_def Let_def)

end

text \<open>The header as libosmocore lays it out, sixteen bytes, on a system that takes every packet.\<close>

definition lab_gsmtap :: gsmtap_api where
  "lab_gsmtap = \<lparr>
     hdr_bytes = (\<lambda>h. [gh_version h, gh_hdr_len h, gh_type h, 0, ucast (drop_bit 8 (gh_arfcn h)), ucast (gh_arfcn h),
        0, 0, 0, 0, 0, 0, gh_sub_type h, 0, 0, 0]),
     sizeof_hdr = 16, GSMTAP_VERSION = 2, GSMTAP_TYPE_E1T1 = 0x13, GSMTAP_TYPE_GSM_RLP = 0x14, GSMTAP_E1T1_X75 = 7,
     gsmtap_malloc = (\<lambda>n. True), gsmtap_write = (\<lambda>n. 18)\<rparr>"

interpretation lg: gsmtap_lib lab_gsmtap
  by unfold_locales (simp_all add: lab_gsmtap_def)

lemma lab_capture:
  "map_sum id (\<lambda>(rc, g). (rc, gsmtap_out g))
     (gsmtap_send_packet lab_gsmtap 3 True [0xAA, 0xBB] 2 (snd (gsmtap_init True gsmtap_statics))) =
     Inr (0, [[2, 4, 0x13, 0, 0x40, 0, 0, 0, 0, 0, 0, 0, 3, 0, 0, 0, 0xAA, 0xBB]])"
  by code_simp

end
