(* ===== verification/X75_Call.thy ===== *)
theory X75_Call
  imports X75_Dev X75_Receive Isdn_Line Telnet Gsmtap
begin

text \<open>
  The X.75 call handler, \<open>src/yate_x75.c\<close>: a telnet connection on one side, the link layer
  in the middle, the HDLC channel on the other. The globals that the layer's call-backs
  work on are the user data \<open>dev\<close> of the control block; the others are in \<open>yate_x75\<close>.

  A call-back that dies, because memory for a copy could not be had or the capture socket is
  not open, leaves the fault in \<open>x_fault\<close>; what follows of the call has no effect on the line, and
  the handler that called the layer ends with the fault. Copies of the frames go to the packet
  capture of \<open>Gsmtap\<close>, whose results are ignored. \<open>telnet_out\<close> is what was handed to \<open>write\<close> for the
  telnet connection; the handler does not look at what that returns.
\<close>

section \<open>State\<close>

datatype yatex75 = YATEX75_IDLE | YATEX75_TCPCONNECTED | YATEX75_X75CONNECTED
  | YATEX75_TCPDISCONNECTED | YATEX75_X75DISCONNECTED

record ('m, 'q, 'h) yate_dev =
  x_line :: "('m, 'q, 'h) hdlc_line"
  call_state :: yatex75
  telnet_ofd :: bool
  telnet_out :: "byte list"
  x_gsmtap :: gsmtap
  x_fault :: "fault option"

record ('m, 'q, 't, 'h) yate_x75 =
  x75_instance :: "(('m, 'q, 'h) yate_dev, 'm, 'q, 't) x75_cb"
  x_hdlc_rx :: 'h
  x_hdlc_rx_buf :: "byte list"
  telnet_read :: bool
  disconnect_close_timer :: 't
  force_exit_timer :: 't

abbreviation (input) X75_FLOW_CONTROL_MAX_WRITE_QUEUE :: nat where
  "X75_FLOW_CONTROL_MAX_WRITE_QUEUE \<equiv> 8"

text \<open>A call into the link layer, and what its call-backs left behind.\<close>

definition x75_call ::
    "((('m, 'q, 'h) yate_dev, 'm, 'q, 't) x75_cb \<Rightarrow> fault + nat \<times> (('m, 'q, 'h) yate_dev, 'm, 'q, 't) x75_cb)
     \<Rightarrow> ('m, 'q, 't, 'h) yate_x75 \<Rightarrow> fault + ('m, 'q, 't, 'h) yate_x75" where
  "x75_call f y =
     (case f (x75_instance y) of
        Inl e \<Rightarrow> Inl e
      | Inr (rc, x) \<Rightarrow>
          (case x_fault (dev x) of Some e \<Rightarrow> Inl e | None \<Rightarrow> Inr (y\<lparr>x75_instance := x\<rparr>)))"

section \<open>Call-backs of the link layer\<close>

definition yate_x75_connected :: "('m, 'q, 'h) yate_dev \<Rightarrow> nat \<Rightarrow> ('m, 'q, 'h) yate_dev" where
  "yate_x75_connected d reason = d\<lparr>call_state := YATEX75_X75CONNECTED\<rparr>"

definition yate_x75_disconnected :: "('m, 'q, 'h) yate_dev \<Rightarrow> nat \<Rightarrow> ('m, 'q, 'h) yate_dev" where
  "yate_x75_disconnected d reason = d\<lparr>call_state := YATEX75_X75DISCONNECTED\<rparr>"

definition yate_x75_data_indication ::
    "('m, 'q, 't) osmo_api \<Rightarrow> ('m, 'q, 'h) yate_dev \<Rightarrow> 'm \<Rightarrow> int \<times> ('m, 'q, 'h) yate_dev" where
  "yate_x75_data_indication L d skb =
     (0, if telnet_ofd d then d\<lparr>telnet_out := telnet_out d @ msgb_data L skb\<rparr> else d)"

text \<open>Queueing a copy of some bytes for the channel, with a capture in the given direction.\<close>

definition isdn_queue ::
    "('m, 'q, 't) osmo_api \<Rightarrow> gsmtap_api \<Rightarrow> bool \<Rightarrow> byte list \<Rightarrow> ('m, 'q, 'h) yate_dev \<Rightarrow> ('m, 'q, 'h) yate_dev" where
  "isdn_queue L G network_to_user buf d =
     (let msg = msgb_alloc L (length buf mod 65536) in
      if x_fault d \<noteq> None then d
      else
        case gsmtap_send_packet G (GSMTAP_E1T1_X75 G) network_to_user buf (of_nat (length buf)) (x_gsmtap d) of
          Inl e \<Rightarrow> d\<lparr>x_fault := Some e\<rparr>
        | Inr (rc, g) \<Rightarrow>
            let d = d\<lparr>x_gsmtap := g\<rparr> in
            (case msg of
               None \<Rightarrow> d\<lparr>x_fault := Some NullDeref\<rparr>
             | Some msg \<Rightarrow>
                 (case msgb_put L msg (length buf) of
                    None \<Rightarrow> d\<lparr>x_fault := Some MsgbAbort\<rparr>
                  | Some msg \<Rightarrow>
                      let t = x_line d in
                      d\<lparr>x_line := t\<lparr>isdn_hdlc_tx_queue :=
                          msgb_enqueue L (isdn_hdlc_tx_queue t) (msgb_wrs L msg 0 buf)\<rparr>\<rparr>)))"

definition isdn_packet_tx ::
    "('m, 'q, 't) osmo_api \<Rightarrow> gsmtap_api \<Rightarrow> byte list \<Rightarrow> ('m, 'q, 'h) yate_dev \<Rightarrow> ('m, 'q, 'h) yate_dev" where
  "isdn_packet_tx L G buf d = isdn_queue L G False buf d"

definition yate_x75_data_transmit ::
    "('m, 'q, 't) osmo_api \<Rightarrow> gsmtap_api \<Rightarrow> ('m, 'q, 'h) yate_dev \<Rightarrow> 'm \<Rightarrow> ('m, 'q, 'h) yate_dev" where
  "yate_x75_data_transmit L G d skb = isdn_queue L G True (msgb_data L skb) d"

definition yate_cb :: "('m, 'q, 't) osmo_api \<Rightarrow> gsmtap_api \<Rightarrow> (('m, 'q, 'h) yate_dev, 'm) x75_register_struct" where
  "yate_cb L G =
     \<lparr>connect_confirmation = Some yate_x75_connected,
      connect_indication = Some yate_x75_connected,
      disconnect_confirmation = Some yate_x75_disconnected,
      disconnect_indication = Some yate_x75_disconnected,
      data_indication = Some (yate_x75_data_indication L),
      data_transmit = Some (yate_x75_data_transmit L G)\<rparr>"

section \<open>Samples\<close>

text \<open>A frame from the channel becomes a message for the link layer.\<close>

definition yate_x75_rx_frame ::
    "('m, 'q, 't) osmo_api \<Rightarrow> gsmtap_api \<Rightarrow> x75_frame \<Rightarrow> byte list \<Rightarrow> ('m, 'q, 't, 'h) yate_x75
     \<Rightarrow> fault + ('m, 'q, 't, 'h) yate_x75" where
  "yate_x75_rx_frame L G stack p y =
     (let x = x75_instance y in
      case gsmtap_send_packet G (GSMTAP_E1T1_X75 G) True p (of_nat (length p)) (x_gsmtap (dev x)) of
        Inl e \<Rightarrow> Inl e
      | Inr (rc, g) \<Rightarrow>
          let y = y\<lparr>x75_instance := x\<lparr>dev := (dev x)\<lparr>x_gsmtap := g\<rparr>\<rparr>\<rparr> in
          (case msgb_alloc_headroom L (length p + 2048) 2048 of
             None \<Rightarrow> Inl NullDeref
           | Some skb \<Rightarrow>
               (case msgb_push L skb (length p) of
                  None \<Rightarrow> Inl MsgbAbort
                | Some skb \<Rightarrow> x75_call (x75_data_received L stack (msgb_wrs L skb 0 p)) y)))"

definition x75_rx_pass ::
    "('m, 'q, 't) osmo_api \<Rightarrow> 'h hdlc_api \<Rightarrow> gsmtap_api \<Rightarrow> x75_frame \<Rightarrow> byte list \<Rightarrow> nat \<times> ('m, 'q, 't, 'h) yate_x75
     \<Rightarrow> fault + nat \<times> ('m, 'q, 't, 'h) yate_x75" where
  "x75_rx_pass L H G stack in_buf = (\<lambda>(samplesProcessed, y).
     let (rv, count, h, dst) = hdlc_decode H (x_hdlc_rx y) (drop samplesProcessed in_buf)
            (x_hdlc_rx_buf y) (length (x_hdlc_rx_buf y) - 5);
         y = y\<lparr>x_hdlc_rx := h, x_hdlc_rx_buf := dst\<rparr>
     in if 0 < rv then
          (case yate_x75_rx_frame L G stack (take (nat rv) dst) y of
             Inl e \<Rightarrow> Inl e
           | Inr y \<Rightarrow> Inr (samplesProcessed + count, y))
        else Inr (samplesProcessed + count, y))"

definition x75_rx_loop ::
    "('m, 'q, 't) osmo_api \<Rightarrow> 'h hdlc_api \<Rightarrow> gsmtap_api \<Rightarrow> x75_frame \<Rightarrow> byte list \<Rightarrow> ('m, 'q, 't, 'h) yate_x75
     \<Rightarrow> fault + ('m, 'q, 't, 'h) yate_x75" where
  "x75_rx_loop L H G stack in_buf y =
     (case while_option
         (\<lambda>r. case r of Inl e \<Rightarrow> False | Inr (samplesProcessed, y) \<Rightarrow> samplesProcessed < length in_buf)
         (\<lambda>r. case r of Inl e \<Rightarrow> r | Inr s \<Rightarrow> x75_rx_pass L H G stack in_buf s) (Inr (0, y)) of
        None \<Rightarrow> Inl Hang
      | Some (Inl e) \<Rightarrow> Inl e
      | Some (Inr (samplesProcessed, y)) \<Rightarrow> Inr y)"

definition x75_handle_sample_buffer ::
    "('m, 'q, 't) osmo_api \<Rightarrow> 'h hdlc_api \<Rightarrow> gsmtap_api \<Rightarrow> x75_frame \<Rightarrow> byte list \<Rightarrow> byte list \<Rightarrow> ('m, 'q, 't, 'h) yate_x75
     \<Rightarrow> fault + byte list \<times> ('m, 'q, 't, 'h) yate_x75" where
  "x75_handle_sample_buffer L H G stack out_buf in_buf y =
     (case x75_rx_loop L H G stack in_buf y of
        Inl e \<Rightarrow> Inl e
      | Inr y \<Rightarrow>
          (let x = x75_instance y in
           case hdlc_tx_loop L H (length in_buf) out_buf (x_line (dev x)) of
             Inl e \<Rightarrow> Inl e
           | Inr (out_buf, t) \<Rightarrow>
               Inr (out_buf, y\<lparr>x75_instance := x\<lparr>dev := (dev x)\<lparr>x_line := t\<rparr>\<rparr>\<rparr>)))"

section \<open>Telnet\<close>

definition x75_can_write :: "('m, 'q, 't, 'h) yate_x75 \<Rightarrow> bool" where
  "x75_can_write y =
     (if state (x75_instance y) \<noteq> X75_STATE_3 \<and> state (x75_instance y) \<noteq> X75_STATE_4 then False
      else if X75_FLOW_CONTROL_MAX_WRITE_QUEUE < write_queue_count (x75_instance y) then False
      else True)"

definition set_call_state :: "yatex75 \<Rightarrow> ('m, 'q, 't, 'h) yate_x75 \<Rightarrow> ('m, 'q, 't, 'h) yate_x75" where
  "set_call_state s y =
     (let x = x75_instance y in y\<lparr>x75_instance := x\<lparr>dev := (dev x)\<lparr>call_state := s\<rparr>\<rparr>\<rparr>)"

text \<open>\<open>rd\<close> is what \<open>read\<close> returned, \<open>None\<close> for an error or the end of the connection.\<close>

definition telnet_rx_cb ::
    "('m, 'q, 't) osmo_api \<Rightarrow> byte list option \<Rightarrow> ('m, 'q, 't, 'h) yate_x75
     \<Rightarrow> fault + int \<times> ('m, 'q, 't, 'h) yate_x75" where
  "telnet_rx_cb L rd y =
     (if \<not> x75_can_write y then Inr (-1, y)
      else
        (case rd of
           None \<Rightarrow> Inr (-1, set_call_state YATEX75_TCPDISCONNECTED y)
         | Some buf \<Rightarrow>
             (case msgb_alloc_headroom L (length buf + 16) 16 of
                None \<Rightarrow> Inl NullDeref
              | Some msg \<Rightarrow>
                  (case msgb_put L msg (length buf) of
                     None \<Rightarrow> Inl MsgbAbort
                   | Some msg \<Rightarrow>
                       (case x75_call (x75_data_request L (msgb_wrs L msg 0 buf)) y of
                          Inl e \<Rightarrow> Inl e
                        | Inr y \<Rightarrow> Inr (0, y))))))"

text \<open>
  The structure of the telnet connection is new; of it the handler uses whether the pointer
  to it is set and whether reading is enabled.
\<close>

definition x75_call_initialize ::
    "sock_api \<Rightarrow> int \<Rightarrow> string \<Rightarrow> u16 \<Rightarrow> osmo_fd \<Rightarrow> ('m, 'q, 't, 'h) yate_x75
     \<Rightarrow> fault + ('m, 'q, 't, 'h) yate_x75" where
  "x75_call_initialize S on hostname port ofd y =
     (let x = x75_instance y;
          (rc, ofd, set) = telnet_init S on hostname port ofd (telnet_ofd (dev x)) in
      if rc < 0 then Inl ExitFailure
      else Inr (set_call_state YATEX75_TCPCONNECTED
        (y\<lparr>x75_instance := x\<lparr>dev := (dev x)\<lparr>telnet_ofd := set\<rparr>\<rparr>, telnet_read := ofd_reads ofd\<rparr>)))"

section \<open>Main loop\<close>

definition disconnect_close_cb ::
    "('m, 'q, 't) osmo_api \<Rightarrow> ('m, 'q, 't, 'h) yate_x75 \<Rightarrow> fault + ('m, 'q, 't, 'h) yate_x75" where
  "disconnect_close_cb L y = x75_call (x75_disconnect_request L) y"

definition force_exit_cb :: "('m, 'q, 't, 'h) yate_x75 \<Rightarrow> fault + ('m, 'q, 't, 'h) yate_x75" where
  "force_exit_cb y = Inl ExitFailure"

text \<open>
  The body of the main loop after \<open>osmo_select_main\<close>: flow control, which accesses the
  telnet descriptor, and the start of an orderly end after the telnet connection is lost.
\<close>

definition x75_main_step ::
    "('m, 'q, 't) osmo_api \<Rightarrow> ('m, 'q, 't, 'h) yate_x75 \<Rightarrow> fault + ('m, 'q, 't, 'h) yate_x75" where
  "x75_main_step L y =
     (if \<not> telnet_ofd (dev (x75_instance y)) then Inl NullDeref
      else
        let s = call_state (dev (x75_instance y));
            y = y\<lparr>telnet_read := (x75_can_write y \<and> s = YATEX75_X75CONNECTED)\<rparr>
        in if s = YATEX75_TCPDISCONNECTED then
             let y = set_call_state YATEX75_X75DISCONNECTED y;
                 y = y\<lparr>disconnect_close_timer :=
                       timer_schedule L (timer_setup L (disconnect_close_timer y) (Some Disconnect_close_cb)) 3 0,
                     force_exit_timer :=
                       timer_schedule L (timer_setup L (force_exit_timer y) (Some Force_exit_cb)) 10 0,
                     telnet_read := False\<rparr>
             in Inr y
           else Inr y)"

end
