(* ===== verification/X75_Channel.thy ===== *)
theory X75_Channel
  imports X75_Call "HOL-Library.Sublist"
begin

text \<open>
  The X.75 call handler on its channel: a buffer of samples never makes the handler hang or
  overrun a message, what is queued for the line reaches the encoder complete and in order,
  and what one station reads from its telnet connection is written to the telnet connection
  of its peer.
\<close>

section \<open>What the handler keeps\<close>

text \<open>
  The handler relies on the library with 16 bit message sizes and enough memory, on the HDLC
  coder, and on the layout of capture headers. \<open>W\<close> are the frames the encoder was given or that
  wait for it at some moment, \<open>C\<close> the packets handed to the capture until then. \<open>b\<close> selects the
  strong invariant of the link layer, for calls with an open telnet connection and capture
  socket in which nothing is discarded.

  \<open>on_capture G ps cs\<close>: the frames \<open>ps\<close> are among the captures \<open>cs\<close>, in this order, and every capture
  has the size of a message and the header of X.75 packets from the network to the user.
\<close>

definition on_capture :: "gsmtap_api \<Rightarrow> byte list list \<Rightarrow> (gsmtap_hdr \<times> byte list) list \<Rightarrow> bool" where
  "on_capture G ps cs \<longleftrightarrow> subseq ps (map snd cs) \<and>
     (\<forall>c \<in> set cs. length (snd c) < 65536 \<and> fst c = packet_hdr G (GSMTAP_E1T1_X75 G) True)"

abbreviation x75_capture :: "gsmtap_api \<Rightarrow> byte list \<Rightarrow> gsmtap_hdr \<times> byte list" where
  "x75_capture G p \<equiv> (packet_hdr G (GSMTAP_E1T1_X75 G) True, p)"

lemma on_capture_Nil [simp]: "on_capture G [] []"
  by (simp add: on_capture_def)

lemma on_capture_append: "on_capture G ps cs \<Longrightarrow> on_capture G qs ds \<Longrightarrow> on_capture G (ps @ qs) (cs @ ds)"
  by (auto simp: on_capture_def list_emb_append_mono)

lemma on_capture_one:
  "length p < 65536 \<Longrightarrow> on_capture G [p] [x75_capture G p]" "length p < 65536 \<Longrightarrow> on_capture G [] [x75_capture G p]"
  by (simp_all add: on_capture_def)

locale yate_line = osmo_mem L + msgb_word L + hdlc_channel L H enc_frames enc_part dec_frames dec_left + gsmtap_lib G
  for L :: "('m, 'q, 't) osmo_api" and H :: "'h hdlc_api" and enc_frames enc_part dec_frames dec_left G +
  fixes W :: "byte list list" and C :: "(gsmtap_hdr \<times> byte list) list" and b :: bool
begin

definition line_live :: "('m, 'q, 'h) yate_dev \<Rightarrow> bool" where
  "line_live d \<longleftrightarrow> x_fault d = None \<and> tx_ok enc_part (x_line d) \<and> gsmtap_ok G (x_gsmtap d) \<and>
     (b \<longrightarrow> telnet_ofd d \<and> g_gti (x_gsmtap d)) \<and>
     (\<exists>ps cs. enc_frames (hdlc_tx (x_line d)) @ tx_waiting L (x_line d) = W @ ps \<and>
        gsmtap_log (x_gsmtap d) = C @ cs \<and> on_capture G ps cs)"

text \<open>Inside a call of the link layer the process may also have died at a capture.\<close>

definition line_kept :: "('m, 'q, 'h) yate_dev \<Rightarrow> bool" where
  "line_kept d \<longleftrightarrow> line_live d \<or> \<not> b \<and> x_fault d = Some NullDeref"

lemma line_live_upd [simp]:
  "line_live (d\<lparr>call_state := s\<rparr>) = line_live d" "line_live (d\<lparr>telnet_out := o'\<rparr>) = line_live d"
  by (simp_all add: line_live_def)

lemma line_kept_upd [simp]:
  "line_kept (d\<lparr>call_state := s\<rparr>) = line_kept d" "line_kept (d\<lparr>telnet_out := o'\<rparr>) = line_kept d"
  by (simp_all add: line_kept_def)

lemma capture_live:
  assumes "line_live d" and "length p < 65536" and "gsmtap_next G (x75_capture G p) (x_gsmtap d) g"
  shows "line_live (d\<lparr>x_gsmtap := g\<rparr>)"
proof -
  obtain ps cs where "enc_frames (hdlc_tx (x_line d)) @ tx_waiting L (x_line d) = W @ ps"
    "gsmtap_log (x_gsmtap d) = C @ cs" "on_capture G ps cs"
    using assms(1) by (auto simp: line_live_def)
  with assms on_capture_append [OF _ on_capture_one(2), of G ps cs p] show ?thesis
    by (auto simp: line_live_def gsmtap_next_def)
qed

end

text \<open>Copying a message into the queue of the line, after its capture.\<close>

context osmo_mem
begin

lemma queue_copy:
  assumes "length buf < 65536" and "x_fault d = None"
    and "gsmtap_send_packet G (GSMTAP_E1T1_X75 G) dir buf (of_nat (length buf)) (x_gsmtap d) = Inr (rc, g)"
  obtains q where
    "isdn_queue L G dir buf d = d\<lparr>x_gsmtap := g, x_line := (x_line d)\<lparr>isdn_hdlc_tx_queue := q\<rparr>\<rparr>"
    and "map (msgb_data L) (msgb_queue L q) = map (msgb_data L) (msgb_queue L (isdn_hdlc_tx_queue (x_line d))) @ [buf]"
proof -
  obtain m where m: "msgb_alloc L (length buf) = Some m"
    using alloc_some by blast
  obtain m' where m': "msgb_put L m (length buf) = Some m'" "msgb_data L (msgb_wrs L m' 0 buf) = buf"
    using put_all [of m buf] alloc [OF m assms(1)] by auto
  show ?thesis
    using assms m m' enqueue_plain
    by (intro that [of "msgb_enqueue L (isdn_hdlc_tx_queue (x_line d)) (msgb_wrs L m' 0 buf)"])
       (simp_all add: isdn_queue_def Let_def)
qed

text \<open>With the capture socket open the copy is queued whatever becomes of the capture.\<close>

lemma queue_waiting:
  assumes "gsmtap_lib G" and "length buf < 65536" and "x_fault d = None" and "g_gti (x_gsmtap d)"
  shows "tx_waiting L (x_line (isdn_queue L G dir buf d)) = tx_waiting L (x_line d) @ (if buf = [] then [] else [buf])"
    and "x_fault (isdn_queue L G dir buf d) = None"
    and "hdlc_tx (x_line (isdn_queue L G dir buf d)) = hdlc_tx (x_line d)"
    and "tx_ok part (x_line (isdn_queue L G dir buf d)) = tx_ok part (x_line d)"
    and "telnet_ofd (isdn_queue L G dir buf d) = telnet_ofd d"
    and "g_gti (x_gsmtap (isdn_queue L G dir buf d))"
    and "telnet_out (isdn_queue L G dir buf d) = telnet_out d"
proof -
  obtain rc g where g: "gsmtap_send_packet G (GSMTAP_E1T1_X75 G) dir buf (of_nat (length buf)) (x_gsmtap d) = Inr (rc, g)"
    "g_gti g"
    using gsmtap_lib.packet_next [OF assms(1), of buf "x_gsmtap d" "GSMTAP_E1T1_X75 G" dir] assms(2,4)
    by (auto simp: ends_total gsmtap_next_def)
  obtain q where q: "isdn_queue L G dir buf d = d\<lparr>x_gsmtap := g, x_line := (x_line d)\<lparr>isdn_hdlc_tx_queue := q\<rparr>\<rparr>"
    "map (msgb_data L) (msgb_queue L q) = map (msgb_data L) (msgb_queue L (isdn_hdlc_tx_queue (x_line d))) @ [buf]"
    by (rule queue_copy [OF assms(2,3) g(1)])
  show "tx_waiting L (x_line (isdn_queue L G dir buf d)) = tx_waiting L (x_line d) @ (if buf = [] then [] else [buf])"
    "x_fault (isdn_queue L G dir buf d) = None"
    "hdlc_tx (x_line (isdn_queue L G dir buf d)) = hdlc_tx (x_line d)"
    "tx_ok part (x_line (isdn_queue L G dir buf d)) = tx_ok part (x_line d)"
    "telnet_ofd (isdn_queue L G dir buf d) = telnet_ofd d"
    "g_gti (x_gsmtap (isdn_queue L G dir buf d))"
    "telnet_out (isdn_queue L G dir buf d) = telnet_out d"
    using assms(3) g(2) by (simp_all add: q tx_waiting_def tx_ok_def)
qed

end

context yate_line
begin

lemma data16: "length (msgb_data L m) < 65536"
  using size16 [of m] by simp

lemma queue_kept:
  assumes "line_kept d" and "length buf < 65536"
  shows "line_kept (isdn_queue L G True buf d)"
proof (cases "x_fault d = None")
  case False
  then have "isdn_queue L G True buf d = d" by (simp add: isdn_queue_def)
  with assms(1) show ?thesis by simp
next
  case True
  then have live: "line_live d" using assms(1) by (simp add: line_kept_def)
  let ?send = "gsmtap_send_packet G (GSMTAP_E1T1_X75 G) True buf (of_nat (length buf)) (x_gsmtap d)"
  have send: "ends (if g_gti (x_gsmtap d) then {} else {NullDeref})
      (\<lambda>(rc, g). gsmtap_next G (x75_capture G buf) (x_gsmtap d) g) ?send"
    using assms(2) by (intro packet_next) simp
  show ?thesis
  proof (cases ?send)
    case (Inl e)
    with send live have "e = NullDeref" "\<not> b" by (auto simp: line_live_def split: if_splits)
    with Inl True show ?thesis unfolding line_kept_def by (simp add: isdn_queue_def)
  next
    case (Inr r)
    then obtain rc g where g: "?send = Inr (rc, g)" "gsmtap_next G (x75_capture G buf) (x_gsmtap d) g"
      using send by (cases r) auto
    obtain q where q: "isdn_queue L G True buf d = d\<lparr>x_gsmtap := g, x_line := (x_line d)\<lparr>isdn_hdlc_tx_queue := q\<rparr>\<rparr>"
      "map (msgb_data L) (msgb_queue L q) = map (msgb_data L) (msgb_queue L (isdn_hdlc_tx_queue (x_line d))) @ [buf]"
      by (rule queue_copy [OF assms(2) True g(1)])
    let ?p = "if buf = [] then [] else [buf]"
    obtain ps cs where p: "enc_frames (hdlc_tx (x_line d)) @ tx_waiting L (x_line d) = W @ ps"
      "gsmtap_log (x_gsmtap d) = C @ cs" "on_capture G ps cs"
      using live by (auto simp: line_live_def)
    have "enc_frames (hdlc_tx (x_line d)) @ tx_waiting L (x_line d) @ ?p = W @ ps @ ?p"
      using p(1) by (simp flip: append_assoc)
    moreover have "tx_waiting L ((x_line d)\<lparr>isdn_hdlc_tx_queue := q\<rparr>) = tx_waiting L (x_line d) @ ?p"
      by (simp add: q(2) tx_waiting_def)
    moreover have "gsmtap_log g = C @ cs @ [x75_capture G buf]"
      using p(2) g(2) by (simp add: gsmtap_next_def)
    moreover have "on_capture G (ps @ ?p) (cs @ [x75_capture G buf])"
      using p(3) on_capture_one [OF assms(2), of G] by (intro on_capture_append) auto
    ultimately have "\<exists>ps cs. enc_frames (hdlc_tx (x_line d)) @ tx_waiting L ((x_line d)\<lparr>isdn_hdlc_tx_queue := q\<rparr>) = W @ ps \<and>
        gsmtap_log g = C @ cs \<and> on_capture G ps cs"
      by (intro exI [of _ "ps @ ?p"] exI [of _ "cs @ [x75_capture G buf]"]) simp
    then have "line_live (isdn_queue L G True buf d)"
      using live g(2) unfolding line_live_def q(1) by (simp add: tx_ok_def gsmtap_next_def)
    then show ?thesis by (simp add: line_kept_def)
  qed
qed

end

text \<open>The handler's call-backs keep what the line depends on, so the link layer does.\<close>

sublocale yate_line \<subseteq> yate: x75_user "yate_cb L G" line_kept
  by unfold_locales
     (auto simp: yate_cb_def yate_x75_connected_def yate_x75_disconnected_def
        yate_x75_data_indication_def yate_x75_data_transmit_def queue_kept data16)

section \<open>Frames that discard nothing\<close>

text \<open>
  Frames other than those that set up, end or reject a link: they have a control octet, and
  it is none of SABM, SABME, UA, DM and DISC, whatever the poll bit.
\<close>

definition calm :: "byte list \<Rightarrow> bool" where
  "calm p \<longleftrightarrow> 2 \<le> length p \<and> p ! 1 AND NOT 0x10 \<notin> {0x2F, 0x6F, 0x63, 0x0F, 0x43}"

definition frames_calm :: "'h hdlc_api \<Rightarrow> byte list \<Rightarrow> 'h \<Rightarrow> byte list \<Rightarrow> bool" where
  "frames_calm H in_buf h0 dst0 \<longleftrightarrow>
     (\<forall>sp h dst rv c h' dst'. hdlc_reads H in_buf h0 dst0 sp h dst \<longrightarrow> sp < length in_buf \<longrightarrow>
        hdlc_decode H h (drop sp in_buf) dst (length dst - 5) = (rv, c, h', dst') \<longrightarrow> 0 < rv \<longrightarrow>
        calm (take (nat rv) dst'))"

lemma frames_calmD:
  assumes "frames_calm H in_buf h0 dst0" and "hdlc_reads H in_buf h0 dst0 sp h dst" and "sp < length in_buf"
    and "hdlc_decode H h (drop sp in_buf) dst (length dst - 5) = (rv, c, h', dst')"
  shows "0 < rv \<longrightarrow> calm (take (nat rv) dst')"
  using assms unfolding frames_calm_def by blast

lemma supervisory_type:
  assumes "w AND 3 = (1 :: byte)"
  shows "(ucast (w AND 0x0F) :: u16) \<notin> {X75_SABM, X75_SABME, X75_UA, X75_DM, X75_DISC}"
proof -
  have "bit (w AND 3) 1 = bit (1 :: byte) 1" using assms by simp
  then have "\<not> bit (ucast (w AND 0x0F) :: u16) 1"
    by (simp add: bit_simps)
  then show ?thesis by auto
qed

lemma unnumbered_type:
  assumes "(ucast (w :: byte) :: u16) \<in> {X75_SABM, X75_SABME, X75_UA, X75_DM, X75_DISC}"
  shows "w \<in> {0x2F, 0x6F, 0x63, 0x0F, 0x43}"
proof -
  have "w = ucast (ucast w :: u16)"
    by (rule bit_word_eqI) (simp add: bit_simps)
  with assms show ?thesis by auto
qed

context osmo_lib
begin

lemma calm_input:
  assumes "msgb_data L m = p" and "calm p"
  shows "\<not> event_discards L stack (Input m) x"
proof -
  let ?T = "{X75_SABM, X75_SABME, X75_UA, X75_DM, X75_DISC}"
  have "msgb_data L (msgb_pull L m 1) = drop 1 p"
    using pull [of 1 m] assms by (simp add: calm_def)
  then have d0: "msgb_rd L (msgb_pull L m 1) 0 = p ! 1"
    using rd [of 0 "msgb_pull L m 1"] assms(2) by (simp add: calm_def)
  have "f_type f \<notin> ?T" if "x75_decode L x m stack = Some (m', f)" for m' f
    using that assms(2) supervisory_type [of "p ! 1"] unnumbered_type [of "p ! 1 AND NOT 0x10"]
    by (auto simp: x75_decode_def x75_decode_ext_def x75_decode_std_def Let_def d0 calm_def simp del: One_nat_def split: if_splits)
  then show ?thesis
    by (auto simp: event_discards_def x75_discards_def split: option.splits x75_state.splits)
qed

end

section \<open>Calls into the link layer\<close>

context osmo_mem
begin

text \<open>A frame of at most 2048 bytes fits the head room reserved for it.\<close>

lemma rx_message:
  assumes "length p \<le> 2048"
  obtains skb m where "msgb_alloc_headroom L (length p + 2048) 2048 = Some skb"
    and "msgb_push L skb (length p) = Some m" and "msgb_data L (msgb_wrs L m 0 p) = p"
    and "msgb_headroom L (msgb_wrs L m 0 p) = 2048 - length p"
proof -
  obtain skb where skb: "msgb_alloc_headroom L (length p + 2048) 2048 = Some skb"
    "msgb_data L skb = []" "msgb_headroom L skb = 2048"
    using alloc_headroom_some [of "length p + 2048" 2048] alloc_headroom [of "length p + 2048" 2048] assms by auto
  obtain m old where "msgb_push L skb (length p) = Some m" "length old = length p" "msgb_data L m = old"
    "msgb_headroom L m = 2048 - length p"
    using push_ok [of "length p" skb] skb assms by auto
  with skb(1) wrs [of m "[]" old "[]" 0 p] show ?thesis
    by (intro that) auto
qed

end

context yate_line
begin

definition call_ok :: "('m, 'q, 't, 'h) yate_x75 \<Rightarrow> bool" where
  "call_ok y \<longleftrightarrow> x75_inv L b (x75_instance y) \<and> yate.dev_ok (x75_instance y) \<and> line_live (dev (x75_instance y))"

definition call_faults :: "fault set" where
  "call_faults = (if b then {} else {NullDeref})"

lemma call_ok_upd [simp]:
  "call_ok (y\<lparr>x_hdlc_rx := h\<rparr>) = call_ok y" "call_ok (y\<lparr>x_hdlc_rx_buf := bs\<rparr>) = call_ok y"
  by (simp_all add: call_ok_def)

lemma null_only: "faults_for L b call_faults"
  using copy_some by (auto simp: faults_for_def copy_or_exit_def call_faults_def)

text \<open>With \<open>c\<close> nothing is queued in the link layer, and stays so.\<close>

definition still :: "bool \<Rightarrow> ('m, 'q, 't, 'h) yate_x75 \<Rightarrow> bool" where
  "still c y \<longleftrightarrow> (c \<longrightarrow> quiet L (x75_instance y))"

lemma still_upd [simp]:
  "still c (y\<lparr>x_hdlc_rx := h\<rparr>) = still c y" "still c (y\<lparr>x_hdlc_rx_buf := bs\<rparr>) = still c y" "still False y"
  by (simp_all add: still_def)

lemma call_step:
  assumes "call_ok y" and "event_ok L ev" and "map_sum id snd (f (x75_instance y)) = x75_step L stack ev (x75_instance y)"
    and "b \<longrightarrow> \<not> event_discards L stack ev (x75_instance y) \<or> quiet L (x75_instance y)"
    and "still c y" and "c \<longrightarrow> (\<forall>m. ev \<noteq> Data m)"
  shows "ends call_faults (\<lambda>z. call_ok z \<and> still c z \<and> x_hdlc_rx z = x_hdlc_rx y \<and> x_hdlc_rx_buf z = x_hdlc_rx_buf y)
    (x75_call f y)"
proof -
  have ok: "idle_inv L b c (x75_instance y)" "yate.dev_ok (x75_instance y)"
    using assms(1,5) by (auto simp: call_ok_def idle_inv_def still_def)
  have "ends call_faults (idle_inv L b c) (map_sum id snd (f (x75_instance y)))"
    unfolding assms(3) using ok(1) null_only assms(2,4,6) by (rule step_idle)
  moreover have "yate.safe (map_sum id snd (f (x75_instance y)))"
    unfolding assms(3) using ok(2) by (rule yate.safe_step)
  moreover have "(line_live (dev x) \<and> x_fault (dev x) = None) \<or> (NullDeref \<in> call_faults \<and> x_fault (dev x) = Some NullDeref)"
    if "yate.dev_ok x" for x
    using that unfolding yate.dev_ok_def line_kept_def line_live_def call_faults_def by auto
  ultimately show ?thesis
    by (cases "f (x75_instance y)")
       (fastforce simp: x75_call_def call_ok_def idle_inv_def still_def split: option.splits)+
qed

lemma rx_frame_safe:
  assumes "call_ok y" and "length p \<le> 2048" and "b \<longrightarrow> c \<or> calm p" and "still c y"
  shows "ends call_faults (\<lambda>z. call_ok z \<and> still c z \<and> x_hdlc_rx z = x_hdlc_rx y \<and> x_hdlc_rx_buf z = x_hdlc_rx_buf y)
    (yate_x75_rx_frame L G stack p y)"
proof -
  let ?x = "x75_instance y"
  let ?send = "gsmtap_send_packet G (GSMTAP_E1T1_X75 G) True p (of_nat (length p)) (x_gsmtap (dev ?x))"
  have live: "line_live (dev ?x)" using assms(1) by (simp add: call_ok_def)
  have send: "ends (if g_gti (x_gsmtap (dev ?x)) then {} else {NullDeref})
      (\<lambda>(rc, g). gsmtap_next G (x75_capture G p) (x_gsmtap (dev ?x)) g) ?send"
    using assms(2) by (intro packet_next) simp
  obtain skb m where m: "msgb_alloc_headroom L (length p + 2048) 2048 = Some skb" "msgb_push L skb (length p) = Some m"
    "msgb_data L (msgb_wrs L m 0 p) = p"
    using rx_message [OF assms(2)] by metis
  show ?thesis
  proof (cases ?send)
    case (Inl e)
    with send live show ?thesis
      by (auto simp: yate_x75_rx_frame_def call_faults_def line_live_def split: if_splits)
  next
    case (Inr r)
    then obtain rc g where g: "?send = Inr (rc, g)" "gsmtap_next G (x75_capture G p) (x_gsmtap (dev ?x)) g"
      using send by (cases r) auto
    let ?y = "y\<lparr>x75_instance := ?x\<lparr>dev := (dev ?x)\<lparr>x_gsmtap := g\<rparr>\<rparr>\<rparr>"
    have still: "still c ?y"
      using assms(4) by (simp add: still_def)
    have calm: "b \<longrightarrow> \<not> event_discards L stack (Input (msgb_wrs L m 0 p)) (x75_instance ?y) \<or> quiet L (x75_instance ?y)"
      using calm_input [OF m(3)] assms(3,4) by (auto simp: still_def)
    have "call_ok ?y"
      using assms(1,2) capture_live [OF live _ g(2)] by (auto simp: call_ok_def yate.dev_ok_def line_kept_def)
    from call_step [OF this, of "Input (msgb_wrs L m 0 p)" "x75_data_received L stack (msgb_wrs L m 0 p)" stack c]
    show ?thesis
      using m calm still g(1) by (simp add: yate_x75_rx_frame_def Let_def event_ok_def x75_step_def)
  qed
qed

section \<open>A buffer of samples\<close>

lemma rx_loop_safe:
  assumes "call_ok y" and "frames_bounded H 2048 in_buf (x_hdlc_rx y) (x_hdlc_rx_buf y)"
    and "b \<longrightarrow> c \<or> frames_calm H in_buf (x_hdlc_rx y) (x_hdlc_rx_buf y)" and "still c y"
  shows "ends call_faults (\<lambda>z. call_ok z \<and> still c z) (x75_rx_loop L H G stack in_buf y)"
proof -
  let ?b = "\<lambda>r :: fault + nat \<times> ('m, 'q, 't, 'h) yate_x75.
    case r of Inl e \<Rightarrow> False | Inr (sp, z) \<Rightarrow> sp < length in_buf"
  let ?c = "\<lambda>r. case r of Inl e \<Rightarrow> r | Inr s \<Rightarrow> x75_rx_pass L H G stack in_buf s"
  let ?P = "ends call_faults (\<lambda>(sp, z). sp \<le> length in_buf \<and> call_ok z \<and> still c z \<and>
    hdlc_reads H in_buf (x_hdlc_rx y) (x_hdlc_rx_buf y) sp (x_hdlc_rx z) (x_hdlc_rx_buf z))"
  let ?r = "measures [\<lambda>r. case r of Inl e \<Rightarrow> 0 | Inr (sp, z) \<Rightarrow> Suc (length in_buf - sp),
    \<lambda>r. case r of Inl e \<Rightarrow> 0 | Inr (sp, z) \<Rightarrow> dec_left (x_hdlc_rx z)]"
  have "\<exists>r. while_option ?b ?c (Inr (0, y)) = Some r \<and> ?P r \<and> \<not> ?b r"
  proof (rule while_option_ends_wf [of ?r])
    show "?P (Inr (0, y))"
      using assms(1,4) by (simp add: hdlc_reads.start)
  next
    fix r assume P: "?P r" and "?b r"
    then obtain sp z where r: "r = Inr (sp, z)" "sp < length in_buf" by (auto split: sum.splits)
    with P have z: "call_ok z" "hdlc_reads H in_buf (x_hdlc_rx y) (x_hdlc_rx_buf y) sp (x_hdlc_rx z) (x_hdlc_rx_buf z)" "still c z"
      by auto
    obtain rv k h dst where dec: "hdlc_decode H (x_hdlc_rx z) (drop sp in_buf) (x_hdlc_rx_buf z)
        (length (x_hdlc_rx_buf z) - 5) = (rv, k, h, dst)"
      by (metis prod_cases4)
    note d = decode_rest [OF assms(2) z(2) r(2) dec]
    let ?z = "z\<lparr>x_hdlc_rx := h, x_hdlc_rx_buf := dst\<rparr>"
    have "0 < rv \<Longrightarrow> b \<longrightarrow> c \<or> calm (take (nat rv) dst)"
      using frames_calmD [OF _ z(2) r(2) dec] assms(3) by blast
    then have "0 < rv \<Longrightarrow> ends call_faults (\<lambda>z. call_ok z \<and> still c z \<and> x_hdlc_rx z = h \<and> x_hdlc_rx_buf z = dst)
        (yate_x75_rx_frame L G stack (take (nat rv) dst) ?z)"
      using rx_frame_safe [OF _ d(5), of ?z c stack] z(1,3) by simp
    then show "?P (?c r) \<and> (?c r, r) \<in> ?r"
      using d z r dec
      by (cases "yate_x75_rx_frame L G stack (take (nat rv) dst) ?z")
         (auto simp: x75_rx_pass_def Let_def)
  qed simp
  then show ?thesis
    by (elim exE conjE) (auto simp: x75_rx_loop_def ends_def split: sum.splits)
qed

lemma samples_safe:
  assumes "call_ok y" and "frames_bounded H 2048 in_buf (x_hdlc_rx y) (x_hdlc_rx_buf y)"
    and "b \<longrightarrow> c \<or> frames_calm H in_buf (x_hdlc_rx y) (x_hdlc_rx_buf y)" and "still c y"
    and "length in_buf \<le> length out_buf"
  shows "ends call_faults (\<lambda>(out', z). length out' = length out_buf \<and> call_ok z)
    (x75_handle_sample_buffer L H G stack out_buf in_buf y)"
proof (cases "x75_rx_loop L H G stack in_buf y")
  case (Inl e)
  with rx_loop_safe [OF assms(1-4), of stack] show ?thesis
    by (simp add: x75_handle_sample_buffer_def)
next
  case (Inr z)
  have z: "call_ok z"
    using rx_loop_safe [OF assms(1-4), of stack] Inr by simp
  then have "tx_ok enc_part (x_line (dev (x75_instance z)))"
    by (simp add: call_ok_def line_live_def)
  from tx_loop [OF this assms(5)] z Inr show ?thesis
    by (auto simp: x75_handle_sample_buffer_def Let_def call_ok_def yate.dev_ok_def line_kept_def line_live_def)
qed

lemma samples_kept:
  assumes "\<not> b" and "x75_inv L False (x75_instance y)" and "callbacks (x75_instance y) = yate_cb L G"
    and "x_fault (dev (x75_instance y)) = None" and "tx_ok enc_part (x_line (dev (x75_instance y)))"
    and "W = enc_frames (hdlc_tx (x_line (dev (x75_instance y)))) @ tx_waiting L (x_line (dev (x75_instance y)))"
    and "frames_bounded H 2048 in_buf (x_hdlc_rx y) (x_hdlc_rx_buf y)" and "length in_buf \<le> length out_buf"
    and "C = gsmtap_log (x_gsmtap (dev (x75_instance y)))" and "gsmtap_ok G (x_gsmtap (dev (x75_instance y)))"
  shows "ends {NullDeref} (\<lambda>(out', z). length out' = length out_buf \<and> x75_inv L False (x75_instance z) \<and>
      callbacks (x75_instance z) = yate_cb L G \<and> tx_ok enc_part (x_line (dev (x75_instance z))) \<and>
      (\<exists>ps. enc_frames (hdlc_tx (x_line (dev (x75_instance z)))) @ tx_waiting L (x_line (dev (x75_instance z))) = W @ ps))
    (x75_handle_sample_buffer L H G stack out_buf in_buf y)"
proof -
  have "call_ok y"
    using assms(1-5) assms(6) [symmetric] assms(9) [symmetric]
      assms(10)
    unfolding call_ok_def yate.dev_ok_def line_kept_def line_live_def by auto
  then show ?thesis
    using samples_safe [OF _ assms(7) _ _ assms(8), of False stack] assms(1)
    unfolding call_faults_def call_ok_def yate.dev_ok_def line_live_def by (auto elim!: ends_mono)
qed

end

end
