(* ===== verification/X75_Telnet.thy ===== *)
theory X75_Telnet
  imports X75_Channel
begin

text \<open>
  The properties of the X.75 call handler: buffers of samples, the way of the data from one
  telnet connection to the other, and the flow control.
\<close>

section \<open>From telnet to the line\<close>

lemma foldl_tx_yate:
  "callbacks x = yate_cb L G \<Longrightarrow> x75_tx x d m = isdn_queue L G True (msgb_data L m) d"
  by (simp add: x75_tx_def yate_cb_def yate_x75_data_transmit_def)

lemma iframes_nonempty: "f \<in> set (iframes md r n s ps) \<Longrightarrow> f \<noteq> []"
  by (induction ps arbitrary: s) (auto simp: x75_iframe_def)

lemma kick_rel_dev:
  assumes "kick_rel L x z"
  obtains ms where "length (wq L z) \<le> length (wq L x)" and "callbacks z = callbacks x"
    and "dev z = foldl (x75_tx x) (dev x) ms"
  using assms that [of "[]"] by (auto simp: kick_rel_def kick_result_def split: if_splits)

context osmo_mem
begin

text \<open>With the capture socket open, what the link layer transmits is queued for the line.\<close>

lemma sent_to_line:
  assumes "msgb_word L" and "gsmtap_lib G" and "callbacks x = yate_cb L G" and "\<forall>m \<in> set ms. msgb_data L m \<noteq> []"
    and "x_fault d = None" and "g_gti (x_gsmtap d)"
  shows "tx_waiting L (x_line (foldl (x75_tx x) d ms)) = tx_waiting L (x_line d) @ map (msgb_data L) ms"
  using assms(4-6)
proof (induction ms arbitrary: d)
  case (Cons m ms)
  have "length (msgb_data L m) < 65536"
    using msgb_word.size16 [OF assms(1), of m] by simp
  from queue_waiting [OF assms(2) this Cons.prems(2,3)] Cons show ?case
    by (simp add: foldl_tx_yate [OF assms(3)])
qed simp

lemma sent_fault:
  assumes "msgb_word L" and "gsmtap_lib G" and "callbacks x = yate_cb L G" and "x_fault d = None" and "g_gti (x_gsmtap d)"
  shows "x_fault (foldl (x75_tx x) d ms) = None \<and> g_gti (x_gsmtap (foldl (x75_tx x) d ms))"
  using assms(4,5)
proof (induction ms arbitrary: d)
  case (Cons m ms)
  have "length (msgb_data L m) < 65536"
    using msgb_word.size16 [OF assms(1), of m] by simp
  from queue_waiting [OF assms(2) this Cons.prems] Cons show ?case
    by (simp add: foldl_tx_yate [OF assms(3)])
qed simp

text \<open>A message with data from the telnet connection.\<close>

lemma telnet_message:
  assumes "length buf \<le> 128"
  obtains msg m where "msgb_alloc_headroom L (length buf + 16) 16 = Some msg" and "msgb_put L msg (length buf) = Some m"
    and "msgb_data L (msgb_wrs L m 0 buf) = buf" and "msgb_headroom L (msgb_wrs L m 0 buf) = 16"
proof -
  obtain msg where msg: "msgb_alloc_headroom L (length buf + 16) 16 = Some msg"
    using alloc_headroom_some by blast
  have r: "msgb_data L msg = []" "msgb_headroom L msg = 16" "msgb_tailroom L msg = length buf"
    using alloc_headroom [OF msg] assms by auto
  obtain m' where "msgb_put L msg (length buf) = Some m'" "msgb_data L (msgb_wrs L m' 0 buf) = buf"
    "msgb_headroom L (msgb_wrs L m' 0 buf) = 16"
    using put_all [of msg buf] r by auto
  with msg show ?thesis by (rule that)
qed

lemma telnet_sends:
  assumes "msgb_word L" and x: "x = x75_instance a" and inv: "x75_inv L True x" and cb: "callbacks x = yate_cb L G"
    and nf: "x_fault (dev x) = None" and can: "x75_can_write a"
    and "\<not> cond X75_PEER_RX_BUSY_CONDITION x" and "length (aq L x) < unat (window x)" and "length buf \<le> 128"
    and k: "k = min (Suc (length (wq L x))) (unat (window x) - length (aq L x))"
    and cap: "gsmtap_lib G" "g_gti (x_gsmtap (dev x))"
  shows "\<exists>a' frames. telnet_rx_cb L (Some buf) a = Inr (0, a') \<and>
    tx_waiting L (x_line (dev (x75_instance a'))) = tx_waiting L (x_line (dev x)) @ frames \<and>
    frames = iframes (mode x) (vr x) (modulus x) ((va x + length (aq L x)) mod modulus x)
      (take k (map (msgb_data L) (wq L x) @ [buf])) \<and>
    vs (x75_instance a') = (va x + length (aq L x) + k) mod modulus x"
proof -
  obtain msg m' where msg: "msgb_alloc_headroom L (length buf + 16) 16 = Some msg" "msgb_put L msg (length buf) = Some m'"
    and m: "msgb_data L (msgb_wrs L m' 0 buf) = buf" "msgb_headroom L (msgb_wrs L m' 0 buf) = 16"
    by (rule telnet_message [OF assms(9)])
  define m where "m = msgb_wrs L m' 0 buf"
  obtain q where e: "enq_write L m x = x\<lparr>write_queue := q, write_queue_count := Suc (write_queue_count x)\<rparr>"
    and q: "msgb_queue L q = wq L x @ [m]"
    by (rule enq_write_eq)
  let ?e = "enq_write L m x"
  have inv': "x75_inv L True ?e"
    using enq_write_inv [OF inv] m by (simp add: m_def)
  have "ring_dist (modulus x) (kick_start ?e) (kick_end ?e) = unat (window ?e) - length (aq L ?e)"
    using kick_window(3) [OF inv'] by (simp add: e)
  then have "kick_start ?e \<noteq> kick_end ?e"
    using assms(8) e by (auto simp: ring_dist_def)
  then have nb: "\<not> kick_blocked ?e"
    using assms(7) by (simp add: kick_blocked_def e)
  have k': "k = min (length (wq L ?e)) (unat (window ?e) - length (aq L ?e))"
    using k q by (simp add: e)
  obtain y ms where y: "x75_kick L ?e = Inr y" "dev y = foldl (x75_tx ?e) (dev ?e) ms"
    "map (msgb_data L) ms = iframes (mode ?e) (vr ?e) (modulus ?e) ((va ?e + length (aq L ?e)) mod modulus ?e)
      (map (msgb_data L) (take k (wq L ?e)))"
    "vs y = (va ?e + length (aq L ?e) + k) mod modulus ?e"
    using kick_sends [OF inv' nb k'] by (elim exE conjE) (rule that)
  let ?f = "iframes (mode x) (vr x) (modulus x) ((va x + length (aq L x)) mod modulus x)
    (take k (map (msgb_data L) (wq L x) @ [buf]))"
  have f: "map (msgb_data L) ms = ?f"
    unfolding y(3) using q m(1) by (simp add: e m_def [symmetric] take_map [symmetric])
  have "\<forall>m \<in> set ms. msgb_data L m \<noteq> []"
    using iframes_nonempty [of _ "mode x" "vr x" "modulus x"] by (metis f image_eqI set_map)
  from sent_to_line [OF assms(1) cap(1) _ this, of ?e "dev ?e"] sent_fault [OF assms(1) cap(1), of ?e "dev ?e"] cb cap(2) nf
  have d: "tx_waiting L (x_line (dev y)) = tx_waiting L (x_line (dev x)) @ ?f" "x_fault (dev y) = None"
    unfolding y(2) f by (simp_all add: e)
  have "state x = X75_STATE_3 \<or> state x = X75_STATE_4"
    using can by (auto simp: x75_can_write_def x split: if_splits)
  then have "telnet_rx_cb L (Some buf) a = Inr (0, a\<lparr>x75_instance := y\<rparr>)"
    using can msg y(1) d(2)
    by (auto simp: telnet_rx_cb_def x75_call_def x75_data_request_def with_rc_def m_def x [symmetric])
  then show ?thesis
    using d(1) y(4) by (intro exI [of _ "a\<lparr>x75_instance := y\<rparr>"] exI [of _ ?f]) (simp add: e)
qed

text \<open>The queue after a read: the layer takes the message only while at most eight wait.\<close>

lemma telnet_bounded:
  assumes "msgb_word L" and inv: "x75_inv L True (x75_instance y)" and cb: "callbacks (x75_instance y) = yate_cb L G"
    and nf: "x_fault (dev (x75_instance y)) = None" and len: "length (wq L (x75_instance y)) \<le> 9"
    and rd: "case rd of None \<Rightarrow> True | Some buf \<Rightarrow> length buf \<le> 128"
    and cap: "gsmtap_lib G" "g_gti (x_gsmtap (dev (x75_instance y)))"
  shows "\<exists>rc z. telnet_rx_cb L rd y = Inr (rc, z) \<and> x75_inv L True (x75_instance z) \<and>
    length (wq L (x75_instance z)) \<le> 9 \<and> length (aq L (x75_instance z)) \<le> unat (window (x75_instance z)) \<and>
    callbacks (x75_instance z) = yate_cb L G \<and> x_fault (dev (x75_instance z)) = None \<and>
    g_gti (x_gsmtap (dev (x75_instance z)))"
proof (cases "x75_can_write y \<and> rd \<noteq> None")
  case False
  then show ?thesis
    using inv cb nf len kick_window(2) [OF inv] cap(2)
    by (auto simp: telnet_rx_cb_def set_call_state_def Let_def)
next
  case True
  then obtain buf where buf: "rd = Some buf" "length buf \<le> 128" and can: "x75_can_write y"
    using rd by auto
  let ?x = "x75_instance y"
  have st: "state ?x = X75_STATE_3 \<or> state ?x = X75_STATE_4" and few: "length (wq L ?x) \<le> 8"
    using can inv by (auto simp: x75_can_write_def inv_defs split: if_splits)
  obtain msg m' where msg: "msgb_alloc_headroom L (length buf + 16) 16 = Some msg" "msgb_put L msg (length buf) = Some m'"
    and m: "msgb_headroom L (msgb_wrs L m' 0 buf) = 16"
    by (rule telnet_message [OF buf(2)])
  define m where "m = msgb_wrs L m' 0 buf"
  obtain q where e: "enq_write L m ?x = ?x\<lparr>write_queue := q, write_queue_count := Suc (write_queue_count ?x)\<rparr>"
    and q: "msgb_queue L q = wq L ?x @ [m]"
    by (rule enq_write_eq)
  have inv': "x75_inv L True (enq_write L m ?x)"
    using enq_write_inv [OF inv] m by (simp add: m_def)
  have "ends {} (\<lambda>z. x75_inv L True z \<and> kick_rel L (enq_write L m ?x) z) (x75_kick L (enq_write L m ?x))"
    using inv' no_faults by (rule wp_kick) simp
  then obtain z where z: "x75_kick L (enq_write L m ?x) = Inr z" "x75_inv L True z" "kick_rel L (enq_write L m ?x) z"
    by (auto simp: ends_total)
  obtain ms where "length (wq L z) \<le> length (wq L (enq_write L m ?x))" "callbacks z = callbacks ?x"
    "dev z = foldl (x75_tx (enq_write L m ?x)) (dev ?x) ms"
    using kick_rel_dev [OF z(3)] by (auto simp: e)
  then have "length (wq L z) \<le> 9 \<and> callbacks z = yate_cb L G \<and> x_fault (dev z) = None \<and> g_gti (x_gsmtap (dev z))"
    using few q cb nf cap(2) sent_fault [OF assms(1) cap(1), of "enq_write L m ?x"] by (simp add: e)
  then show ?thesis
    using can buf msg z(1,2) st kick_window(2) [OF z(2)]
    by (auto simp: telnet_rx_cb_def x75_call_def x75_data_request_def with_rc_def m_def)
qed

end

section \<open>From the line to telnet\<close>

text \<open>The frames of the line one after the other.\<close>

primrec yate_x75_rx_frames ::
    "('m, 'q, 't) osmo_api \<Rightarrow> gsmtap_api \<Rightarrow> x75_frame \<Rightarrow> byte list list \<Rightarrow> ('m, 'q, 't, 'h) yate_x75
     \<Rightarrow> fault + ('m, 'q, 't, 'h) yate_x75" where
  "yate_x75_rx_frames L G stack [] y = Inr y"
| "yate_x75_rx_frames L G stack (p # ps) y =
     (case yate_x75_rx_frame L G stack p y of Inl e \<Rightarrow> Inl e | Inr z \<Rightarrow> yate_x75_rx_frames L G stack ps z)"

text \<open>A station that listens, with the handler's call-backs, an open telnet connection and capture socket.\<close>

definition telnet_open :: "('m, 'q, 't) osmo_api \<Rightarrow> gsmtap_api \<Rightarrow> ('m, 'q, 't, 'h) yate_x75 \<Rightarrow> bool" where
  "telnet_open L G y \<longleftrightarrow> listening (x75_instance y) \<and> callbacks (x75_instance y) = yate_cb L G \<and>
     telnet_ofd (dev (x75_instance y)) \<and> x_fault (dev (x75_instance y)) = None \<and>
     g_gti (x_gsmtap (dev (x75_instance y)))"

lemma listening_dev [simp]: "listening (x\<lparr>dev := d\<rparr>) = listening x"
  by (simp add: listening_def link_ok_def)

lemma length_iframe: "length (x75_iframe md r s poll p) \<le> length p + 3"
  by (simp add: x75_iframe_def x75_ictl_def)

context osmo_mem
begin

lemma frame_to_telnet:
  assumes lib: "gsmtap_lib G" and y: "telnet_open L G y" and md: "mode (x75_instance y) = peer_mode md" and "headlen_passes L"
    and "f = x75_iframe md (vs (x75_instance y)) (vr (x75_instance y)) 0 p" and "length p \<le> 2044"
  obtains z where "yate_x75_rx_frame L G stack f y = Inr z" and "telnet_open L G z"
    and "telnet_out (dev (x75_instance z)) = telnet_out (dev (x75_instance y)) @ p"
    and "vr (x75_instance z) = Suc (vr (x75_instance y)) mod modulus (x75_instance y)"
    and "mode (x75_instance z) = mode (x75_instance y)" and "vs (x75_instance z) = vs (x75_instance y)"
proof -
  have len: "length f < 2048"
    using assms(6) length_iframe [of md "vs (x75_instance y)" "vr (x75_instance y)" 0 p] by (simp add: assms(5))
  obtain rc g where g: "gsmtap_send_packet G (GSMTAP_E1T1_X75 G) True f (of_nat (length f)) (x_gsmtap (dev (x75_instance y)))
      = Inr (rc, g)" "g_gti g"
    using gsmtap_lib.packet_next [OF lib, of f "x_gsmtap (dev (x75_instance y))" "GSMTAP_E1T1_X75 G" True] len y
    by (auto simp: ends_total gsmtap_next_def telnet_open_def)
  let ?x = "(x75_instance y)\<lparr>dev := (dev (x75_instance y))\<lparr>x_gsmtap := g\<rparr>\<rparr>"
  obtain skb m' where m: "msgb_alloc_headroom L (length f + 2048) 2048 = Some skb" "msgb_push L skb (length f) = Some m'"
    and d: "msgb_data L (msgb_wrs L m' 0 f) = f" "msgb_headroom L (msgb_wrs L m' 0 f) = 2048 - length f"
    by (rule rx_message [of f]) (use len in simp)
  define m where "m = msgb_wrs L m' 0 f"
  have l: "listening ?x" "mode ?x = peer_mode md"
    using y md by (simp_all add: telnet_open_def)
  have r: "roomy L m"
    using d(2) len by (simp add: roomy_def m_def)
  have dm: "msgb_data L m = x75_iframe md (vs ?x) (vr ?x) 0 p"
    using d(1) assms(5) by (simp add: m_def)
  obtain n z where z: "x75_data_input L stack m ?x = Inr z" "msgb_data L n = p"
    "dev z = x75_ind ?x (dev ?x) n" "vr z = Suc (vr ?x) mod modulus ?x"
    "listening z" "mode z = mode ?x" "vs z = vs ?x" "callbacks z = callbacks ?x"
    by (rule receive_iframe [OF l assms(4) r dm, of stack]) (rule that)
  have t: "x75_ind ?x (dev ?x) n = (dev ?x)\<lparr>telnet_out := telnet_out (dev ?x) @ p\<rparr>"
    using y z(2) by (simp add: x75_ind_def telnet_open_def yate_cb_def yate_x75_data_indication_def)
  have "yate_x75_rx_frame L G stack f y = Inr (y\<lparr>x75_instance := z\<rparr>)"
    using m z(1) t z(3) y g(1)
    by (simp add: yate_x75_rx_frame_def Let_def x75_call_def x75_data_received_def with_rc_def m_def telnet_open_def)
  then show ?thesis
    by (rule that) (use z t y g(2) in \<open>simp_all add: telnet_open_def\<close>)
qed

lemma frames_to_telnet:
  assumes lib: "gsmtap_lib G" and "telnet_open L G y" and "mode (x75_instance y) = peer_mode md" and "headlen_passes L"
    and "\<forall>p \<in> set ps. length p \<le> 2044"
    and "fs = iframes md (vs (x75_instance y)) (modulus (x75_instance y)) (vr (x75_instance y)) ps"
  shows "\<exists>z. yate_x75_rx_frames L G stack fs y = Inr z \<and>
    telnet_out (dev (x75_instance z)) = telnet_out (dev (x75_instance y)) @ concat ps \<and>
    vr (x75_instance z) = (vr (x75_instance y) + length ps) mod modulus (x75_instance y)"
  using assms(2,3,5,6)
proof (induction ps arbitrary: y fs)
  case Nil
  then show ?case by (simp add: telnet_open_def listening_def link_ok_def)
next
  case (Cons p ps)
  let ?f = "x75_iframe md (vs (x75_instance y)) (vr (x75_instance y)) 0 p"
  have "length p \<le> 2044" using Cons.prems by simp
  note one = frame_to_telnet [OF lib Cons.prems(1,2) assms(4) refl this, of stack]
  obtain z where z: "yate_x75_rx_frame L G stack ?f y = Inr z" "telnet_open L G z"
    "telnet_out (dev (x75_instance z)) = telnet_out (dev (x75_instance y)) @ p"
    "vr (x75_instance z) = Suc (vr (x75_instance y)) mod modulus (x75_instance y)"
    "mode (x75_instance z) = mode (x75_instance y)" "vs (x75_instance z) = vs (x75_instance y)"
    by (rule one) (rule that)
  then have "modulus (x75_instance z) = modulus (x75_instance y)" by (simp add: modulus_def)
  with Cons.IH [OF z(2) _ _ refl] z Cons.prems show ?case
    by (auto simp: mod_simps)
qed

end

section \<open>A handler to run the theorems on\<close>

definition lab_coder_0 :: lab_coder where
  "lab_coder_0 = \<lparr>lab_pos = 0, lab_decoded = [], lab_sent = [], lab_part = []\<rparr>"

definition lab_dev :: "(buf, buf list, lab_coder) yate_dev" where
  "lab_dev =
     \<lparr>x_line = \<lparr>hdlc_tx = lab_coder_0, isdn_hdlc_tx_queue = [], hdlc_tx_msgb = None,
        hdlc_tx_buf = [], hdlc_tx_buf_pos = 0, hdlc_tx_buf_len = 0\<rparr>,
      call_state = YATEX75_X75CONNECTED, telnet_ofd = True, telnet_out = [],
      x_gsmtap = snd (gsmtap_init True gsmtap_statics), x_fault = None\<rparr>"

definition lab_yate_x75 :: "u32 \<Rightarrow> buf list \<Rightarrow> (buf, buf list, tmr, lab_coder) yate_x75" where
  "lab_yate_x75 md queued =
     \<lparr>x75_instance = \<lparr>dev = lab_dev, mode = md, state = X75_STATE_3,
        vs = 0, vr = 0, va = 0, condition = 0, n2 = 5, n2count = 0, t1 = 3000, t2 = 1,
        t1timer = lab_timer, t2timer = lab_timer, t1timer_running = False, t2timer_running = False,
        write_queue = queued, write_queue_count = length queued, ack_queue = [], ack_queue_count = 0, window = 7,
        callbacks = yate_cb list16_osmo lab_gsmtap, frmr_data = lab_frame, frmr_type = 0\<rparr>,
      x_hdlc_rx = lab_coder_0, x_hdlc_rx_buf = replicate 8192 0, telnet_read = True,
      disconnect_close_timer = lab_timer, force_exit_timer = lab_timer\<rparr>"

interpretation lab16: yate_line list16_osmo lab_hdlc lab_sent lab_part lab_decoded "\<lambda>h. 0" lab_gsmtap W C b for W C b
  by unfold_locales (auto simp: lab_hdlc_def Let_def split: list.splits if_splits)

lemma lab_x75_ok:
  "x75_inv list16_osmo b (x75_instance (lab_yate_x75 X75_STANDARD []))"
  "callbacks (x75_instance (lab_yate_x75 md q)) = yate_cb list16_osmo lab_gsmtap"
  "dev (x75_instance (lab_yate_x75 md q)) = lab_dev"
  by (simp_all add: lab_yate_x75_def inv_defs modulus_def list16_osmo_def list_osmo_def)

lemma lab_dev_ok: "x_fault lab_dev = None" "g_gti (x_gsmtap lab_dev)" "gsmtap_ok lab_gsmtap (x_gsmtap lab_dev)"
  "tx_ok lab_part (x_line lab_dev)"
  "tx_waiting list16_osmo (x_line lab_dev) = []" "lab_sent (hdlc_tx (x_line lab_dev)) = []"
  by (simp_all add: lab_dev_def tx_ok_def tx_waiting_def lab_coder_0_def list16_osmo_def list_osmo_def)

section \<open>Properties\<close>

text \<open>
  A buffer of samples. Whatever the line delivers in frames of at most 2048 bytes, and
  whatever state the link is in, both loops of the handler end and no message buffer is
  overrun: the handler returns with the output buffer filled, the link's invariant kept,
  and the frames that were waiting for the line, or already given to the encoder, still
  the first ones, in order; only the null message after a discarded queue and a capture
  without its socket can end it otherwise.
\<close>

theorem x75_samples_handled:
  assumes "osmo_mem L" and "msgb_word L" and "hdlc_channel L H enc_frames enc_part dec_frames dec_left" and "gsmtap_lib G"
    and "x75_inv L False (x75_instance y)" and "callbacks (x75_instance y) = yate_cb L G"
    and "x_fault (dev (x75_instance y)) = None" and "tx_ok enc_part (x_line (dev (x75_instance y)))"
    and "frames_bounded H 2048 in_buf (x_hdlc_rx y) (x_hdlc_rx_buf y)" and "length in_buf \<le> length out_buf"
    and "gsmtap_ok G (x_gsmtap (dev (x75_instance y)))"
  shows "ends {NullDeref} (\<lambda>(out', z). length out' = length out_buf \<and> x75_inv L False (x75_instance z) \<and>
      callbacks (x75_instance z) = yate_cb L G \<and> tx_ok enc_part (x_line (dev (x75_instance z))) \<and>
      (\<exists>ps. enc_frames (hdlc_tx (x_line (dev (x75_instance z)))) @ tx_waiting L (x_line (dev (x75_instance z))) =
        (enc_frames (hdlc_tx (x_line (dev (x75_instance y)))) @ tx_waiting L (x_line (dev (x75_instance y)))) @ ps))
    (x75_handle_sample_buffer L H G stack out_buf in_buf y)"
  using yate_line.samples_kept [OF yate_line.intro [OF assms(1-4)] not_False_eq_True [THEN iffD2, OF TrueI] assms(5-8) refl assms(9,10) refl assms(11)] .

theorem x75_samples_handled_witness:
  "ends {NullDeref} (\<lambda>(out', z). length out' = 4 \<and> x75_inv list16_osmo False (x75_instance z))
     (x75_handle_sample_buffer list16_osmo lab_hdlc lab_gsmtap lab_frame [0, 0, 0, 0] [1, 0x10, 0x41, 0x7e]
        (lab_yate_x75 X75_STANDARD []))"
proof -
  have f: "x_fault (dev (x75_instance (lab_yate_x75 X75_STANDARD []))) = None"
    "tx_ok lab_part (x_line (dev (x75_instance (lab_yate_x75 X75_STANDARD []))))"
    "gsmtap_ok lab_gsmtap (x_gsmtap (dev (x75_instance (lab_yate_x75 X75_STANDARD []))))"
    by (simp_all add: lab_x75_ok(3) lab_dev_ok)
  have b: "frames_bounded lab_hdlc 2048 [1, 0x10, 0x41, 0x7e] (x_hdlc_rx (lab_yate_x75 X75_STANDARD []))
      (x_hdlc_rx_buf (lab_yate_x75 X75_STANDARD []))"
    by (rule lab_bounded) simp
  have "length [1, 0x10, 0x41, 0x7e :: byte] \<le> length [0, 0, 0, 0 :: byte]" by simp
  from x75_samples_handled [OF lo16.osmo_mem_axioms lw16.msgb_word_axioms lab16.hdlc_channel_axioms lg.gsmtap_lib_axioms lab_x75_ok(1,2) f(1,2) b this f(3)]
  show ?thesis by (rule ends_mono) auto
qed

text \<open>
  C5: from one telnet connection to the other. A station in data transfer whose window and
  capture socket are open reads from its telnet connection: the data, behind what was queued before it, goes
  to its line in I-frames as far as the window allows. When these frames reach a listening
  peer, the peer writes exactly this data to its telnet connection, in order, and its V(R)
  ends at the sender's V(S).
\<close>

theorem x75_telnet_to_telnet:
  assumes "osmo_mem L" and "msgb_word L" and "headlen_passes L" and "x = x75_instance a"
    and "x75_inv L True x" and "callbacks x = yate_cb L G" and "x_fault (dev x) = None" and "x75_can_write a"
    and "\<not> cond X75_PEER_RX_BUSY_CONDITION x" and "length (aq L x) < unat (window x)" and "length buf \<le> 128"
    and "k = min (Suc (length (wq L x))) (unat (window x) - length (aq L x))"
    and "\<forall>m \<in> set (wq L x). length (msgb_data L m) \<le> 2044"
    and "telnet_open L G b" and "mode (x75_instance b) = peer_mode (mode x)" and "vs (x75_instance b) = vr x"
    and "vr (x75_instance b) = (va x + length (aq L x)) mod modulus x"
    and "gsmtap_lib G" and "g_gti (x_gsmtap (dev x))"
  shows "\<exists>a' frames b'. telnet_rx_cb L (Some buf) a = Inr (0, a') \<and>
    tx_waiting L (x_line (dev (x75_instance a'))) = tx_waiting L (x_line (dev x)) @ frames \<and>
    yate_x75_rx_frames L G stack frames b = Inr b' \<and>
    telnet_out (dev (x75_instance b')) =
      telnet_out (dev (x75_instance b)) @ concat (take k (map (msgb_data L) (wq L x) @ [buf])) \<and>
    vr (x75_instance b') = vs (x75_instance a')"
proof -
  let ?ps = "take k (map (msgb_data L) (wq L x) @ [buf])"
  obtain a' frames where a: "telnet_rx_cb L (Some buf) a = Inr (0, a')"
    "tx_waiting L (x_line (dev (x75_instance a'))) = tx_waiting L (x_line (dev x)) @ frames"
    and fr: "frames = iframes (mode x) (vr x) (modulus x) ((va x + length (aq L x)) mod modulus x) ?ps"
    and vs: "vs (x75_instance a') = (va x + length (aq L x) + k) mod modulus x"
    using osmo_mem.telnet_sends [OF assms(1,2,4-12,18,19)] by (elim exE conjE) (rule that)
  have mod: "modulus (x75_instance b) = modulus x"
    using assms(15) peer_mode_bits(1) by (simp add: modulus_def)
  have f: "frames = iframes (mode x) (vs (x75_instance b)) (modulus (x75_instance b)) (vr (x75_instance b)) ?ps"
    using fr mod assms(16,17) by simp
  have p: "\<forall>p \<in> set ?ps. length p \<le> 2044"
    using assms(11,13) by (auto dest!: in_set_takeD)
  obtain b' where b: "yate_x75_rx_frames L G stack frames b = Inr b'"
    "telnet_out (dev (x75_instance b')) = telnet_out (dev (x75_instance b)) @ concat ?ps"
    "vr (x75_instance b') = (vr (x75_instance b) + length ?ps) mod modulus (x75_instance b)"
    using osmo_mem.frames_to_telnet [OF assms(1,18,14,15,3) p f, of stack] by (elim exE conjE) (rule that)
  have "length ?ps = k" using assms(12) by (simp only: length_take length_append length_map) simp
  with b(3) vs mod assms(17) have "vr (x75_instance b') = vs (x75_instance a')"
    by (simp only: mod_simps add.assoc)
  with a b(1,2) show ?thesis
    by (intro exI [of _ a'] exI [of _ frames] exI [of _ b']) (simp add: mod_simps)
qed

theorem x75_telnet_to_telnet_witness:
  "\<exists>a' frames b'. telnet_rx_cb list16_osmo (Some [0x68, 0x69]) (lab_yate_x75 X75_STANDARD []) = Inr (0, a') \<and>
     yate_x75_rx_frames list16_osmo lab_gsmtap lab_frame frames (lab_yate_x75 X75_DCE []) = Inr b' \<and>
     telnet_out (dev (x75_instance b')) = [0x68, 0x69]"
proof -
  let ?a = "lab_yate_x75 X75_STANDARD []" and ?b = "lab_yate_x75 X75_DCE []"
  let ?x = "x75_instance ?a"
  have h: "headlen_passes list16_osmo"
    by (simp add: headlen_passes_def list16_osmo_def list_osmo_def)
  have q: "wq list16_osmo ?x = []" "aq list16_osmo ?x = []" "va ?x = 0" "vr ?x = 0" "unat (window ?x) = 7"
    "modulus ?x = 8"
    by (simp_all add: lab_yate_x75_def list16_osmo_def list_osmo_def modulus_def)
  have a: "x75_can_write ?a" "\<not> cond X75_PEER_RX_BUSY_CONDITION ?x"
    by (simp_all add: lab_yate_x75_def x75_can_write_def)
  have b: "telnet_open list16_osmo lab_gsmtap ?b" "mode (x75_instance ?b) = peer_mode (mode ?x)"
    "vs (x75_instance ?b) = 0" "vr (x75_instance ?b) = 0" "telnet_out (dev (x75_instance ?b)) = []"
    by (simp_all add: telnet_open_def lab_yate_x75_def lab_dev_def listening_def link_ok_def modulus_def peer_mode_def)
  have f: "x_fault (dev ?x) = None" "g_gti (x_gsmtap (dev ?x))"
    by (simp_all add: lab_x75_ok(3) lab_dev_ok)
  from x75_telnet_to_telnet [OF lo16.osmo_mem_axioms lw16.msgb_word_axioms h refl lab_x75_ok(1,2) f(1) a, of "[0x68, 0x69]" 1 ?b lab_frame,
      OF _ _ _ _ _ _ _ _ lg.gsmtap_lib_axioms f(2)]
  show ?thesis
    using b by (auto simp: q)
qed



section \<open>Errors\<close>

text \<open>
  The receive buffer takes frames of up to 8187 bytes, but only 2048 bytes of head room are
  reserved for the message: a longer frame aborts the process.
\<close>

lemma x75_long_frame_aborts:
  assumes "osmo_mem L" and "2048 < length p" and "length p \<le> 8187" and "gsmtap_lib G"
    and "g_gti (x_gsmtap (dev (x75_instance y)))"
  shows "yate_x75_rx_frame L G stack p y = Inl MsgbAbort"
proof -
  have mem: "msgb_mem L" and lib: "msgb_lib L"
    using assms(1) by (auto intro: msgb_mem.axioms(1) osmo_mem.axioms(1))
  obtain m where m: "msgb_alloc_headroom L (length p + 2048) 2048 = Some m"
    using msgb_mem.alloc_headroom_some [OF mem] by blast
  then have "msgb_headroom L m = 2048"
    using msgb_lib.alloc_headroom [OF lib m] assms(3) by simp
  moreover obtain rc g where "gsmtap_send_packet G (GSMTAP_E1T1_X75 G) True p (of_nat (length p))
      (x_gsmtap (dev (x75_instance y))) = Inr (rc, g)"
    using gsmtap_lib.packet_next [OF assms(4), of p "x_gsmtap (dev (x75_instance y))" "GSMTAP_E1T1_X75 G" True] assms(3,5)
    by (auto simp: ends_total)
  ultimately show ?thesis
    using msgb_lib.push_abort [OF lib, of m] m assms(2) by (simp add: yate_x75_rx_frame_def Let_def)
qed

text \<open>The main loop accesses the telnet descriptor before there is one.\<close>

lemma x75_main_loop_null: "\<not> telnet_ofd (dev (x75_instance y)) \<Longrightarrow> x75_main_step L y = Inl NullDeref"
  by (simp add: x75_main_step_def)

end
