(* ===== verification/X75_Process.thy ===== *)
theory X75_Process
  imports X75_Telnet
begin

text \<open>
  The whole process of an X.75 call, \<open>src/yate_x75.c\<close>: the state in which \<open>main\<close> leaves the
  globals before its loop, and every sequence of the events the loop dispatches afterwards.
\<close>

section \<open>The start\<close>

text \<open>
  The static data of the program is zero: no call-backs, empty buffers; \<open>q\<close>, \<open>t\<close> and \<open>h\<close> are
  what the zero bytes of a queue, a timer and a coder stand for.
\<close>

definition x75_statics :: "'q \<Rightarrow> 't \<Rightarrow> 'h \<Rightarrow> ('m, 'q, 't, 'h) yate_x75" where
  "x75_statics q t h =
     \<lparr>x75_instance =
        \<lparr>dev = \<lparr>x_line = \<lparr>hdlc_tx = h, isdn_hdlc_tx_queue = q, hdlc_tx_msgb = None, hdlc_tx_buf = [],
                          hdlc_tx_buf_pos = 0, hdlc_tx_buf_len = 0\<rparr>,
               call_state = YATEX75_IDLE, telnet_ofd = False, telnet_out = [],
               x_gsmtap = gsmtap_statics, x_fault = None\<rparr>,
         mode = 0, state = X75_STATE_0, vs = 0, vr = 0, va = 0, condition = 0, n2 = 0, n2count = 0,
         t1 = 0, t2 = 0, t1timer = t, t2timer = t, t1timer_running = False, t2timer_running = False,
         write_queue = q, write_queue_count = 0, ack_queue = q, ack_queue_count = 0, window = 0,
         callbacks = \<lparr>connect_confirmation = None, connect_indication = None,
           disconnect_confirmation = None, disconnect_indication = None, data_indication = None,
           data_transmit = None\<rparr>,
         frmr_data = \<lparr>f_type = 0, f_nr = 0, f_ns = 0, f_cr = 0, f_pf = 0, f_control0 = 0, f_control1 = 0\<rparr>,
         frmr_type = 0\<rparr>,
      x_hdlc_rx = h, x_hdlc_rx_buf = replicate 8192 0, telnet_read = False,
      disconnect_close_timer = t, force_exit_timer = t\<rparr>"

text \<open>
  The initialisations of \<open>main\<close>; \<open>source\<close> tells whether the capture socket can be opened, which is
  not looked at, and \<open>rx\<close> and \<open>tx\<close> are coders as the library initialises them.
\<close>

definition x75_main_init ::
    "('m, 'q, 't) osmo_api \<Rightarrow> gsmtap_api \<Rightarrow> bool \<Rightarrow> 'h \<Rightarrow> 'h \<Rightarrow> ('m, 'q, 't, 'h) yate_x75 \<Rightarrow> ('m, 'q, 't, 'h) yate_x75" where
  "x75_main_init L G source rx tx y =
     (let x = x75_instance y;
          t = (x_line (dev x))\<lparr>isdn_hdlc_tx_queue := msgb_queue_init L, hdlc_tx := tx\<rparr>;
          (rc, g) = gsmtap_init source (x_gsmtap (dev x));
          (rc, x) = x75_register L (yate_cb L G) (x\<lparr>dev := (dev x)\<lparr>x_line := t, x_gsmtap := g\<rparr>\<rparr>) in
      y\<lparr>x_hdlc_rx := rx, x75_instance := x\<rparr>)"

section \<open>Events\<close>

text \<open>
  What the main loop can run: the handler of the samples with its buffers, the start of the
  call by the engine, the handler of the telnet connection, the timers of the link layer,
  those of the orderly end, and the part of the loop after the dispatch.
\<close>

datatype call_event = Line x75_frame "byte list" "byte list" | Call_start sock_api int string u16 osmo_fd
  | Telnet_read "byte list option" | T1_timer | T2_timer | Close_timer | Exit_timer | Loop_pass

definition x75_dispatch ::
    "('m, 'q, 't) osmo_api \<Rightarrow> 'h hdlc_api \<Rightarrow> gsmtap_api \<Rightarrow> call_event \<Rightarrow> ('m, 'q, 't, 'h) yate_x75
     \<Rightarrow> fault + ('m, 'q, 't, 'h) yate_x75" where
  "x75_dispatch L H G ev y =
     (case ev of
        Line stack out_buf in_buf \<Rightarrow> map_sum id snd (x75_handle_sample_buffer L H G stack out_buf in_buf y)
      | Call_start S on hostname port ofd \<Rightarrow> x75_call_initialize S on hostname port ofd y
      | Telnet_read rd \<Rightarrow> map_sum id snd (telnet_rx_cb L rd y)
      | T1_timer \<Rightarrow> x75_call (\<lambda>x. map_sum id (Pair 0) (x75_t1timer_due L x)) y
      | T2_timer \<Rightarrow> x75_call (\<lambda>x. map_sum id (Pair 0) (x75_t2timer_due L x)) y
      | Close_timer \<Rightarrow> disconnect_close_cb L y
      | Exit_timer \<Rightarrow> force_exit_cb y
      | Loop_pass \<Rightarrow> x75_main_step L y)"

text \<open>
  Frames of the line have at most 2048 bytes, the engine's buffers are of one size, and one
  read of the telnet connection gives at most 128 bytes.
\<close>

definition event_fits :: "'h hdlc_api \<Rightarrow> call_event \<Rightarrow> ('m, 'q, 't, 'h) yate_x75 \<Rightarrow> bool" where
  "event_fits H ev y \<longleftrightarrow>
     (case ev of
        Line stack out_buf in_buf \<Rightarrow> length in_buf \<le> length out_buf \<and>
          frames_bounded H 2048 in_buf (x_hdlc_rx y) (x_hdlc_rx_buf y)
      | Telnet_read (Some buf) \<Rightarrow> length buf \<le> 128
      | _ \<Rightarrow> True)"

text \<open>
  How an event may end the process: the connection cannot be set up, the time for an orderly
  end is over, or, in the others, a null pointer.
\<close>

definition event_faults :: "call_event \<Rightarrow> fault set" where
  "event_faults ev = (case ev of
      Call_start S on hostname port ofd \<Rightarrow> {ExitFailure} | Exit_timer \<Rightarrow> {ExitFailure} | _ \<Rightarrow> {NullDeref})"

text \<open>
  Events that do not make the link layer throw away messages: nothing is queued in it, or the
  line brings no frame that sets up or ends the link, the retries of T1 are not used up, and
  no end of the link is requested.
\<close>

definition event_calm ::
    "('m, 'q, 't) osmo_api \<Rightarrow> 'h hdlc_api \<Rightarrow> call_event \<Rightarrow> ('m, 'q, 't, 'h) yate_x75 \<Rightarrow> bool" where
  "event_calm L H ev y \<longleftrightarrow>
     (let x = x75_instance y in
      case ev of
        Line stack out_buf in_buf \<Rightarrow> quiet L x \<or> frames_calm H in_buf (x_hdlc_rx y) (x_hdlc_rx_buf y)
      | T1_timer \<Rightarrow> quiet L x \<or> \<not> gives_up (timer_cb L (t1timer x)) x
      | T2_timer \<Rightarrow> quiet L x \<or> \<not> gives_up (timer_cb L (t2timer x)) x
      | Close_timer \<Rightarrow> quiet L x \<or> state x \<noteq> X75_STATE_3 \<and> state x \<noteq> X75_STATE_4
      | _ \<Rightarrow> True)"

text \<open>The states that events lead to; with \<open>b\<close> only calm ones.\<close>

inductive x75_reach ::
    "('m, 'q, 't) osmo_api \<Rightarrow> 'h hdlc_api \<Rightarrow> gsmtap_api \<Rightarrow> bool \<Rightarrow> ('m, 'q, 't, 'h) yate_x75 \<Rightarrow> ('m, 'q, 't, 'h) yate_x75 \<Rightarrow> bool"
    for L H G b y0 where
  start: "x75_reach L H G b y0 y0"
| event: "x75_reach L H G b y0 y \<Longrightarrow> event_fits H ev y \<Longrightarrow> b \<longrightarrow> event_calm L H ev y \<Longrightarrow>
    x75_dispatch L H G ev y = Inr z \<Longrightarrow> x75_reach L H G b y0 z"

text \<open>The frames given to the encoder so far and those that wait for it.\<close>

definition line_frames ::
    "('m, 'q, 't) osmo_api \<Rightarrow> ('h \<Rightarrow> byte list list) \<Rightarrow> ('m, 'q, 't, 'h) yate_x75 \<Rightarrow> byte list list" where
  "line_frames L enc_frames y =
     (let t = x_line (dev (x75_instance y)) in enc_frames (hdlc_tx t) @ tx_waiting L t)"

definition process_ok ::
    "('m, 'q, 't) osmo_api \<Rightarrow> gsmtap_api \<Rightarrow> ('h \<Rightarrow> byte list) \<Rightarrow> bool \<Rightarrow> ('m, 'q, 't, 'h) yate_x75 \<Rightarrow> bool" where
  "process_ok L G enc_part b y \<longleftrightarrow> x75_inv L b (x75_instance y) \<and>
     callbacks (x75_instance y) = yate_cb L G \<and> x_fault (dev (x75_instance y)) = None \<and>
     tx_ok enc_part (x_line (dev (x75_instance y))) \<and> gsmtap_ok G (x_gsmtap (dev (x75_instance y))) \<and>
     (b \<longrightarrow> telnet_ofd (dev (x75_instance y)) \<and> g_gti (x_gsmtap (dev (x75_instance y))))"

section \<open>The start of a call\<close>

text \<open>
  The engine's start of the call: a connection that cannot be set up ends the process;
  otherwise the loop goes on with the connection, whose reading stays disabled until the
  link is up. When only the option of the socket cannot be set, the pointer to the
  connection stays unset although the call goes on, and the next pass of the loop ends the
  process.
\<close>

lemma x75_call_setup:
  assumes "sock_init S host port = (rc, stored)"
    and "ret = set_nodelay S (case stored of None \<Rightarrow> ofd_fd ofd | Some i \<Rightarrow> i) on"
    and "\<not> telnet_ofd (dev (x75_instance y))"
  shows "rc < 0 \<Longrightarrow> x75_dispatch L H G (Call_start S on host port ofd) y = Inl ExitFailure"
    and "0 \<le> rc \<Longrightarrow> ret = 0 \<Longrightarrow> \<exists>z u. x75_dispatch L H G (Call_start S on host port ofd) y = Inr z \<and>
      x75_dispatch L H G Loop_pass z = Inr u \<and> telnet_ofd (dev (x75_instance u)) \<and> \<not> telnet_read u \<and>
      call_state (dev (x75_instance u)) = YATEX75_TCPCONNECTED"
    and "0 \<le> rc \<Longrightarrow> ret \<noteq> 0 \<Longrightarrow> \<exists>z. x75_dispatch L H G (Call_start S on host port ofd) y = Inr z \<and>
      x75_dispatch L H G Loop_pass z = Inl NullDeref"
  using assms
  by (auto simp: x75_dispatch_def x75_call_initialize_def telnet_init_def Let_def x75_main_step_def
      set_call_state_def x75_can_write_def split: option.splits)

text \<open>The control block before the loop: the invariant holds and nothing is queued or captured.\<close>

context osmo_mem
begin

lemma main_init_quiet:
  assumes "y = x75_main_init L G source rx tx (x75_statics q t h)"
  shows "x75_inv L b (x75_instance y)" and "quiet L (x75_instance y)" and "callbacks (x75_instance y) = yate_cb L G"
    and "x_fault (dev (x75_instance y)) = None" and "enc_part tx = [] \<Longrightarrow> tx_ok enc_part (x_line (dev (x75_instance y)))"
    and "x_gsmtap (dev (x75_instance y)) = snd (gsmtap_init source gsmtap_statics)"
  using queue_init
  by (simp_all add: assms x75_main_init_def x75_statics_def x75_register_def x75_start_t1timer_def
      Let_def tx_ok_def inv_defs modulus_def quiet_def split_beta)

end

section \<open>Every event keeps the process in order\<close>

context yate_line
begin

lemma call_ok_globals [simp]:
  "call_ok (y\<lparr>telnet_read := r\<rparr>) = call_ok y" "call_ok (y\<lparr>disconnect_close_timer := t\<rparr>) = call_ok y"
  "call_ok (y\<lparr>force_exit_timer := t\<rparr>) = call_ok y" "call_ok (set_call_state s y) = call_ok y"
  by (simp_all add: call_ok_def set_call_state_def Let_def yate.dev_ok_def)

lemma call_ok_start: "call_ok y \<Longrightarrow> ends {ExitFailure} call_ok (x75_call_initialize S on h p ofd y)"
  by (auto simp: x75_call_initialize_def telnet_init_def Let_def call_ok_def set_call_state_def
      yate.dev_ok_def line_kept_def line_live_def split: prod.splits)

lemma call_step_ok:
  assumes "call_ok y" and "event_ok L ev"
    and "map_sum id snd (f (x75_instance y)) = x75_step L stack ev (x75_instance y)"
    and "b \<longrightarrow> \<not> event_discards L stack ev (x75_instance y) \<or> quiet L (x75_instance y)"
  shows "ends call_faults call_ok (x75_call f y)"
  using assms call_step [of y ev f stack False] by (auto elim: ends_mono)

lemma ends_snd: "ends E Q (map_sum id snd r) = ends E (\<lambda>(a, z). Q z) r"
  by (cases r) auto

lemma telnet_ok:
  assumes "call_ok y" and "case rd of None \<Rightarrow> True | Some buf \<Rightarrow> length buf \<le> 128"
  shows "ends call_faults (\<lambda>(rc, z). call_ok z) (telnet_rx_cb L rd y)"
proof (cases "x75_can_write y \<and> rd \<noteq> None")
  case False
  with assms(1) show ?thesis by (auto simp: telnet_rx_cb_def)
next
  case True
  then obtain buf where buf: "rd = Some buf" "length buf \<le> 128" using assms(2) by auto
  obtain msg m where m: "msgb_alloc_headroom L (length buf + 16) 16 = Some msg"
    "msgb_put L msg (length buf) = Some m" "msgb_headroom L (msgb_wrs L m 0 buf) = 16"
    by (rule telnet_message [OF buf(2)])
  have "ends call_faults call_ok (x75_call (x75_data_request L (msgb_wrs L m 0 buf)) y)"
    using assms(1) m(3) by (intro call_step_ok [of _ "Data (msgb_wrs L m 0 buf)"])
      (simp_all add: event_ok_def x75_step_def event_discards_def)
  then show ?thesis
    using True buf m by (auto simp: telnet_rx_cb_def ends_def split: sum.splits)
qed

text \<open>The ways to end that are left in calm calls.\<close>

definition faults_left :: "call_event \<Rightarrow> fault set" where
  "faults_left ev = (if b then event_faults ev - {NullDeref} else event_faults ev)"

lemma event_kept:
  assumes ok: "call_ok y" and "event_fits H ev y" and "b \<longrightarrow> event_calm L H ev y"
  shows "ends (faults_left ev) call_ok (x75_dispatch L H G ev y)"
proof (cases ev)
  case (Line stack out_buf in_buf)
  then have "ends call_faults (\<lambda>(out', z). length out' = length out_buf \<and> call_ok z)
      (x75_handle_sample_buffer L H G stack out_buf in_buf y)"
    using assms by (intro samples_safe [of _ _ "quiet L (x75_instance y)"])
      (simp_all add: event_fits_def event_calm_def still_def)
  then show ?thesis
    unfolding Line x75_dispatch_def faults_left_def event_faults_def call_faults_def call_event.case ends_snd
    by (rule ends_mono) auto
next
  case (Call_start S on h p ofd)
  then show ?thesis
    unfolding Call_start x75_dispatch_def call_event.case
    by (intro ends_mono [OF call_ok_start [OF ok]]) (auto simp: event_faults_def faults_left_def)
next
  case (Telnet_read rd)
  then have "ends call_faults (\<lambda>(rc, z). call_ok z) (telnet_rx_cb L rd y)"
    using assms by (intro telnet_ok) (auto simp: event_fits_def split: option.splits)
  then show ?thesis
    unfolding Telnet_read x75_dispatch_def faults_left_def event_faults_def call_faults_def call_event.case ends_snd
    by (rule ends_mono) auto
next
  case T1_timer
  have "ends call_faults call_ok (x75_call (\<lambda>x. map_sum id (Pair 0) (x75_t1timer_due L x)) y)"
    using assms by (intro call_step_ok [of _ T1_due])
      (simp_all add: T1_timer event_ok_def x75_step_def sum.map_comp comp_def sum.map_ident event_discards_def
        event_calm_def Let_def disj_commute)
  then show ?thesis
    unfolding T1_timer x75_dispatch_def faults_left_def event_faults_def call_faults_def call_event.case
    by (rule ends_mono) auto
next
  case T2_timer
  have "ends call_faults call_ok (x75_call (\<lambda>x. map_sum id (Pair 0) (x75_t2timer_due L x)) y)"
    using assms by (intro call_step_ok [of _ T2_due])
      (simp_all add: T2_timer event_ok_def x75_step_def sum.map_comp comp_def sum.map_ident event_discards_def
        event_calm_def Let_def disj_commute)
  then show ?thesis
    unfolding T2_timer x75_dispatch_def faults_left_def event_faults_def call_faults_def call_event.case
    by (rule ends_mono) auto
next
  case Close_timer
  have "ends call_faults call_ok (x75_call (x75_disconnect_request L) y)"
    using assms by (intro call_step_ok [of _ Disconnect])
      (auto simp: Close_timer event_ok_def x75_step_def event_discards_def event_calm_def Let_def)
  then show ?thesis
    unfolding Close_timer x75_dispatch_def faults_left_def event_faults_def call_faults_def call_event.case
      disconnect_close_cb_def
    by (rule ends_mono) auto
next
  case Exit_timer
  then show ?thesis by (simp add: x75_dispatch_def force_exit_cb_def event_faults_def faults_left_def)
next
  case Loop_pass
  have "b \<longrightarrow> telnet_ofd (dev (x75_instance y))"
    using ok by (simp add: call_ok_def line_live_def)
  then show ?thesis
    using ok by (auto simp: Loop_pass x75_dispatch_def x75_main_step_def Let_def event_faults_def faults_left_def)
qed

lemma main_init_ok:
  assumes "enc_part tx = []"
  shows "process_ok L G enc_part False (x75_main_init L G source rx tx (x75_statics q t h))"
  using assms by (simp add: process_ok_def main_init_quiet [OF refl])

lemma call_ok_process:
  "call_ok y \<longleftrightarrow> process_ok L G enc_part b y \<and> (\<exists>ps cs. line_frames L enc_frames y = W @ ps \<and>
     gsmtap_log (x_gsmtap (dev (x75_instance y))) = C @ cs \<and> on_capture G ps cs)"
  by (auto simp: call_ok_def process_ok_def yate.dev_ok_def line_kept_def line_live_def line_frames_def Let_def)

end

text \<open>
  What happens between two states: frames are added for the line behind those that were
  there, and packets are added to the capture, these frames among them.
\<close>

definition line_grows ::
    "('m, 'q, 't) osmo_api \<Rightarrow> gsmtap_api \<Rightarrow> ('h \<Rightarrow> byte list list) \<Rightarrow> ('m, 'q, 't, 'h) yate_x75 \<Rightarrow> ('m, 'q, 't, 'h) yate_x75 \<Rightarrow> bool" where
  "line_grows L G enc_frames y z \<longleftrightarrow> (\<exists>ps cs. line_frames L enc_frames z = line_frames L enc_frames y @ ps \<and>
     gsmtap_log (x_gsmtap (dev (x75_instance z))) = gsmtap_log (x_gsmtap (dev (x75_instance y))) @ cs \<and>
     on_capture G ps cs)"

lemma line_grows_refl: "line_grows L G enc_frames y y"
  by (simp add: line_grows_def)

lemma line_grows_trans:
  assumes "line_grows L G enc_frames x y" and "line_grows L G enc_frames y z"
  shows "line_grows L G enc_frames x z"
proof -
  obtain ps cs qs ds where "line_frames L enc_frames y = line_frames L enc_frames x @ ps"
    "gsmtap_log (x_gsmtap (dev (x75_instance y))) = gsmtap_log (x_gsmtap (dev (x75_instance x))) @ cs" "on_capture G ps cs"
    "line_frames L enc_frames z = line_frames L enc_frames y @ qs"
    "gsmtap_log (x_gsmtap (dev (x75_instance z))) = gsmtap_log (x_gsmtap (dev (x75_instance y))) @ ds" "on_capture G qs ds"
    using assms unfolding line_grows_def by auto
  then show ?thesis
    using on_capture_append [of G ps cs qs ds] unfolding line_grows_def by auto
qed

lemma line_growsD: "line_grows L G enc_frames y z \<Longrightarrow> \<exists>ps. line_frames L enc_frames z = line_frames L enc_frames y @ ps"
  by (auto simp: line_grows_def)

text \<open>Every event, every reachable state.\<close>

lemma event_process:
  assumes "yate_line L H enc_frames enc_part dec_frames dec_left G" and "process_ok L G enc_part b y"
    and "event_fits H ev y" and "b \<longrightarrow> event_calm L H ev y"
  shows "ends (if b then event_faults ev - {NullDeref} else event_faults ev) (\<lambda>z. process_ok L G enc_part b z \<and>
      line_grows L G enc_frames y z) (x75_dispatch L H G ev y)"
  using yate_line.event_kept [OF assms(1), of "line_frames L enc_frames y" "gsmtap_log (x_gsmtap (dev (x75_instance y)))" b y ev] assms(2-4)
  unfolding yate_line.call_ok_process [OF assms(1)] yate_line.faults_left_def [OF assms(1)] line_grows_def by auto

text \<open>The handler of the samples, with the buffer it fills.\<close>

lemma line_process:
  assumes "yate_line L H enc_frames enc_part dec_frames dec_left G" and "process_ok L G enc_part False y"
    and "event_fits H (Line stack out_buf in_buf) y"
  shows "ends {NullDeref} (\<lambda>(out', z). length out' = length out_buf \<and> process_ok L G enc_part False z \<and>
      line_grows L G enc_frames y z) (x75_handle_sample_buffer L H G stack out_buf in_buf y)"
  using yate_line.samples_safe [OF assms(1), of "line_frames L enc_frames y" "gsmtap_log (x_gsmtap (dev (x75_instance y)))" False y
      in_buf False out_buf stack] assms(2,3)
  unfolding yate_line.call_ok_process [OF assms(1)] yate_line.call_faults_def [OF assms(1)]
    yate_line.still_def [OF assms(1)] event_fits_def line_grows_def by auto

lemma reach_process:
  assumes "yate_line L H enc_frames enc_part dec_frames dec_left G" and "process_ok L G enc_part b y0"
    and "x75_reach L H G b y0 y"
  shows "process_ok L G enc_part b y \<and> line_grows L G enc_frames y0 y"
  using assms(3)
proof (induction rule: x75_reach.induct)
  case start
  show ?case using assms(2) by (simp add: line_grows_refl)
next
  case (event y ev z)
  from event_process [OF assms(1) conjunct1 [OF event.IH] event.hyps(2,3)] event.hyps(4) event.IH
  show ?case by (auto intro: line_grows_trans)
qed

text \<open>
  The engine's start of the call, right after the start of the process: with the connection
  set up, the strong invariant holds and nothing is queued.
\<close>

definition connected :: "sock_api \<Rightarrow> int \<Rightarrow> string \<Rightarrow> u16 \<Rightarrow> osmo_fd \<Rightarrow> bool" where
  "connected S on host port ofd \<longleftrightarrow>
     (case sock_init S host port of (rc, stored) \<Rightarrow> 0 \<le> rc \<and>
        set_nodelay S (case stored of None \<Rightarrow> ofd_fd ofd | Some i \<Rightarrow> i) on = 0)"

lemma call_connected:
  assumes "connected S on host port ofd"
  obtains r where "x75_call_initialize S on host port ofd y = Inr (set_call_state YATEX75_TCPCONNECTED
    (y\<lparr>x75_instance := (x75_instance y)\<lparr>dev := (dev (x75_instance y))\<lparr>telnet_ofd := True\<rparr>\<rparr>, telnet_read := r\<rparr>))"
proof (cases "sock_init S host port")
  case (Pair rc stored)
  with assms show ?thesis
    by (cases stored) (auto simp: connected_def x75_call_initialize_def telnet_init_def Let_def intro: that)
qed

context osmo_mem
begin

lemma main_init_line: "line_frames L enc_frames (x75_main_init L G source rx tx (x75_statics q t h)) = enc_frames tx"
  using queue_init
  by (simp add: line_frames_def x75_main_init_def x75_statics_def x75_register_def x75_start_t1timer_def
      Let_def tx_waiting_def split_beta)

lemma process_start:
  assumes "enc_part tx = []" and "connected S on host port ofd"
  shows "\<exists>y. x75_dispatch L H G (Call_start S on host port ofd) (x75_main_init L G True rx tx (x75_statics q t h)) = Inr y \<and>
    process_ok L G enc_part True y \<and> quiet L (x75_instance y) \<and> gsmtap_log (x_gsmtap (dev (x75_instance y))) = []"
proof -
  let ?y = "x75_main_init L G True rx tx (x75_statics q t h)"
  obtain r where "x75_call_initialize S on host port ofd ?y = Inr (set_call_state YATEX75_TCPCONNECTED
    (?y\<lparr>x75_instance := (x75_instance ?y)\<lparr>dev := (dev (x75_instance ?y))\<lparr>telnet_ofd := True\<rparr>\<rparr>, telnet_read := r\<rparr>))"
    by (rule call_connected [OF assms(2)])
  with assms(1) show ?thesis
    by (simp add: x75_dispatch_def process_ok_def set_call_state_def Let_def main_init_quiet [OF refl])
qed

end

text \<open>
  C6: The whole process of an X.75 call. After any sequence of events from the state in which
  \<open>main\<close> starts its loop - buffers of samples, reads from the telnet connection, timers,
  passes of the loop - the link's invariant holds, the line is consistent and no frame given
  to the line was lost or overtaken; the next event handler returns in such a state, and if
  it ends the process, then because the connection cannot be set up, because the time for
  an orderly end is over, or by a null pointer.
\<close>

theorem x75_process_safe:
  assumes "osmo_mem L" and "msgb_word L" and "hdlc_channel L H enc_frames enc_part dec_frames dec_left" and "gsmtap_lib G"
    and "enc_part tx = []" and "x75_reach L H G False (x75_main_init L G source rx tx (x75_statics q t h)) y"
    and "event_fits H ev y"
  shows "process_ok L G enc_part False y \<and> ends (event_faults ev) (\<lambda>z. process_ok L G enc_part False z \<and>
      line_grows L G enc_frames y z) (x75_dispatch L H G ev y)"
proof -
  have line: "yate_line L H enc_frames enc_part dec_frames dec_left G"
    using assms(1-4) by (rule yate_line.intro)
  have "process_ok L G enc_part False y"
    using reach_process [OF line yate_line.main_init_ok [OF line assms(5)] assms(6)] by blast
  then show ?thesis
    using event_process [OF line _ assms(7), of False] by simp
qed

definition lab_start :: "(buf, buf list, tmr, lab_coder) yate_x75" where
  "lab_start = x75_main_init list16_osmo lab_gsmtap True lab_coder_0 lab_coder_0 (x75_statics [] lab_timer lab_coder_0)"

theorem x75_process_safe_witness:
  "ends {NullDeref} (line_grows list16_osmo lab_gsmtap lab_sent lab_start)
    (x75_dispatch list16_osmo lab_hdlc lab_gsmtap (Line lab_frame [0, 0, 0] [1, 0x3f, 0x7e]) lab_start)"
proof -
  have part: "lab_part lab_coder_0 = []" by (simp add: lab_coder_0_def)
  have "event_fits lab_hdlc (Line lab_frame [0, 0, 0] [1, 0x3f, 0x7e]) lab_start"
    by (simp add: event_fits_def lab_bounded)
  from x75_process_safe [OF lo16.osmo_mem_axioms lw16.msgb_word_axioms lab16.hdlc_channel_axioms lg.gsmtap_lib_axioms part
      x75_reach.start this [unfolded lab_start_def], folded lab_start_def]
  show ?thesis by (auto simp: event_faults_def elim: ends_mono)
qed

text \<open>
  The data phase of an X.75 call. From a state with the strong invariant, an open telnet
  connection and an open capture socket, as long as the line brings only frames of the data phase, the retries are not
  used up and no end is requested, no sequence of samples, telnet reads, timers and passes of
  the loop ends the process, except for the timer that is there to end it and a failing
  set-up of the connection: every handler returns, keeps the strong invariant and with it
  the window, and no frame given to the line is lost or overtaken.
\<close>

theorem x75_data_phase:
  assumes "osmo_mem L" and "msgb_word L" and "hdlc_channel L H enc_frames enc_part dec_frames dec_left" and "gsmtap_lib G"
    and "process_ok L G enc_part True y0" and "x75_reach L H G True y0 y"
    and "event_fits H ev y" and "event_calm L H ev y"
  shows "ends (event_faults ev - {NullDeref}) (\<lambda>z. process_ok L G enc_part True z \<and>
      length (aq L (x75_instance z)) \<le> unat (window (x75_instance z)) \<and>
      line_grows L G enc_frames y z) (x75_dispatch L H G ev y)"
proof -
  have line: "yate_line L H enc_frames enc_part dec_frames dec_left G"
    using assms(1-4) by (rule yate_line.intro)
  have "process_ok L G enc_part True y"
    using reach_process [OF line assms(5,6)] by blast
  from event_process [OF line this assms(7)] assms(8)
  have run: "ends (event_faults ev - {NullDeref}) (\<lambda>z. process_ok L G enc_part True z \<and>
      line_grows L G enc_frames y z) (x75_dispatch L H G ev y)"
    by simp
  show ?thesis
    by (rule ends_mono [OF run]) (auto simp: process_ok_def inv_defs)
qed

theorem x75_data_phase_witness:
  "ends {} (\<lambda>z. process_ok list16_osmo lab_gsmtap lab_part True z)
    (x75_dispatch list16_osmo lab_hdlc lab_gsmtap (Telnet_read (Some [1, 2, 3])) (lab_yate_x75 X75_STANDARD []))"
proof -
  have "telnet_ofd (dev (x75_instance (lab_yate_x75 X75_STANDARD []))) \<and> g_gti (x_gsmtap (dev (x75_instance (lab_yate_x75 X75_STANDARD []))))"
    by (simp add: lab_x75_ok(3) lab_dev_def)
  then have ok: "process_ok list16_osmo lab_gsmtap lab_part True (lab_yate_x75 X75_STANDARD [])"
    using lab_dev_ok by (simp add: process_ok_def lab_x75_ok)
  have ev: "event_fits lab_hdlc (Telnet_read (Some [1, 2, 3])) (lab_yate_x75 X75_STANDARD [])"
    "event_calm list16_osmo lab_hdlc (Telnet_read (Some [1, 2, 3])) (lab_yate_x75 X75_STANDARD [])"
    by (simp_all add: event_fits_def event_calm_def)
  have "event_faults (Telnet_read (Some [1, 2, 3])) - {NullDeref} = {}"
    by (simp add: event_faults_def)
  with x75_data_phase [OF lo16.osmo_mem_axioms lw16.msgb_word_axioms lab16.hdlc_channel_axioms lg.gsmtap_lib_axioms ok
      x75_reach.start ev]
  show ?thesis by (auto elim: ends_mono)
qed

text \<open>
  The events that may end such a process: the timer that is there to end it, and another
  start of the call, whose connection may fail.
\<close>

definition may_exit :: "call_event \<Rightarrow> bool" where
  "may_exit ev = (case ev of Call_start S on hostname port ofd \<Rightarrow> True | Exit_timer \<Rightarrow> True | _ \<Rightarrow> False)"

lemma calm_faults: "event_faults ev - {NullDeref} = (if may_exit ev then {ExitFailure} else {})"
  by (simp add: event_faults_def may_exit_def split: call_event.split)

text \<open>
  C7: A call from its start. The process starts, the capture socket can be opened, the engine
  starts the call, and the telnet connection is set up. From then on, as long as no message is
  thrown away - the link may be set up and cleared whenever nothing is queued, and with
  messages queued the line brings only frames of the data phase, the retries are not used up
  and no end is requested - no sequence of samples, telnet reads, timers of the link and passes
  of the loop makes a handler fail, and the exit timer and another start of the call can only
  exit; each returns with exact queue counters and the window kept, every frame for the line
  behind the earlier ones and handed to the capture.
\<close>

theorem x75_call_lasts:
  assumes "osmo_mem L" and "msgb_word L" and "hdlc_channel L H enc_frames enc_part dec_frames dec_left" and "gsmtap_lib G"
    and "enc_part tx = []" and "connected S on host port ofd"
  shows "\<exists>y0. x75_dispatch L H G (Call_start S on host port ofd) (x75_main_init L G True rx tx (x75_statics q t h)) = Inr y0 \<and>
    (\<forall>y ev. x75_reach L H G True y0 y \<longrightarrow> event_fits H ev y \<longrightarrow> event_calm L H ev y \<longrightarrow>
      ends (if may_exit ev then {ExitFailure} else {}) (\<lambda>z. process_ok L G enc_part True z \<and>
        length (aq L (x75_instance z)) \<le> unat (window (x75_instance z)) \<and> line_grows L G enc_frames y0 z)
      (x75_dispatch L H G ev y))"
proof -
  have line: "yate_line L H enc_frames enc_part dec_frames dec_left G"
    using assms(1-4) by (rule yate_line.intro)
  obtain y0 where y0: "x75_dispatch L H G (Call_start S on host port ofd) (x75_main_init L G True rx tx (x75_statics q t h)) = Inr y0"
    "process_ok L G enc_part True y0"
    using osmo_mem.process_start [OF assms(1), of enc_part tx, OF assms(5,6)] by blast
  have "ends (if may_exit ev then {ExitFailure} else {}) (\<lambda>z. process_ok L G enc_part True z \<and>
        length (aq L (x75_instance z)) \<le> unat (window (x75_instance z)) \<and> line_grows L G enc_frames y0 z)
      (x75_dispatch L H G ev y)"
    if y: "x75_reach L H G True y0 y" and ev: "event_fits H ev y" "event_calm L H ev y" for y ev
  proof -
    have ok: "process_ok L G enc_part True y" "line_grows L G enc_frames y0 y"
      using reach_process [OF line y0(2) y] by auto
    show ?thesis
      using event_process [OF line ok(1) ev(1)] ev(2) ok(2) unfolding calm_faults
      by (auto simp: process_ok_def inv_defs elim!: ends_mono intro: line_grows_trans)
  qed
  with y0(1) show ?thesis by blast
qed

definition lab_sock :: sock_api where
  "lab_sock = \<lparr>sock_init = (\<lambda>host port. (0, Some 5)), set_nodelay = (\<lambda>i on. 0)\<rparr>"

definition lab_ofd :: osmo_fd where
  "lab_ofd = \<lparr>ofd_fd = 0, ofd_when = 0, ofd_cb = False\<rparr>"

theorem x75_call_lasts_witness:
  "\<exists>y0. x75_dispatch list16_osmo lab_hdlc lab_gsmtap (Call_start lab_sock 1 ''bbs'' 23 lab_ofd) lab_start = Inr y0 \<and>
    ends {} (process_ok list16_osmo lab_gsmtap lab_part True)
      (x75_dispatch list16_osmo lab_hdlc lab_gsmtap (Line lab_frame [0, 0, 0] [1, 0x3f, 0x7e]) y0)"
proof -
  let ?ev = "Line lab_frame [0, 0, 0] [1, 0x3f, 0x7e]"
  have part: "lab_part lab_coder_0 = []" by (simp add: lab_coder_0_def)
  have con: "connected lab_sock 1 ''bbs'' 23 lab_ofd" by (simp add: connected_def lab_sock_def)
  obtain y0 where y0: "x75_dispatch list16_osmo lab_hdlc lab_gsmtap (Call_start lab_sock 1 ''bbs'' 23 lab_ofd) lab_start = Inr y0"
    "quiet list16_osmo (x75_instance y0)"
    using lo16.process_start [of lab_part lab_coder_0, OF part con] unfolding lab_start_def by blast
  have ev: "event_fits lab_hdlc ?ev y0" "event_calm list16_osmo lab_hdlc ?ev y0" "\<not> may_exit ?ev"
    using y0(2) by (simp_all add: event_fits_def event_calm_def lab_bounded may_exit_def)
  from x75_call_lasts [OF lo16.osmo_mem_axioms lw16.msgb_word_axioms lab16.hdlc_channel_axioms lg.gsmtap_lib_axioms part con,
      of lab_coder_0 "[]" lab_timer lab_coder_0, folded lab_start_def] y0(1)
  have "ends (if may_exit ?ev then {ExitFailure} else {}) (\<lambda>z. process_ok list16_osmo lab_gsmtap lab_part True z \<and>
      length (aq list16_osmo (x75_instance z)) \<le> unat (window (x75_instance z)) \<and> line_grows list16_osmo lab_gsmtap lab_sent y0 z)
    (x75_dispatch list16_osmo lab_hdlc lab_gsmtap ?ev y0)"
    using ev(1,2) x75_reach.start [of list16_osmo lab_hdlc lab_gsmtap True y0] by auto
  then have "ends {} (process_ok list16_osmo lab_gsmtap lab_part True) (x75_dispatch list16_osmo lab_hdlc lab_gsmtap ?ev y0)"
    using ev(3) by (auto elim: ends_mono)
  with y0(1) show ?thesis by blast
qed

end
