(* ===== verification/X75_Capture.thy ===== *)
theory X75_Capture
  imports X75_Process
begin

text \<open>
  The packet capture of an X.75 call: what reached the capture socket, compared with what was
  given to the line.
\<close>

text \<open>
  C19: the capture of an X.75 call. In every state the process can reach from its start, the
  socket has got exactly the packets handed to \<open>gsmtap_send_packet\<close> for which there was memory and
  whose write did not fail, each once, in order, behind the header of X.75 packets from the
  network to the user; every frame given to the line since the start was handed over, in the
  order of the line; and with memory and no failing write, all of them are in the capture.
\<close>

theorem x75_call_captured:
  assumes "osmo_mem L" and "msgb_word L" and "hdlc_channel L H enc_frames enc_part dec_frames dec_left"
    and "gsmtap_lib G" and "enc_part tx = []"
    and "x75_reach L H G False (x75_main_init L G source rx tx (x75_statics q t h)) y"
    and "g = x_gsmtap (dev (x75_instance y))"
  shows "gsmtap_out g = packets G 0 (gsmtap_log g) \<and>
    fst ` set (gsmtap_log g) \<subseteq> {packet_hdr G (GSMTAP_E1T1_X75 G) True} \<and>
    (\<exists>ps. line_frames L enc_frames y = enc_frames tx @ ps \<and> subseq ps (map snd (gsmtap_log g)) \<and>
      ((\<forall>n. gsmtap_malloc G n \<and> 0 \<le> gsmtap_write G n) \<longrightarrow>
        subseq (map (\<lambda>p. hdr_bytes G (packet_hdr G (GSMTAP_E1T1_X75 G) True) @ p) ps) (gsmtap_out g)))"
proof -
  let ?y0 = "x75_main_init L G source rx tx (x75_statics q t h)"
  let ?hdr = "packet_hdr G (GSMTAP_E1T1_X75 G) True"
  have line: "yate_line L H enc_frames enc_part dec_frames dec_left G"
    using assms(1-4) by (rule yate_line.intro)
  have ok: "process_ok L G enc_part False y" "line_grows L G enc_frames ?y0 y"
    using reach_process [OF line yate_line.main_init_ok [OF line assms(5)] assms(6)] by auto
  then obtain ps where ps: "line_frames L enc_frames y = line_frames L enc_frames ?y0 @ ps"
    and cap: "subseq ps (map snd (gsmtap_log g))" "\<forall>c \<in> set (gsmtap_log g). fst c = ?hdr"
    using osmo_mem.main_init_quiet(6) [OF assms(1) refl, of G source rx tx q t h]
    by (auto simp: line_grows_def on_capture_def assms(7))
  have out: "gsmtap_out g = packets G 0 (gsmtap_log g)"
    using ok(1) by (simp add: process_ok_def gsmtap_ok_def assms(7))
  have "subseq (map (\<lambda>p. hdr_bytes G ?hdr @ p) ps) (gsmtap_out g)"
    if "\<forall>n. gsmtap_malloc G n \<and> 0 \<le> gsmtap_write G n"
  proof -
    have "gsmtap_out g = map (\<lambda>(h, p). hdr_bytes G h @ p) (gsmtap_log g)"
      unfolding out using that by (intro packets_all) blast
    also have "\<dots> = map (\<lambda>p. hdr_bytes G ?hdr @ p) (map snd (gsmtap_log g))"
      using cap(2) by auto
    finally show ?thesis using subseq_map [OF cap(1)] by simp
  qed
  moreover have "line_frames L enc_frames ?y0 = enc_frames tx"
    by (rule osmo_mem.main_init_line [OF assms(1)])
  ultimately show ?thesis using out ps cap by (intro conjI exI [of _ ps]) auto
qed

theorem x75_call_captured_witness:
  "\<exists>y0 y. x75_dispatch list16_osmo lab_hdlc lab_gsmtap (Call_start lab_sock 1 ''bbs'' 23 lab_ofd) lab_start = Inr y0 \<and>
    x75_dispatch list16_osmo lab_hdlc lab_gsmtap (Line lab_frame [0, 0, 0] [1, 0x3f, 0x7e]) y0 = Inr y \<and>
    subseq (map (\<lambda>p. hdr_bytes lab_gsmtap (packet_hdr lab_gsmtap 7 True) @ p) (line_frames list16_osmo lab_sent y))
      (gsmtap_out (x_gsmtap (dev (x75_instance y))))"
proof -
  let ?c = "Call_start lab_sock 1 ''bbs'' 23 lab_ofd" and ?l = "Line lab_frame [0, 0, 0] [1, 0x3f, 0x7e]"
  have part: "lab_part lab_coder_0 = []" "lab_sent lab_coder_0 = []" by (simp_all add: lab_coder_0_def)
  have con: "connected lab_sock 1 ''bbs'' 23 lab_ofd" by (simp add: connected_def lab_sock_def)
  obtain y0 where y0: "x75_dispatch list16_osmo lab_hdlc lab_gsmtap ?c lab_start = Inr y0" "quiet list16_osmo (x75_instance y0)"
    "process_ok list16_osmo lab_gsmtap lab_part True y0"
    using lo16.process_start [of lab_part lab_coder_0, OF part(1) con] unfolding lab_start_def by blast
  have ev: "event_fits lab_hdlc ?c lab_start" "event_fits lab_hdlc ?l y0" "event_calm list16_osmo lab_hdlc ?l y0"
    using y0(2) by (simp_all add: event_fits_def event_calm_def lab_bounded)
  have "ends {} (process_ok list16_osmo lab_gsmtap lab_part True) (x75_dispatch list16_osmo lab_hdlc lab_gsmtap ?l y0)"
    by (rule ends_mono [OF event_process [OF yate_line.intro [OF lo16.osmo_mem_axioms lw16.msgb_word_axioms
          lab16.hdlc_channel_axioms lg.gsmtap_lib_axioms] y0(3) ev(2)]]) (simp_all add: ev(3) event_faults_def)
  then obtain y where y: "x75_dispatch list16_osmo lab_hdlc lab_gsmtap ?l y0 = Inr y"
    by (auto simp: ends_total)
  have "x75_reach list16_osmo lab_hdlc lab_gsmtap False lab_start y0"
    by (rule x75_reach.event [OF x75_reach.start ev(1) _ y0(1)]) simp
  then have "x75_reach list16_osmo lab_hdlc lab_gsmtap False lab_start y"
    by (rule x75_reach.event [OF _ ev(2) _ y]) simp
  moreover have "\<forall>n. gsmtap_malloc lab_gsmtap n \<and> 0 \<le> gsmtap_write lab_gsmtap n" "GSMTAP_E1T1_X75 lab_gsmtap = 7"
    by (simp_all add: lab_gsmtap_def)
  ultimately show ?thesis
    using x75_call_captured [OF lo16.osmo_mem_axioms lw16.msgb_word_axioms lab16.hdlc_channel_axioms lg.gsmtap_lib_axioms
      part(1) _ refl, of True lab_coder_0 "[]" lab_timer lab_coder_0 y, folded lab_start_def] y0(1) y
    by (auto simp: part(2))
qed

end
