(* ===== verification/Yate_Codec.thy ===== *)
theory Yate_Codec
  imports Ras_Prelude
begin

text \<open>
  The sample codec, \<open>src/yate.c\<close> and \<open>src/a2s.h\<close>. The telephony engine hands the 8-bit
  channel to the program as A-law decoded to 16-bit linear samples; the program maps the
  samples back to the bytes of the channel with a table built from the decoder's own.
\<close>

definition a2s :: "u16 list" where
  "a2s = [
   0xEA80, 0xEB80, 0xE880, 0xE980, 0xEE80, 0xEF80, 0xEC80, 0xED80,
   0xE280, 0xE380, 0xE080, 0xE180, 0xE680, 0xE780, 0xE480, 0xE580,
   0xF540, 0xF5C0, 0xF440, 0xF4C0, 0xF740, 0xF7C0, 0xF640, 0xF6C0,
   0xF140, 0xF1C0, 0xF040, 0xF0C0, 0xF340, 0xF3C0, 0xF240, 0xF2C0,
   0xAA00, 0xAE00, 0xA200, 0xA600, 0xBA00, 0xBE00, 0xB200, 0xB600,
   0x8A00, 0x8E00, 0x8200, 0x8600, 0x9A00, 0x9E00, 0x9200, 0x9600,
   0xD500, 0xD700, 0xD100, 0xD300, 0xDD00, 0xDF00, 0xD900, 0xDB00,
   0xC500, 0xC700, 0xC100, 0xC300, 0xCD00, 0xCF00, 0xC900, 0xCB00,
   0xFEA8, 0xFEB8, 0xFE88, 0xFE98, 0xFEE8, 0xFEF8, 0xFEC8, 0xFED8,
   0xFE28, 0xFE38, 0xFE08, 0xFE18, 0xFE68, 0xFE78, 0xFE48, 0xFE58,
   0xFFA8, 0xFFB8, 0xFF88, 0xFF98, 0xFFE8, 0xFFF8, 0xFFC8, 0xFFD8,
   0xFF28, 0xFF38, 0xFF08, 0xFF18, 0xFF68, 0xFF78, 0xFF48, 0xFF58,
   0xFAA0, 0xFAE0, 0xFA20, 0xFA60, 0xFBA0, 0xFBE0, 0xFB20, 0xFB60,
   0xF8A0, 0xF8E0, 0xF820, 0xF860, 0xF9A0, 0xF9E0, 0xF920, 0xF960,
   0xFD50, 0xFD70, 0xFD10, 0xFD30, 0xFDD0, 0xFDF0, 0xFD90, 0xFDB0,
   0xFC50, 0xFC70, 0xFC10, 0xFC30, 0xFCD0, 0xFCF0, 0xFC90, 0xFCB0,
   0x1580, 0x1480, 0x1780, 0x1680, 0x1180, 0x1080, 0x1380, 0x1280,
   0x1D80, 0x1C80, 0x1F80, 0x1E80, 0x1980, 0x1880, 0x1B80, 0x1A80,
   0x0AC0, 0x0A40, 0x0BC0, 0x0B40, 0x08C0, 0x0840, 0x09C0, 0x0940,
   0x0EC0, 0x0E40, 0x0FC0, 0x0F40, 0x0CC0, 0x0C40, 0x0DC0, 0x0D40,
   0x5600, 0x5200, 0x5E00, 0x5A00, 0x4600, 0x4200, 0x4E00, 0x4A00,
   0x7600, 0x7200, 0x7E00, 0x7A00, 0x6600, 0x6200, 0x6E00, 0x6A00,
   0x2B00, 0x2900, 0x2F00, 0x2D00, 0x2300, 0x2100, 0x2700, 0x2500,
   0x3B00, 0x3900, 0x3F00, 0x3D00, 0x3300, 0x3100, 0x3700, 0x3500,
   0x0158, 0x0148, 0x0178, 0x0168, 0x0118, 0x0108, 0x0138, 0x0128,
   0x01D8, 0x01C8, 0x01F8, 0x01E8, 0x0198, 0x0188, 0x01B8, 0x01A8,
   0x0058, 0x0048, 0x0078, 0x0068, 0x0018, 0x0008, 0x0038, 0x0028,
   0x00D8, 0x00C8, 0x00F8, 0x00E8, 0x0098, 0x0088, 0x00B8, 0x00A8,
   0x0560, 0x0520, 0x05E0, 0x05A0, 0x0460, 0x0420, 0x04E0, 0x04A0,
   0x0760, 0x0720, 0x07E0, 0x07A0, 0x0660, 0x0620, 0x06E0, 0x06A0,
   0x02B0, 0x0290, 0x02F0, 0x02D0, 0x0230, 0x0210, 0x0270, 0x0250,
   0x03B0, 0x0390, 0x03F0, 0x03D0, 0x0330, 0x0310, 0x0370, 0x0350]"

section \<open>The inverse table\<close>

text \<open>
  One pass of each of the two loops of \<open>yate_codec_alaw_slin_init\<close>, over \<open>v\<close>, \<open>val\<close> and the
  table; the comparison is on C integers.
\<close>

definition s2a_pos_pass :: "byte \<times> byte \<times> (nat \<Rightarrow> byte) \<Rightarrow> nat \<Rightarrow> byte \<times> byte \<times> (nat \<Rightarrow> byte)" where
  "s2a_pos_pass s i = (case s of (v, val, s2a) \<Rightarrow>
     let (v, val) = (if v < 0x7f \<and> int (unat (a2s ! unat val)) \<le> int i - 8
                     then (v + 1, (v + 1) XOR 0xd5) else (v, val))
     in (v, val, s2a(i := val)))"

definition s2a_neg_pass :: "byte \<times> byte \<times> (nat \<Rightarrow> byte) \<Rightarrow> nat \<Rightarrow> byte \<times> byte \<times> (nat \<Rightarrow> byte)" where
  "s2a_neg_pass s i = (case s of (v, val, s2a) \<Rightarrow>
     let (v, val) = (if 0x80 < v \<and> int (unat (a2s ! unat val)) \<le> int i - 8
                     then (v - 1, (v - 1) XOR 0xd5) else (v, val))
     in (v, val, s2a(i := val)))"

text \<open>The table as a function of the index; the C array has 65536 entries.\<close>

definition yate_codec_alaw_slin_init :: "(nat \<Rightarrow> byte) \<Rightarrow> nat \<Rightarrow> byte" where
  "yate_codec_alaw_slin_init s2a =
     (let (v, val, s2a) = foldl s2a_pos_pass (0, 0xd5, s2a) [0..<32768];
          (v, val, s2a) = foldl s2a_neg_pass (0xff, 0x2a, s2a) [32768..<65536]
      in s2a)"

section \<open>Conversion\<close>

text \<open>The table is part of the state; it is built on the first conversion.\<close>

definition yate_codec_slin_to_alaw :: "u16 list \<Rightarrow> (nat \<Rightarrow> byte) \<Rightarrow> byte list \<times> (nat \<Rightarrow> byte)" where
  "yate_codec_slin_to_alaw samples s2a =
     (let s2a = (if s2a 0 = 0 then yate_codec_alaw_slin_init s2a else s2a)
      in (map (\<lambda>s. s2a (unat s)) samples, s2a))"

definition yate_codec_alaw_to_slin :: "byte list \<Rightarrow> u16 list" where
  "yate_codec_alaw_to_slin bytes = map (\<lambda>b. a2s ! unat b) bytes"

section \<open>The sample handler\<close>

text \<open>Samples in the byte order of the machine, low byte first; an odd last byte is no sample.\<close>

fun le_samples :: "byte list \<Rightarrow> u16 list" where
  "le_samples (lo # hi # bs) = (push_bit 8 (ucast hi) OR ucast lo) # le_samples bs"
| "le_samples bs = []"

definition le_bytes :: "u16 list \<Rightarrow> byte list" where
  "le_bytes ss = concat (map (\<lambda>s. [ucast s, ucast (drop_bit 8 s)]) ss)"

text \<open>
  The globals the handler works on, and the state \<open>'s\<close> of the registered call-back, which
  gets the output buffer's old contents, the input samples and their number and returns
  the new contents.
\<close>

record 's yate_io =
  io_s2a :: "nat \<Rightarrow> byte"
  outSampleBuf :: "byte list"
  io_user :: 's

text \<open>
  \<open>yate_sample_input_cb\<close> for the bytes of a \<open>read\<close>: the new state and the bytes handed to
  \<open>write\<close>, \<open>None\<close> for the return value \<open>-1\<close> of a failed read. Of an odd read the last byte
  goes back unchanged.
\<close>

definition yate_sample_input_cb ::
    "('s \<Rightarrow> byte list \<Rightarrow> byte list \<Rightarrow> 's \<times> byte list) \<Rightarrow> byte list \<Rightarrow> 's yate_io
     \<Rightarrow> ('s yate_io \<times> byte list) option" where
  "yate_sample_input_cb handle_sample_buffer rd io =
     (if rd = [] then None
      else
        let numSamples = length rd div 2;
            (inSampleBuf, s2a) = yate_codec_slin_to_alaw (le_samples rd) (io_s2a io);
            (u, out) = handle_sample_buffer (io_user io) (outSampleBuf io) inSampleBuf;
            slin = yate_codec_alaw_to_slin (take numSamples out)
        in Some (io\<lparr>io_s2a := s2a, outSampleBuf := out, io_user := u\<rparr>,
                 le_bytes slin @ drop (2 * numSamples) rd))"

end
