(* ===== verification/Yate_Proofs.thy ===== *)
theory Yate_Proofs
  imports Yate_Codec
begin

text \<open>
  The codec is lossless: the table built at run time inverts the A-law decoder on every
  byte, so that the bytes of the channel come back unchanged from their samples.
\<close>

section \<open>Filling a table by rising levels\<close>

text \<open>
  Both loops step a counter when the index passes the current level by eight. \<open>climb\<close> is
  the counter after index \<open>i\<close> for levels \<open>lev 0, ..., lev n\<close>, starting at \<open>base\<close>.
\<close>

primrec climb :: "(nat \<Rightarrow> nat) \<Rightarrow> nat \<Rightarrow> nat \<Rightarrow> nat \<Rightarrow> nat" where
  "climb lev n base 0 = 0"
| "climb lev n base (Suc k) =
     (let w = climb lev n base k in if w < n \<and> lev w + 8 \<le> base + k then Suc w else w)"

definition rising :: "(nat \<Rightarrow> nat) \<Rightarrow> nat \<Rightarrow> nat \<Rightarrow> bool" where
  "rising lev n base \<longleftrightarrow> base \<le> lev 0 \<and> (\<forall>w < n. lev w + 8 \<le> lev (Suc w))"

lemma rising_mono: "rising lev n base \<Longrightarrow> u < w \<Longrightarrow> w \<le> n \<Longrightarrow> lev u + 8 \<le> lev w"
proof (induction w)
  case (Suc w)
  then have "lev w + 8 \<le> lev (Suc w)" by (simp add: rising_def)
  with Suc show ?case by (cases "u = w") auto
qed simp

lemma climb_inv:
  assumes "rising lev n base"
  shows "climb lev n base k \<le> n \<and>
    (climb lev n base k = 0 \<or> lev (climb lev n base k - 1) + 8 < base + k) \<and>
    (climb lev n base k = n \<or> base + k \<le> lev (climb lev n base k) + 8)"
proof (induction k)
  case 0
  then show ?case using assms by (simp add: rising_def)
next
  case (Suc k)
  then show ?case using assms by (auto simp: Let_def rising_def)
qed

lemma climb_level:
  assumes "rising lev n base" and "w \<le> n"
  shows "climb lev n base (Suc (lev w - base)) = w"
proof -
  define c where "c = climb lev n base (Suc (lev w - base))"
  have b: "base \<le> lev w"
    using assms rising_mono [OF assms(1), of 0 w] by (cases "w = 0") (auto simp: rising_def)
  have c: "c \<le> n" "c = 0 \<or> lev (c - 1) + 8 \<le> lev w" "c = n \<or> lev w < lev c + 8"
    using climb_inv [OF assms(1), of "Suc (lev w - base)"] b unfolding c_def [symmetric] by auto
  have "\<not> c < w"
    using c(3) assms(2) rising_mono [OF assms(1), of c w] by auto
  moreover have "\<not> w < c"
  proof
    assume "w < c"
    then consider "w = c - 1" | "w < c - 1" by linarith
    moreover have "c - 1 \<le> n" using c(1) by simp
    ultimately show False
      using c(2) \<open>w < c\<close> rising_mono [OF assms(1), of w "c - 1"] by cases auto
  qed
  ultimately show ?thesis unfolding c_def by simp
qed

section \<open>The decoder's table\<close>

text \<open>
  The A-law expansion of G.711 on 16-bit samples: eight segments of sixteen steps, the
  first two of width 16, each further one of twice the width; magnitudes with the sign
  bit clear are negative. \<open>alaw_expand\<close> takes the code with the even bits and the sign
  already inverted (exclusive or with D5).
\<close>

definition alaw_level :: "nat \<Rightarrow> nat" where
  "alaw_level v = (if v < 16 then 16 * v + 8 else (16 * (v mod 16) + 264) * 2 ^ (v div 16 - 1))"

definition alaw_expand :: "nat \<Rightarrow> nat" where
  "alaw_expand v = (if v < 128 then alaw_level v else 65536 - alaw_level (v - 128))"

lemma a2s_eq: "a2s = map (\<lambda>j. of_nat (alaw_expand (j XOR 0xd5))) [0..<256]"
proof -
  have "[0..<256] = 0 # 1 # [2..<256]" by (simp add: upt_conv_Cons numeral_2_eq_2)
  then show ?thesis by (simp add: a2s_def alaw_expand_def alaw_level_def)
qed

section \<open>The two halves of the table\<close>

definition lev_pos :: "nat \<Rightarrow> nat" where
  "lev_pos w = unat (a2s ! unat ((of_nat w :: byte) XOR 0xd5))"

definition lev_neg :: "nat \<Rightarrow> nat" where
  "lev_neg w = unat (a2s ! unat ((0xff - of_nat w :: byte) XOR 0xd5))"

lemma unat_small: "w \<le> 127 \<Longrightarrow> unat (of_nat w :: byte) = w"
  by (simp add: unat_of_nat)

lemma pos_pass:
  assumes "w \<le> 127"
  shows "s2a_pos_pass (of_nat w :: byte, (of_nat w :: byte) XOR 0xd5, t) i =
    (let w = (if w < 127 \<and> lev_pos w + 8 \<le> i then Suc w else w)
     in (of_nat w :: byte, (of_nat w :: byte) XOR 0xd5, t(i := (of_nat w :: byte) XOR 0xd5)))"
proof -
  have lt: "(of_nat w :: byte) < 0x7f \<longleftrightarrow> w < 127" using unat_small [OF assms] by (simp add: word_less_nat_alt)
  have "int (unat (a2s ! unat ((of_nat w :: byte) XOR 0xd5))) \<le> int i - 8 \<longleftrightarrow> lev_pos w + 8 \<le> i"
    unfolding lev_pos_def by linarith
  then show ?thesis
    using lt by (simp add: s2a_pos_pass_def Let_def add.commute)
qed

lemma pos_fold:
  assumes "rising lev_pos 127 0"
  shows "foldl s2a_pos_pass (0, 0xd5, t) [0..<k] =
    (of_nat (climb lev_pos 127 0 k) :: byte, (of_nat (climb lev_pos 127 0 k) :: byte) XOR 0xd5,
     \<lambda>i. if i < k then (of_nat (climb lev_pos 127 0 (Suc i)) :: byte) XOR 0xd5 else t i)"
proof (induction k)
  case 0
  then show ?case by simp
next
  case (Suc k)
  define w where "w = climb lev_pos 127 0 k"
  define w' where "w' = climb lev_pos 127 0 (Suc k)"
  have w: "w \<le> 127" using climb_inv [OF assms, of k] by (simp add: w_def)
  have w': "w' = (if w < 127 \<and> lev_pos w + 8 \<le> k then Suc w else w)"
    by (simp add: w_def w'_def Let_def)
  have "foldl s2a_pos_pass (0, 0xd5, t) [0..<Suc k]
      = s2a_pos_pass (foldl s2a_pos_pass (0, 0xd5, t) [0..<k]) (k)"
    by simp
  also have "\<dots> = (of_nat w' :: byte, (of_nat w' :: byte) XOR 0xd5,
      (\<lambda>i. if i < k then (of_nat (climb lev_pos 127 0 (Suc i)) :: byte) XOR 0xd5
           else t i)(k := (of_nat w' :: byte) XOR 0xd5))"
    unfolding Suc w_def [symmetric] pos_pass [OF w] w' Let_def ..
  also have "(\<lambda>i. if i < k then (of_nat (climb lev_pos 127 0 (Suc i)) :: byte) XOR 0xd5
           else t i)(k := (of_nat w' :: byte) XOR 0xd5)
      = (\<lambda>i. if i < Suc k then (of_nat (climb lev_pos 127 0 (Suc i)) :: byte) XOR 0xd5 else t i)"
    by (auto simp: fun_eq_iff w'_def simp del: climb.simps)
  finally show ?case unfolding w'_def .
qed

lemma neg_pass:
  assumes "w \<le> 127"
  shows "s2a_neg_pass (0xff - of_nat w :: byte, (0xff - of_nat w :: byte) XOR 0xd5, t) i =
    (let w = (if w < 127 \<and> lev_neg w + 8 \<le> i then Suc w else w)
     in (0xff - of_nat w :: byte, (0xff - of_nat w :: byte) XOR 0xd5, t(i := (0xff - of_nat w :: byte) XOR 0xd5)))"
proof -
  have lt: "0x80 < (0xff - of_nat w :: byte) \<longleftrightarrow> w < 127" 
  proof -
    have "unat (0xff - of_nat w :: byte) = 255 - w"
      using unat_small [OF assms] assms by (simp add: unat_sub word_le_nat_alt)
    then show ?thesis using assms by (simp add: word_less_nat_alt) linarith
  qed
  have "int (unat (a2s ! unat ((0xff - of_nat w :: byte) XOR 0xd5))) \<le> int i - 8 \<longleftrightarrow> lev_neg w + 8 \<le> i"
    unfolding lev_neg_def by linarith
  then show ?thesis
    using lt by (simp add: s2a_neg_pass_def Let_def diff_diff_add add.commute)
qed

lemma neg_fold:
  assumes "rising lev_neg 127 32768"
  shows "foldl s2a_neg_pass (0xff, 0x2a, t) [32768..<32768 + k] =
    (0xff - of_nat (climb lev_neg 127 32768 k) :: byte, (0xff - of_nat (climb lev_neg 127 32768 k) :: byte) XOR 0xd5,
     \<lambda>i. if 32768 \<le> i \<and> i < 32768 + k then (0xff - of_nat (climb lev_neg 127 32768 (Suc (i - 32768))) :: byte) XOR 0xd5 else t i)"
proof (induction k)
  case 0
  then show ?case by (auto simp: fun_eq_iff)
next
  case (Suc k)
  define w where "w = climb lev_neg 127 32768 k"
  define w' where "w' = climb lev_neg 127 32768 (Suc k)"
  have w: "w \<le> 127" using climb_inv [OF assms, of k] by (simp add: w_def)
  have w': "w' = (if w < 127 \<and> lev_neg w + 8 \<le> 32768 + k then Suc w else w)"
    by (simp add: w_def w'_def Let_def)
  have "foldl s2a_neg_pass (0xff, 0x2a, t) [32768..<32768 + Suc k]
      = s2a_neg_pass (foldl s2a_neg_pass (0xff, 0x2a, t) [32768..<32768 + k]) (32768 + k)"
  proof -
    have "[32768..<32768 + Suc k] = [32768..<32768 + k] @ [32768 + k]"
      unfolding add_Suc_right by (rule upt_Suc_append) simp
    then show ?thesis by (simp only: foldl_append foldl.simps)
  qed
  also have "\<dots> = (0xff - of_nat w' :: byte, (0xff - of_nat w' :: byte) XOR 0xd5,
      (\<lambda>i. if 32768 \<le> i \<and> i < 32768 + k then (0xff - of_nat (climb lev_neg 127 32768 (Suc (i - 32768))) :: byte) XOR 0xd5
           else t i)(32768 + k := (0xff - of_nat w' :: byte) XOR 0xd5))"
    unfolding Suc w_def [symmetric] neg_pass [OF w] w' Let_def ..
  also have "(\<lambda>i. if 32768 \<le> i \<and> i < 32768 + k then (0xff - of_nat (climb lev_neg 127 32768 (Suc (i - 32768))) :: byte) XOR 0xd5
           else t i)(32768 + k := (0xff - of_nat w' :: byte) XOR 0xd5)
      = (\<lambda>i. if 32768 \<le> i \<and> i < 32768 + Suc k then (0xff - of_nat (climb lev_neg 127 32768 (Suc (i - 32768))) :: byte) XOR 0xd5 else t i)"
    by (auto simp: fun_eq_iff w'_def simp del: climb.simps)
  finally show ?case unfolding w'_def .
qed

lemma byte_xor: "unat (v XOR w) = unat v XOR unat w" for v w :: byte
  by (simp add: unsigned_xor_eq)

lemma xor_d5: "(w XOR 0xd5) XOR 0xd5 = w" for w :: nat
  by (simp add: xor.assoc)

lemma alaw_level_step:
  assumes "v < 127"
  shows "alaw_level v + 8 \<le> alaw_level (Suc v)"
proof (cases "v < 16")
  case True
  then show ?thesis by (cases "v = 15") (simp_all add: alaw_level_def)
next
  case False
  define s where "s = v div 16 - 1"
  have s: "v div 16 = Suc s" using False by (simp add: s_def)
  show ?thesis
  proof (cases "v mod 16 = 15")
    case True
    have "16 * Suc s + 15 = v" using mult_div_mod_eq [of 16 v] unfolding s True .
    then have "Suc v = 16 * Suc (Suc s)" by simp
    then have "Suc v mod 16 = 0" "Suc v div 16 = Suc (Suc s)" by simp_all
    then have l: "alaw_level (Suc v) = 264 * 2 ^ Suc s" using False by (simp add: alaw_level_def)
    have "alaw_level v = 504 * 2 ^ s" using True s False by (simp add: alaw_level_def)
    moreover have "8 \<le> 24 * (2 :: nat) ^ s" using one_le_power [of "2 :: nat" s] by linarith
    ultimately show ?thesis unfolding l by simp
  next
    case q: False
    moreover have "v mod 16 < 16" by simp
    ultimately have "Suc (v mod 16) < 16" by linarith
    then have "Suc v mod 16 = Suc (v mod 16)" "Suc v div 16 = Suc s"
      using s by (simp_all add: mod_Suc div_Suc)
    then have l: "alaw_level (Suc v) = (16 * (v mod 16) + 280) * 2 ^ s"
      using False by (simp add: alaw_level_def)
    have "alaw_level v = (16 * (v mod 16) + 264) * 2 ^ s" using s False by (simp add: alaw_level_def)
    moreover have "8 \<le> 16 * (2 :: nat) ^ s" using one_le_power [of "2 :: nat" s] by linarith
    ultimately show ?thesis unfolding l by (simp add: algebra_simps)
  qed
qed

lemma alaw_rising: "rising alaw_level 127 0"
  using alaw_level_step by (simp add: rising_def)

lemma alaw_level_less:
  assumes "v < 128"
  shows "alaw_level v < 32768" and "0 < alaw_level v"
proof -
  have "alaw_level 127 = 32256" "alaw_level 0 = 8" by (simp_all add: alaw_level_def)
  then show "alaw_level v < 32768" "0 < alaw_level v"
    using assms rising_mono [OF alaw_rising, of v 127] rising_mono [OF alaw_rising, of 0 v]
    by (cases "v = 127"; cases "v = 0"; force)+
qed

lemma a2s_byte: "unat (a2s ! unat (v XOR 0xd5)) = alaw_expand (unat v)" for v :: byte
proof -
  have "unat (v XOR 0xd5) < 2 ^ LENGTH(8)" by (rule unsigned_less)
  then have "a2s ! unat (v XOR 0xd5) = of_nat (alaw_expand (unat (v XOR 0xd5) XOR 0xd5))"
    by (simp add: a2s_eq)
  also have "unat (v XOR 0xd5) XOR 0xd5 = unat v"
    using byte_xor [of v "0xd5"] xor_d5 [of "unat v"] by simp
  finally have "unat (a2s ! unat (v XOR 0xd5)) = alaw_expand (unat v) mod 65536"
    by (simp add: unat_of_nat)
  moreover have "unat v < 2 ^ LENGTH(8)" by (rule unsigned_less)
  then have "alaw_expand (unat v) < 65536"
    using alaw_level_less [of "unat v"] alaw_level_less [of "unat v - 128"]
    by (auto simp: alaw_expand_def)
  ultimately show ?thesis by simp
qed

lemma lev_pos_eq: "w \<le> 127 \<Longrightarrow> lev_pos w = alaw_level w"
  by (simp add: lev_pos_def a2s_byte unat_small alaw_expand_def)

lemma unat_neg: "w \<le> 127 \<Longrightarrow> unat (0xff - of_nat w :: byte) = 255 - w"
  using unat_small [of w] by (simp add: unat_sub word_le_nat_alt)

lemma lev_neg_eq: "w \<le> 127 \<Longrightarrow> lev_neg w = 65536 - alaw_level (127 - w)"
proof -
  assume w: "w \<le> 127"
  then have "\<not> 255 - w < 128" "255 - w - 128 = 127 - w" by simp_all
  then show ?thesis using w by (simp add: lev_neg_def a2s_byte unat_neg alaw_expand_def)
qed

lemma pos_rising: "rising lev_pos 127 0"
  using alaw_rising by (simp add: rising_def lev_pos_eq)

lemma neg_rising: "rising lev_neg 127 32768"
  unfolding rising_def
proof (intro conjI allI impI)
  show "32768 \<le> lev_neg 0" using alaw_level_less(1) [of 127] by (simp add: lev_neg_eq)
  fix w :: nat assume w: "w < 127"
  then have "Suc (126 - w) = 127 - w" by simp
  then have "alaw_level (126 - w) + 8 \<le> alaw_level (127 - w)"
    using alaw_level_step [of "126 - w"] w by simp
  moreover have "alaw_level (127 - w) < 32768" using alaw_level_less(1) [of "127 - w"] by simp
  ultimately show "lev_neg w + 8 \<le> lev_neg (Suc w)" using w by (simp add: lev_neg_eq)
qed

text \<open>What the initialisation leaves in the table.\<close>

lemma init_eq:
  "yate_codec_alaw_slin_init t i =
     (if 32768 \<le> i \<and> i < 65536 then (0xff - of_nat (climb lev_neg 127 32768 (Suc (i - 32768)))) XOR 0xd5
      else if i < 32768 then of_nat (climb lev_pos 127 0 (Suc i)) XOR 0xd5 else t i)"
proof -
  have "(65536 :: nat) = 32768 + 32768" by simp
  then show ?thesis
    unfolding yate_codec_alaw_slin_init_def
    by (simp only: pos_fold [OF pos_rising] neg_fold [OF neg_rising] Let_def prod.case)
qed

lemma init_pos:
  assumes "w \<le> 127"
  shows "yate_codec_alaw_slin_init t (lev_pos w) = of_nat w XOR 0xd5"
proof -
  have "lev_pos w < 32768" using assms alaw_level_less [of w] by (simp add: lev_pos_eq)
  moreover have "climb lev_pos 127 0 (Suc (lev_pos w)) = w"
    using climb_level [OF pos_rising assms] by (simp del: climb.simps)
  ultimately show ?thesis by (simp add: init_eq del: climb.simps)
qed

lemma init_neg:
  assumes "w \<le> 127"
  shows "yate_codec_alaw_slin_init t (lev_neg w) = (0xff - of_nat w) XOR 0xd5"
proof -
  have "127 - w < 128" using assms by simp
  then have "lev_neg w < 65536" "32768 \<le> lev_neg w"
    using assms alaw_level_less [of "127 - w"] unfolding lev_neg_eq [OF assms] by linarith+
  moreover have "climb lev_neg 127 32768 (Suc (lev_neg w - 32768)) = w"
    using climb_level [OF neg_rising assms] .
  ultimately show ?thesis by (simp add: init_eq del: climb.simps)
qed

section \<open>Lossless\<close>

lemma init_inverse: "yate_codec_alaw_slin_init t (unat (a2s ! unat b)) = b"
proof -
  define v where "v = b XOR 0xd5"
  have b: "b = v XOR 0xd5" by (simp add: v_def xor.assoc)
  have lt: "unat v < 2 ^ LENGTH(8)" by (rule unsigned_less)
  show ?thesis
  proof (cases "unat v < 128")
    case True
    then have "init_arg = lev_pos (unat v) \<Longrightarrow> yate_codec_alaw_slin_init t init_arg = b" for init_arg
      using init_pos [of "unat v" t] by (simp add: b)
    then show ?thesis by (simp add: lev_pos_def b)
  next
    case False
    define w where "w = 255 - unat v"
    have w: "w \<le> 127" using False by (simp add: w_def)
    have "unat (0xff - of_nat w :: byte) = unat v"
      using unat_neg [OF w] lt by (simp add: w_def)
    then have v: "0xff - of_nat w = v" by (simp only: word_unat_eq_iff)
    then show ?thesis
      using init_neg [OF w, of t] by (simp add: lev_neg_def b)
  qed
qed

lemma init_first: "yate_codec_alaw_slin_init t 0 \<noteq> 0"
  by (simp add: init_eq)

text \<open>
  The decoder's table is the A-law expansion of G.711: the sample for a byte is the
  level of its segment and step, negated when the sign bit is clear.
\<close>

theorem yate_a2s_is_alaw: "unat (a2s ! unat b) = alaw_expand (unat (b XOR 0xd5))" for b :: byte
  using a2s_byte [of "b XOR 0xd5"] by (simp add: xor.assoc)

text \<open>A table that was never built, or built by an earlier conversion.\<close>

definition table_ok :: "(nat \<Rightarrow> byte) \<Rightarrow> bool" where
  "table_ok t \<longleftrightarrow> t 0 = 0 \<or> (\<exists>t'. t = yate_codec_alaw_slin_init t')"

lemma slin_to_alaw_inverse:
  assumes "table_ok t"
  shows "fst (yate_codec_slin_to_alaw (yate_codec_alaw_to_slin bytes) t) = bytes \<and>
    table_ok (snd (yate_codec_slin_to_alaw samples t))"
proof -
  have "map (\<lambda>s. yate_codec_alaw_slin_init t' (unat s)) (yate_codec_alaw_to_slin bytes) = bytes" for t'
    by (simp add: yate_codec_alaw_to_slin_def init_inverse map_idI)
  then show ?thesis
    using assms init_first by (auto simp: yate_codec_slin_to_alaw_def table_ok_def Let_def)
qed

text \<open>
  C35: the codec is lossless. Whatever bytes the channel carries, mapping their samples
  back gives the same bytes, from the first conversion on, and the table stays usable.
\<close>

theorem yate_codec_lossless:
  assumes "table_ok t"
  shows "fst (yate_codec_slin_to_alaw (yate_codec_alaw_to_slin bytes) t) = bytes \<and>
    table_ok (snd (yate_codec_slin_to_alaw samples t))"
  using assms by (rule slin_to_alaw_inverse)

theorem yate_codec_lossless_witness:
  "fst (yate_codec_slin_to_alaw (yate_codec_alaw_to_slin [0, 0x7e, 0xff]) (\<lambda>i. 0)) = [0, 0x7e, 0xff]"
  using yate_codec_lossless [of "\<lambda>i. 0" "[0, 0x7e, 0xff]" "[]"] by (simp add: table_ok_def)

section \<open>The sample handler\<close>

lemma le_samples_bytes: "le_samples (le_bytes ss) = ss"
proof (induction ss)
  case Nil
  then show ?case by (simp add: le_bytes_def)
next
  case (Cons s ss)
  have "push_bit 8 (ucast (ucast (drop_bit 8 s) :: byte)) OR ucast (ucast s :: byte) = s"
    by (rule bit_word_eqI) (auto simp: bit_simps)
  then show ?case using Cons by (simp add: le_bytes_def)
qed

lemma length_le_bytes: "length (le_bytes ss) = 2 * length ss"
  by (induction ss) (simp_all add: le_bytes_def)

lemma sample_handler:
  assumes "table_ok (io_s2a io)" and "bytes \<noteq> []"
    and "handler (io_user io) (outSampleBuf io) bytes = (u, out)" and "length bytes \<le> length out"
  shows "\<exists>io' w. yate_sample_input_cb handler (le_bytes (yate_codec_alaw_to_slin bytes)) io = Some (io', w) \<and>
    io_user io' = u \<and> outSampleBuf io' = out \<and> table_ok (io_s2a io') \<and>
    length w = length (le_bytes (yate_codec_alaw_to_slin bytes)) \<and>
    fst (yate_codec_slin_to_alaw (le_samples w) (io_s2a io')) = take (length bytes) out"
proof -
  let ?rd = "le_bytes (yate_codec_alaw_to_slin bytes)"
  have n: "length ?rd = 2 * length bytes"
    by (simp add: length_le_bytes yate_codec_alaw_to_slin_def)
  obtain t where t: "yate_codec_slin_to_alaw (le_samples ?rd) (io_s2a io) = (bytes, t)" "table_ok t"
    using slin_to_alaw_inverse [OF assms(1), of bytes "yate_codec_alaw_to_slin bytes"]
    by (cases "yate_codec_slin_to_alaw (yate_codec_alaw_to_slin bytes) (io_s2a io)")
       (auto simp: le_samples_bytes)
  let ?w = "le_bytes (yate_codec_alaw_to_slin (take (length bytes) out))"
  have "?rd \<noteq> []" using n assms(2) by (metis length_0_conv mult_is_0 numeral_eq_Suc nat.distinct(1))
  then have "yate_sample_input_cb handler ?rd io =
      Some (io\<lparr>io_s2a := t, outSampleBuf := out, io_user := u\<rparr>, ?w)"
    using t(1) assms(3) n by (simp add: yate_sample_input_cb_def)
  moreover have "fst (yate_codec_slin_to_alaw (le_samples ?w) t) = take (length bytes) out"
    using slin_to_alaw_inverse [OF t(2)] by (simp add: le_samples_bytes)
  moreover have "length ?w = length ?rd"
    using n assms(4) by (simp add: length_le_bytes yate_codec_alaw_to_slin_def)
  ultimately show ?thesis using t(2) by simp
qed

text \<open>
  The sample handler is transparent. For the samples of \<open>n\<close> channel bytes, the
  registered call-back gets exactly these bytes, and what is written back decodes to
  exactly the \<open>n\<close> bytes the call-back put into the output buffer, as many bytes as were read.
\<close>

theorem yate_samples_transparent:
  assumes "table_ok (io_s2a io)" and "bytes \<noteq> []"
    and "handler (io_user io) (outSampleBuf io) bytes = (u, out)" and "length bytes \<le> length out"
  shows "\<exists>io' w. yate_sample_input_cb handler (le_bytes (yate_codec_alaw_to_slin bytes)) io = Some (io', w) \<and>
    io_user io' = u \<and> outSampleBuf io' = out \<and> table_ok (io_s2a io') \<and>
    length w = length (le_bytes (yate_codec_alaw_to_slin bytes)) \<and>
    fst (yate_codec_slin_to_alaw (le_samples w) (io_s2a io')) = take (length bytes) out"
  using assms by (rule sample_handler)

theorem yate_samples_transparent_witness:
  "\<exists>io' w. yate_sample_input_cb (\<lambda>u out bs. (u @ bs, map (\<lambda>b. b + 1) bs))
       (le_bytes (yate_codec_alaw_to_slin [0x7e, 0x55]))
       \<lparr>io_s2a = \<lambda>i. 0, outSampleBuf = [], io_user = []\<rparr> = Some (io', w) \<and>
     io_user io' = [0x7e, 0x55] \<and>
     fst (yate_codec_slin_to_alaw (le_samples w) (io_s2a io')) = [0x7f, 0x56]"
  using yate_samples_transparent [of "\<lparr>io_s2a = \<lambda>i. 0, outSampleBuf = [], io_user = []\<rparr>" "[0x7e, 0x55]"
      "\<lambda>u out bs. (u @ bs, map (\<lambda>b. b + 1) bs)" "[0x7e, 0x55]" "[0x7f, 0x56]"]
  by (auto simp: table_ok_def)

end
