(* ===== verification/Yate_Message.thy ===== *)
theory Yate_Message
  imports Ras_Prelude
begin

text \<open>
  The messages of the telephony engine, \<open>src/yate_message.c\<close>: lines are collected in a
  buffer of 4096 characters and taken apart in place, fields end at colons and a parameter
  is a field with an equals sign.

  The buffer is a list of characters that pointers index; an access past its end is the
  fault \<open>ArrayOverrun\<close>. As the C standard has it, \<open>memchr\<close> looks at the characters one after
  the other and stops at the first match. What is written to the engine is kept in \<open>msg_out\<close>,
  \<open>msg_fd_read\<close> tells whether its messages are still waited for, and the function that is
  called for an incoming call works on \<open>msg_user\<close>.
\<close>

section \<open>Strings in a buffer\<close>

abbreviation (input) STR_BUF_SIZE :: nat where "STR_BUF_SIZE \<equiv> 4096"
abbreviation (input) NUL :: char where "NUL \<equiv> CHR 0x00"

primrec memchr :: "string \<Rightarrow> nat \<Rightarrow> char \<Rightarrow> nat \<Rightarrow> fault + nat option" where
  "memchr b p c 0 = Inr None"
| "memchr b p c (Suc n) =
     (if length b \<le> p then Inl ArrayOverrun
      else if b ! p = c then Inr (Some p)
      else memchr b (Suc p) c n)"

text \<open>The string that starts at a position: what \<open>strlen\<close>, \<open>strcmp\<close> and \<open>strcpy\<close> read.\<close>

definition c_str :: "string \<Rightarrow> nat \<Rightarrow> fault + string" where
  "c_str b p = (if NUL \<in> set (drop p b) then Inr (takeWhile (\<lambda>c. c \<noteq> NUL) (drop p b))
                else Inl ArrayOverrun)"

text \<open>An array read as a string by whoever gets a pointer to it.\<close>

definition zstr :: "string \<Rightarrow> string" where
  "zstr a = takeWhile (\<lambda>c. c \<noteq> NUL) a"

definition strcpy :: "string \<Rightarrow> string \<Rightarrow> string" where
  "strcpy dst v = v @ [NUL] @ drop (length v + 1) dst"

section \<open>State\<close>

record 's yate_msg =
  yate_msg_buf :: string
  yate_msg_buf_pos :: nat
  yate_called :: string
  yate_caller :: string
  yate_format :: string
  msg_fd_read :: bool
  msg_out :: string
  msg_user :: 's

section \<open>Parsing\<close>

definition yate_message_parse_parameter :: "nat \<Rightarrow> 's yate_msg \<Rightarrow> fault + 's yate_msg" where
  "yate_message_parse_parameter buf y =
     (case c_str (yate_msg_buf y) buf of
        Inl e \<Rightarrow> Inl e
      | Inr s \<Rightarrow>
          (case memchr (yate_msg_buf y) buf CHR ''='' (length s) of
             Inl e \<Rightarrow> Inl e
           | Inr None \<Rightarrow> Inr y
           | Inr (Some end') \<Rightarrow>
               let y = y\<lparr>yate_msg_buf := (yate_msg_buf y)[end' := NUL]\<rparr> in
               (case (c_str (yate_msg_buf y) buf, c_str (yate_msg_buf y) (end' + 1)) of
                  (Inr key, Inr val) \<Rightarrow>
                    if length key = 0 then Inr y
                    else if STR_BUF_SIZE - 1 < length val then Inr y
                    else
                      let y = (if key = ''callednr'' then y\<lparr>yate_called := strcpy (yate_called y) val\<rparr> else y);
                          y = (if key = ''caller'' then y\<lparr>yate_caller := strcpy (yate_caller y) val\<rparr> else y);
                          y = (if key = ''format'' then y\<lparr>yate_format := strcpy (yate_format y) val\<rparr> else y)
                      in Inr y
                | (Inl e, _) \<Rightarrow> Inl e
                | (_, Inl e) \<Rightarrow> Inl e)))"

text \<open>
  The loop over the fields, from \<open>start\<close> on, with \<open>remaining\<close> characters to search, the
  number of fields seen and the position of the field with the message type. Each round
  that does not end the loop moves \<open>start\<close> forward, past the end of the buffer after
  finitely many rounds.
\<close>

lemma memchr_range: "memchr b p c n = Inr (Some i) \<Longrightarrow> p \<le> i \<and> i < p + n \<and> i < length b \<and> b ! i = c"
proof (induction n arbitrary: p)
  case (Suc n)
  show ?case
  proof (cases "b ! p = c")
    case False
    with Suc.prems have "memchr b (Suc p) c n = Inr (Some i)"
      by (auto split: if_splits)
    from Suc.IH [OF this] show ?thesis by auto
  qed (use Suc.prems in \<open>auto split: if_splits\<close>)
qed simp

lemma parse_parameter_length:
  "yate_message_parse_parameter p y = Inr z \<Longrightarrow> length (yate_msg_buf z) = length (yate_msg_buf y)"
  by (auto simp: yate_message_parse_parameter_def Let_def split: sum.splits option.splits if_splits)

function yate_message_parse_parameters ::
    "nat \<Rightarrow> nat \<Rightarrow> nat \<Rightarrow> nat option \<Rightarrow> 's yate_msg \<Rightarrow> fault + (bool \<times> 's yate_msg)" where
  "yate_message_parse_parameters start remaining argument_counter type y =
     (case memchr (yate_msg_buf y) start CHR '':'' remaining of
        Inl e \<Rightarrow> Inl e
      | Inr None \<Rightarrow>
          (case yate_message_parse_parameter start y of
             Inl e \<Rightarrow> Inl e
           | Inr y \<Rightarrow>
               (case type of
                  None \<Rightarrow> Inr (False, y)
                | Some t \<Rightarrow>
                    (case c_str (yate_msg_buf y) t of
                       Inl e \<Rightarrow> Inl e
                     | Inr s \<Rightarrow> Inr (s = ''call.execute'', y))))
      | Inr (Some end') \<Rightarrow>
          (case yate_message_parse_parameter start
                  (y\<lparr>yate_msg_buf := (yate_msg_buf y)[end' := NUL]\<rparr>) of
             Inl e \<Rightarrow> Inl e
           | Inr z \<Rightarrow>
               yate_message_parse_parameters (end' + 1) (remaining - (end' - start))
                 (argument_counter + 1) (if argument_counter = 1 then Some start else type) z))"
  by pat_completeness auto

termination
  by (relation "measure (\<lambda>(start, remaining, n, type, y). length (yate_msg_buf y) + 1 - start)")
     (auto dest!: memchr_range parse_parameter_length)

definition yate_message_parse_incoming :: "nat \<Rightarrow> 's yate_msg \<Rightarrow> fault + (bool \<times> 's yate_msg)" where
  "yate_message_parse_incoming len y =
     (case memchr (yate_msg_buf y) 0 CHR '':'' len of
        Inl e \<Rightarrow> Inl e
      | Inr None \<Rightarrow> Inr (False, y)
      | Inr (Some i) \<Rightarrow>
          (let message_id = i + 1 in
           case memchr (yate_msg_buf y) message_id CHR '':'' (len - message_id) of
             Inl e \<Rightarrow> Inl e
           | Inr None \<Rightarrow> Inr (False, y)
           | Inr (Some message_id_end) \<Rightarrow>
               (case yate_message_parse_parameters (message_id_end + 1) (len - message_id_end - 1) 0 None
                       (y\<lparr>yate_msg_buf := (yate_msg_buf y)[message_id_end := NUL]\<rparr>) of
                  Inl e \<Rightarrow> Inl e
                | Inr (call_execute, y) \<Rightarrow>
                    if call_execute then
                      (case c_str (yate_msg_buf y) message_id of
                         Inl e \<Rightarrow> Inl e
                       | Inr s \<Rightarrow>
                           Inr (True, y\<lparr>msg_out := msg_out y @ ''%%<message:'' @ s @ '':true:'' @ [CHR 0x0A]\<rparr>))
                    else Inr (False, y))))"

section \<open>Reading lines\<close>

text \<open>
  \<open>call_initialize\<close> is the registered function, if there is one. The handler's loop over the
  characters it has read returns the handler's result.
\<close>

definition yate_message_clear :: "'s yate_msg \<Rightarrow> 's yate_msg" where
  "yate_message_clear y = y\<lparr>yate_msg_buf := replicate STR_BUF_SIZE NUL, yate_msg_buf_pos := 0\<rparr>"

definition yate_message_line ::
    "(string \<Rightarrow> string \<Rightarrow> string \<Rightarrow> 's \<Rightarrow> 's) option \<Rightarrow> 's yate_msg \<Rightarrow> fault + 's yate_msg" where
  "yate_message_line call_initialize y =
     (let y = y\<lparr>yate_msg_buf := (yate_msg_buf y)[yate_msg_buf_pos y - 1 := NUL]\<rparr> in
      case yate_message_parse_incoming (yate_msg_buf_pos y) y of
        Inl e \<Rightarrow> Inl e
      | Inr (call_execute, y) \<Rightarrow>
          Inr (yate_message_clear
            (case call_initialize of
               None \<Rightarrow> y
             | Some f \<Rightarrow>
                 if call_execute
                 then y\<lparr>msg_user := f (zstr (yate_called y)) (zstr (yate_caller y)) (zstr (yate_format y)) (msg_user y)\<rparr>
                 else y)))"

primrec yate_message_chars ::
    "(string \<Rightarrow> string \<Rightarrow> string \<Rightarrow> 's \<Rightarrow> 's) option \<Rightarrow> string \<Rightarrow> 's yate_msg
     \<Rightarrow> fault + (int \<times> 's yate_msg)" where
  "yate_message_chars call_initialize [] y = Inr (0, y)"
| "yate_message_chars call_initialize (c # cs) y =
     (if yate_msg_buf_pos y = STR_BUF_SIZE - 1 then Inr (-1, yate_message_clear y)
      else
        let y = y\<lparr>yate_msg_buf := (yate_msg_buf y)[yate_msg_buf_pos y := c],
                  yate_msg_buf_pos := yate_msg_buf_pos y + 1\<rparr>
        in case (if c = CHR 0x0A then yate_message_line call_initialize y else Inr y) of
             Inl e \<Rightarrow> Inl e
           | Inr y \<Rightarrow> yate_message_chars call_initialize cs y)"

text \<open>\<open>rd\<close> is what \<open>read\<close> returned: \<open>None\<close> for an error or the end of the input.\<close>

definition yate_message_read_cb ::
    "(string \<Rightarrow> string \<Rightarrow> string \<Rightarrow> 's \<Rightarrow> 's) option \<Rightarrow> bool \<Rightarrow> string option \<Rightarrow> 's yate_msg
     \<Rightarrow> fault + (int \<times> 's yate_msg)" where
  "yate_message_read_cb call_initialize readable rd y =
     (if readable then
        (case rd of
           None \<Rightarrow> Inr (-1, y\<lparr>msg_fd_read := False\<rparr>)
         | Some temp_buf \<Rightarrow> yate_message_chars call_initialize temp_buf y)
      else Inr (0, y))"

end
