(* ===== verification/Yate_Parse.thy ===== *)
theory Yate_Parse
  imports Yate_Message
begin

text \<open>
  The engine's messages as lists of fields: what the in-place parser makes of a message
  that was put together from fields, what the reader makes of a stream of such messages
  in whatever pieces it arrives, and where the parser reads past its buffer.
\<close>

section \<open>Messages as fields\<close>

text \<open>Fields put together with a separator, and the parameters a message sets.\<close>

fun joins :: "char \<Rightarrow> string list \<Rightarrow> string" where
  "joins c [] = []"
| "joins c [f] = f"
| "joins c (f # g # fs) = f @ c # joins c (g # fs)"

type_synonym yate_params = "string \<times> string \<times> string"

definition field_key :: "string \<Rightarrow> string" where
  "field_key f = takeWhile (\<lambda>c. c \<noteq> CHR ''='') f"

definition set_param :: "string \<Rightarrow> yate_params \<Rightarrow> yate_params" where
  "set_param f = (\<lambda>(called, caller, format).
     if CHR ''='' \<in> set f then
       let v = tl (dropWhile (\<lambda>c. c \<noteq> CHR ''='') f) in
       if field_key f = ''callednr'' then (v, caller, format)
       else if field_key f = ''caller'' then (called, v, format)
       else if field_key f = ''format'' then (called, caller, v)
       else (called, caller, format)
     else (called, caller, format))"

definition yate_params :: "'s yate_msg \<Rightarrow> yate_params" where
  "yate_params y = (zstr (yate_called y), zstr (yate_caller y), zstr (yate_format y))"

text \<open>
  The fields after the message identifier: time, type and parameters. The type is the
  second of them and counts only when another field follows.
\<close>

fun yate_fields :: "nat \<Rightarrow> string option \<Rightarrow> string list \<Rightarrow> yate_params \<Rightarrow> bool \<times> yate_params" where
  "yate_fields n ty [] v = (False, v)"
| "yate_fields n ty [f] v = (ty = Some ''call.execute'', set_param f v)"
| "yate_fields n ty (f # g # fs) v =
     yate_fields (n + 1) (if n = 1 then Some (field_key f) else ty) (g # fs) (set_param f v)"

definition field_ok :: "string \<Rightarrow> bool" where
  "field_ok f \<longleftrightarrow> set f \<inter> {CHR '':'', CHR 0x0A, NUL} = {}"

section \<open>Library functions on a buffer\<close>

lemma memchr_hit:
  "c \<notin> set f \<Longrightarrow> length f < n \<Longrightarrow>
   memchr (pre @ f @ c # rest) (length pre) c n = Inr (Some (length pre + length f))"
proof (induction f arbitrary: pre n)
  case Nil
  then show ?case by (cases n) (auto simp: nth_append)
next
  case (Cons a f)
  then obtain n' where n: "n = Suc n'" by (cases n) auto
  from Cons.IH [of n' "pre @ [a]"] Cons.prems show ?case
    by (auto simp: n nth_append)
qed

lemma memchr_none:
  "c \<notin> set (take n (drop p b)) \<Longrightarrow> p + n \<le> length b \<Longrightarrow> memchr b p c n = Inr None"
proof (induction n arbitrary: p)
  case (Suc n)
  then have "drop p b = b ! p # drop (Suc p) b"
    by (simp add: Cons_nth_drop_Suc)
  with Suc show ?case by auto
qed simp

lemma memchr_overrun:
  "c \<notin> set (drop p b) \<Longrightarrow> p \<le> length b \<Longrightarrow> length b < p + n \<Longrightarrow> memchr b p c n = Inl ArrayOverrun"
proof (induction n arbitrary: p)
  case (Suc n)
  show ?case
  proof (cases "p < length b")
    case True
    then have "drop p b = b ! p # drop (Suc p) b"
      by (simp add: Cons_nth_drop_Suc)
    with Suc True show ?thesis by auto
  qed simp
qed simp

declare memchr.simps(2) [simp del]

lemma c_str_at: "NUL \<notin> set f \<Longrightarrow> c_str (pre @ f @ NUL # rest) (length pre) = Inr f"
  by (simp add: c_str_def takeWhile_append)

lemma zstr_strcpy [simp]: "NUL \<notin> set v \<Longrightarrow> zstr (strcpy dst v) = v"
  by (simp add: zstr_def strcpy_def takeWhile_append)

section \<open>One parameter\<close>

text \<open>The field with its equals sign overwritten.\<close>

definition cut_field :: "string \<Rightarrow> string" where
  "cut_field f = (if CHR ''='' \<in> set f then field_key f @ NUL # tl (dropWhile (\<lambda>c. c \<noteq> CHR ''='') f) else f)"

lemma field_split:
  "CHR ''='' \<in> set f \<Longrightarrow> f = field_key f @ CHR ''='' # tl (dropWhile (\<lambda>c. c \<noteq> CHR ''='') f)"
  by (induction f) (auto simp: field_key_def)

lemma length_cut_field [simp]: "length (cut_field f) = length f"
proof (cases "CHR ''='' \<in> set f")
  case True
  have "length f = length (field_key f @ CHR ''='' # tl (dropWhile (\<lambda>c. c \<noteq> CHR ''='') f))"
    using arg_cong [OF field_split [OF True], of length] .
  then show ?thesis
    using True by (simp add: cut_field_def)
qed (simp add: cut_field_def)

lemma field_key_notin: "CHR ''='' \<notin> set (field_key f)"
  by (auto simp: field_key_def dest: set_takeWhileD)

lemma c_str_cut_field:
  assumes "NUL \<notin> set f"
  shows "c_str (pre @ cut_field f @ NUL # rest) (length pre) = Inr (field_key f)"
proof (cases "CHR ''='' \<in> set f")
  case True
  have "NUL \<notin> set (field_key f)"
    using assms by (auto simp: field_key_def dest: set_takeWhileD)
  then show ?thesis
    using True c_str_at [of "field_key f" pre] by (simp add: cut_field_def)
next
  case False
  then have "field_key f = f"
    by (auto simp: field_key_def takeWhile_eq_all_conv)
  then show ?thesis
    using False assms c_str_at [of f pre] by (simp add: cut_field_def)
qed

lemma parse_parameter_step:
  assumes buf: "yate_msg_buf y = pre @ f @ NUL # rest" and nul: "NUL \<notin> set f" and len: "length f < 4096"
  shows "\<exists>z. yate_message_parse_parameter (length pre) y = Inr z \<and>
    yate_msg_buf z = pre @ cut_field f @ NUL # rest \<and> yate_params z = set_param f (yate_params y) \<and>
    msg_out z = msg_out y \<and> msg_user z = msg_user y \<and> yate_msg_buf_pos z = yate_msg_buf_pos y"
proof (cases "CHR ''='' \<in> set f")
  case False
  then have "memchr (yate_msg_buf y) (length pre) CHR ''='' (length f) = Inr None"
    by (intro memchr_none) (simp_all add: buf)
  then show ?thesis
    using False buf c_str_at [OF nul, of pre rest]
    by (simp add: yate_message_parse_parameter_def cut_field_def set_param_def split: prod.split)
next
  case True
  define v where "v = tl (dropWhile (\<lambda>c. c \<noteq> CHR ''='') f)"
  have f: "f = field_key f @ CHR ''='' # v"
    using field_split [OF True] by (simp add: v_def)
  have nuls: "NUL \<notin> set (field_key f)" "NUL \<notin> set v"
    using nul by (subst (asm) f, simp)+
  have lens: "length (field_key f) < length f" "length v < length f"
    using arg_cong [OF f, of length] by simp_all
  have "memchr (pre @ field_key f @ CHR ''='' # (v @ NUL # rest)) (length pre) CHR ''='' (length f) =
      Inr (Some (length pre + length (field_key f)))"
    using lens by (intro memchr_hit field_key_notin)
  moreover have eq: "pre @ f @ NUL # rest = pre @ field_key f @ CHR ''='' # (v @ NUL # rest)"
    by (subst f) simp
  ultimately have hit: "memchr (yate_msg_buf y) (length pre) CHR ''='' (length f) =
      Inr (Some (length pre + length (field_key f)))"
    unfolding buf by argo
  have upd: "(yate_msg_buf y)[length pre + length (field_key f) := NUL] = pre @ field_key f @ NUL # v @ NUL # rest"
    using list_update_length [of "pre @ field_key f"] by (simp add: buf eq)
  have key: "c_str (pre @ field_key f @ NUL # v @ NUL # rest) (length pre) = Inr (field_key f)"
    using c_str_at [OF nuls(1)] by simp
  have val: "c_str (pre @ field_key f @ NUL # v @ NUL # rest) (length pre + length (field_key f) + 1) = Inr v"
    using c_str_at [OF nuls(2), of "pre @ field_key f @ [NUL]" rest] by simp
  show ?thesis
    using True lens len nuls c_str_at [OF nul, of pre rest]
    by (auto simp: yate_message_parse_parameter_def hit upd key val [simplified] Let_def buf [symmetric]
          cut_field_def v_def [symmetric] set_param_def yate_params_def)
qed

section \<open>All parameters\<close>

text \<open>The pointer to the message type, and the string it points to in what is parsed already.\<close>

definition type_at :: "string \<Rightarrow> nat option \<Rightarrow> string option \<Rightarrow> bool" where
  "type_at pre type ty \<longleftrightarrow>
     (case type of
        None \<Rightarrow> ty = None
      | Some t \<Rightarrow> (\<exists>p s q. pre = p @ s @ NUL # q \<and> t = length p \<and> NUL \<notin> set s \<and> ty = Some s))"

lemma type_at_append: "type_at pre type ty \<Longrightarrow> type_at (pre @ x) type ty"
  by (fastforce simp: type_at_def split: option.splits)

lemma type_at_field:
  assumes "NUL \<notin> set f"
  shows "type_at (pre @ cut_field f @ [NUL]) (Some (length pre)) (Some (field_key f))"
proof -
  have "\<exists>q. cut_field f @ [NUL] = field_key f @ NUL # q"
  proof (cases "CHR ''='' \<in> set f")
    case False
    then have "field_key f = f"
      by (auto simp: field_key_def takeWhile_eq_all_conv)
    then show ?thesis using False by (simp add: cut_field_def)
  qed (simp add: cut_field_def)
  moreover have "NUL \<notin> set (field_key f)"
    using assms by (auto simp: field_key_def dest: set_takeWhileD)
  ultimately show ?thesis
    by (auto simp: type_at_def)
qed

lemma type_at_c_str: "type_at pre (Some t) ty \<Longrightarrow> \<exists>s. ty = Some s \<and> c_str (pre @ x) t = Inr s"
  using c_str_at by (fastforce simp: type_at_def)

declare yate_message_parse_parameters.simps [simp del]

lemma parse_parameters_run:
  assumes "fs \<noteq> []" and "\<forall>f \<in> set fs. field_ok f"
    and "yate_msg_buf y = pre @ joins CHR '':'' fs @ NUL # zs" and "CHR '':'' \<notin> set zs"
    and "length (joins CHR '':'' fs) < remaining"
    and "length pre + remaining + (length fs - 1) \<le> length (yate_msg_buf y)"
    and "length (yate_msg_buf y) \<le> 4096" and "type_at pre type ty"
  shows "\<exists>z suf. yate_message_parse_parameters (length pre) remaining n type y =
      Inr (fst (yate_fields n ty fs (yate_params y)), z) \<and>
    yate_params z = snd (yate_fields n ty fs (yate_params y)) \<and> yate_msg_buf z = pre @ suf \<and>
    msg_out z = msg_out y \<and> msg_user z = msg_user y"
  using assms
proof (induction n ty fs "yate_params y" arbitrary: y pre remaining type rule: yate_fields.induct)
  case (2 n ty f)
  have nul: "NUL \<notin> set f" and col: "CHR '':'' \<notin> set f"
    using 2 by (auto simp: field_ok_def)
  have "memchr (yate_msg_buf y) (length pre) CHR '':'' remaining = Inr None"
    using 2 col by (intro memchr_none) (auto dest: in_set_takeD)
  moreover obtain z where "yate_message_parse_parameter (length pre) y = Inr z"
    "yate_msg_buf z = pre @ cut_field f @ NUL # zs" "yate_params z = set_param f (yate_params y)"
    "msg_out z = msg_out y" "msg_user z = msg_user y"
    using parse_parameter_step [OF _ nul, of y pre zs] 2 by auto
  moreover have "type = None \<and> ty = None \<or>
      (\<exists>t s. type = Some t \<and> ty = Some s \<and> c_str (pre @ cut_field f @ NUL # zs) t = Inr s)"
    using 2 type_at_c_str [of pre _ ty "cut_field f @ NUL # zs"] by (cases type) (auto simp: type_at_def)
  ultimately show ?case
    by (subst yate_message_parse_parameters.simps) auto
next
  case (3 n ty f g fs)
  have nul: "NUL \<notin> set f" and col: "CHR '':'' \<notin> set f"
    using 3 by (auto simp: field_ok_def)
  let ?rest = "joins CHR '':'' (g # fs) @ NUL # zs"
  have buf: "yate_msg_buf y = pre @ f @ CHR '':'' # ?rest"
    using 3 by simp
  have hit: "memchr (yate_msg_buf y) (length pre) CHR '':'' remaining = Inr (Some (length pre + length f))"
    unfolding buf using 3 col by (intro memchr_hit) auto
  have upd: "(yate_msg_buf y)[length pre + length f := NUL] = pre @ f @ NUL # ?rest"
    using list_update_length [of "pre @ f"] by (simp add: buf)
  obtain z where z: "yate_message_parse_parameter (length pre) (y\<lparr>yate_msg_buf := pre @ f @ NUL # ?rest\<rparr>) = Inr z"
    "yate_msg_buf z = pre @ cut_field f @ NUL # ?rest" "yate_params z = set_param f (yate_params y)"
    "msg_out z = msg_out y" "msg_user z = msg_user y"
    using parse_parameter_step [OF _ nul, of "y\<lparr>yate_msg_buf := pre @ f @ NUL # ?rest\<rparr>" pre ?rest] 3(8)
    by (auto simp: yate_params_def buf)
  let ?pre = "pre @ cut_field f @ [NUL]"
  have ty: "type_at ?pre (if n = 1 then Some (length pre) else type) (if n = 1 then Some (field_key f) else ty)"
    using type_at_field [OF nul] type_at_append [OF 3(9)] by simp
  have "length (yate_msg_buf z) = length (yate_msg_buf y)"
    using z(2) buf by simp
  then have "length (joins CHR '':'' (g # fs)) < remaining - length f"
    and "length ?pre + (remaining - length f) + (length (g # fs) - 1) \<le> length (yate_msg_buf z)"
    and "length (yate_msg_buf z) \<le> 4096"
    using 3(6,7,8) by simp_all
  with "3.hyps" [OF z(3) [symmetric], of ?pre "remaining - length f", OF _ _ _ _ _ _ _ ty] 3(3,5) z(2)
  obtain w suf where "yate_message_parse_parameters (length ?pre) (remaining - length f) (n + 1)
      (if n = 1 then Some (length pre) else type) z =
      Inr (fst (yate_fields (n + 1) (if n = 1 then Some (field_key f) else ty) (g # fs) (yate_params z)), w)"
    "yate_params w = snd (yate_fields (n + 1) (if n = 1 then Some (field_key f) else ty) (g # fs) (yate_params z))"
    "yate_msg_buf w = ?pre @ suf" "msg_out w = msg_out z" "msg_user w = msg_user z"
    by auto
  then show ?case
    by (subst yate_message_parse_parameters.simps) (auto simp: hit upd z)
qed simp

text \<open>The result in closed form.\<close>

lemma yate_fields_params: "snd (yate_fields n ty fs v) = foldl (\<lambda>v f. set_param f v) v fs"
  by (induction n ty fs v rule: yate_fields.induct) auto

lemma yate_fields_late: "2 \<le> n \<Longrightarrow> fs \<noteq> [] \<Longrightarrow> fst (yate_fields n ty fs v) = (ty = Some ''call.execute'')"
  by (induction n ty fs v rule: yate_fields.induct) auto

lemma yate_fields_type:
  "fst (yate_fields 0 None fs v) = (2 < length fs \<and> field_key (fs ! 1) = ''call.execute'')"
  by (cases fs; cases "tl fs"; cases "tl (tl fs)") (auto simp: yate_fields_late)

text \<open>
  With each field the search runs one character further past the end of the message: when
  that is past the end of the buffer, the last search does not end in it.
\<close>

lemma parse_parameters_overrun:
  assumes "fs \<noteq> []" and "\<forall>f \<in> set fs. field_ok f"
    and "yate_msg_buf y = pre @ joins CHR '':'' fs @ NUL # zs" and "CHR '':'' \<notin> set zs"
    and "length (joins CHR '':'' fs) < remaining"
    and "length (yate_msg_buf y) < length pre + remaining + (length fs - 1)"
    and "length (yate_msg_buf y) \<le> 4096"
  shows "yate_message_parse_parameters (length pre) remaining n type y = Inl ArrayOverrun"
  using assms
proof (induction fs arbitrary: y pre remaining type n rule: induct_list012)
  case (2 f)
  then have "memchr (yate_msg_buf y) (length pre) CHR '':'' remaining = Inl ArrayOverrun"
    by (intro memchr_overrun) (auto simp: field_ok_def)
  then show ?case
    by (subst yate_message_parse_parameters.simps) simp
next
  case (3 f g fs)
  have nul: "NUL \<notin> set f" and col: "CHR '':'' \<notin> set f"
    using 3 by (auto simp: field_ok_def)
  let ?rest = "joins CHR '':'' (g # fs) @ NUL # zs"
  have buf: "yate_msg_buf y = pre @ f @ CHR '':'' # ?rest"
    using 3 by simp
  have hit: "memchr (yate_msg_buf y) (length pre) CHR '':'' remaining = Inr (Some (length pre + length f))"
    unfolding buf using 3 col by (intro memchr_hit) auto
  have upd: "(yate_msg_buf y)[length pre + length f := NUL] = pre @ f @ NUL # ?rest"
    using list_update_length [of "pre @ f"] by (simp add: buf)
  obtain z where z: "yate_message_parse_parameter (length pre) (y\<lparr>yate_msg_buf := pre @ f @ NUL # ?rest\<rparr>) = Inr z"
    "yate_msg_buf z = pre @ cut_field f @ NUL # ?rest"
    using parse_parameter_step [OF _ nul, of "y\<lparr>yate_msg_buf := pre @ f @ NUL # ?rest\<rparr>" pre ?rest] "3.prems"(7)
    by (auto simp: buf)
  have "yate_message_parse_parameters (length (pre @ cut_field f @ [NUL])) (remaining - length f) (n + 1)
      (if n = 1 then Some (length pre) else type) z = Inl ArrayOverrun"
    using "3.prems" z(2) by (intro "3.IH") auto
  then show ?case
    by (subst yate_message_parse_parameters.simps) (auto simp: hit upd z)
qed simp

end
