(* ===== verification/Yate_Lines.thy ===== *)
theory Yate_Lines
  imports Yate_Parse
begin

text \<open>
  The reader of the engine's messages: a stream of messages, in whatever pieces it
  arrives, is handled message by message; and a message with too many fields for its
  length makes the parser read past its buffer.
\<close>

section \<open>Abstract handling of a message\<close>

text \<open>
  The state a message acts on: the three parameters that are kept, the text written to
  the engine and the application's data. A message consists of a keyword, an identifier
  and the fields described above.
\<close>

type_synonym 's yate_abs = "yate_params \<times> string \<times> 's"

definition yate_abs :: "'s yate_msg \<Rightarrow> 's yate_abs" where
  "yate_abs y = (yate_params y, msg_out y, msg_user y)"

definition yate_handle ::
    "(string \<Rightarrow> string \<Rightarrow> string \<Rightarrow> 's \<Rightarrow> 's) option \<Rightarrow> string list \<Rightarrow> 's yate_abs \<Rightarrow> 's yate_abs" where
  "yate_handle call_initialize ws = (\<lambda>(v, out, u).
     if length ws < 3 then (v, out, u)
     else
       let fs = drop 2 ws; v = foldl (\<lambda>v f. set_param f v) v fs in
       if 2 < length fs \<and> field_key (fs ! 1) = ''call.execute'' then
         (v, out @ ''%%<message:'' @ ws ! 1 @ '':true:'' @ [CHR 0x0A],
          case call_initialize of
            None \<Rightarrow> u
          | Some f \<Rightarrow> (case v of (called, caller, format) \<Rightarrow> f called caller format u))
       else (v, out, u))"

text \<open>
  Messages the reader can take: their characters are separators only where fields end,
  they fit the buffer, and so does the last search of the parser, which runs one
  character past the message for every field after the first three.
\<close>

definition message_ok :: "string list \<Rightarrow> bool" where
  "message_ok ws \<longleftrightarrow>
     ws \<noteq> [] \<and> (\<forall>f \<in> set ws. field_ok f) \<and>
     length (joins CHR '':'' ws) \<le> 4094 \<and>
     length (joins CHR '':'' ws) + length ws \<le> 4098"

text \<open>The buffer holds the start of a line and zeros.\<close>

definition holds_line :: "string \<Rightarrow> 's yate_msg \<Rightarrow> bool" where
  "holds_line l y \<longleftrightarrow>
     length l \<le> 4095 \<and> yate_msg_buf y = l @ replicate (4096 - length l) NUL \<and>
     yate_msg_buf_pos y = length l"

section \<open>One message\<close>

lemma joins_chars:
  "\<forall>f \<in> set fs. field_ok f \<Longrightarrow> c \<in> set (joins CHR '':'' fs) \<Longrightarrow> c \<noteq> CHR 0x0A \<and> c \<noteq> NUL"
  by (induction "CHR '':''" fs rule: joins.induct) (auto simp: field_ok_def)

lemma incoming_short:
  assumes "ws \<noteq> []" and "length ws < 3" and "\<forall>f \<in> set ws. field_ok f"
    and "yate_msg_buf y = joins CHR '':'' ws @ NUL # zs" and "CHR '':'' \<notin> set zs"
  shows "yate_message_parse_incoming (Suc (length (joins CHR '':'' ws))) y = Inr (False, y)"
proof (cases "length ws = 1")
  case True
  then obtain f where f: "ws = [f]" by (auto simp: length_Suc_conv)
  then have "memchr (yate_msg_buf y) 0 CHR '':'' (Suc (length (joins CHR '':'' ws))) = Inr None"
    using assms by (intro memchr_none) (auto simp: field_ok_def)
  then show ?thesis by (simp add: yate_message_parse_incoming_def)
next
  case False
  with assms(1,2) obtain f g where fg: "ws = [f, g]"
    by (cases ws; cases "tl ws"; cases "tl (tl ws)") auto
  have "memchr (yate_msg_buf y) 0 CHR '':'' (Suc (length (joins CHR '':'' ws))) = Inr (Some (length f))"
    using memchr_hit [of "CHR '':''" f _ "[]"] assms(3,4) by (auto simp: fg field_ok_def)
  moreover have "memchr (yate_msg_buf y) (Suc (length f)) CHR '':''
      (Suc (length (joins CHR '':'' ws)) - Suc (length f)) = Inr None"
    using assms by (intro memchr_none) (auto simp: fg field_ok_def)
  ultimately show ?thesis
    by (simp add: yate_message_parse_incoming_def Let_def)
qed

text \<open>With three fields or more, the fields after the identifier are parsed.\<close>

lemma incoming_long:
  assumes ok: "\<forall>f \<in> set (k # i # fs). field_ok f" and fs: "fs \<noteq> []"
    and buf: "yate_msg_buf y = joins CHR '':'' (k # i # fs) @ NUL # zs"
  shows "yate_message_parse_incoming (Suc (length (joins CHR '':'' (k # i # fs)))) y =
    (case yate_message_parse_parameters (length (k @ CHR '':'' # i @ [NUL]))
        (Suc (length (joins CHR '':'' fs))) 0 None
        (y\<lparr>yate_msg_buf := (k @ CHR '':'' # i @ [NUL]) @ joins CHR '':'' fs @ NUL # zs\<rparr>) of
       Inl e \<Rightarrow> Inl e
     | Inr (call_execute, y) \<Rightarrow>
         if call_execute then
           (case c_str (yate_msg_buf y) (Suc (length k)) of
              Inl e \<Rightarrow> Inl e
            | Inr s \<Rightarrow>
                Inr (True, y\<lparr>msg_out := msg_out y @ ''%%<message:'' @ s @ '':true:'' @ [CHR 0x0A]\<rparr>))
         else Inr (False, y))"
proof -
  obtain f fs' where f: "fs = f # fs'" using fs by (cases fs) auto
  let ?j = "joins CHR '':'' fs"
  have col: "CHR '':'' \<notin> set k" "CHR '':'' \<notin> set i"
    using ok by (auto simp: field_ok_def)
  have b: "yate_msg_buf y = k @ CHR '':'' # i @ CHR '':'' # ?j @ NUL # zs"
    using buf by (simp add: f)
  have len: "length (joins CHR '':'' (k # i # fs)) = length k + length i + length ?j + 2"
    by (simp add: f)
  have "memchr (yate_msg_buf y) 0 CHR '':'' (length k + length i + length ?j + 3) = Inr (Some (length k))"
    using memchr_hit [OF col(1), of _ "[]"] by (simp add: b)
  moreover have "memchr (yate_msg_buf y) (Suc (length k)) CHR '':'' (length i + length ?j + 2) =
      Inr (Some (length k + length i + 1))"
    using memchr_hit [OF col(2), of _ "k @ [CHR '':'']"] by (simp add: b)
  moreover have "(yate_msg_buf y)[length k + length i + 1 := NUL] =
      (k @ CHR '':'' # i @ [NUL]) @ ?j @ NUL # zs"
    using list_update_length [of "k @ CHR '':'' # i"] by (simp add: b)
  ultimately show ?thesis
    by (simp add: yate_message_parse_incoming_def Let_def len eval_nat_numeral del: joins.simps)
qed

lemma incoming_message:
  assumes ok: "message_ok ws" and buf: "yate_msg_buf y = joins CHR '':'' ws @ NUL # zs"
    and zs: "set zs \<subseteq> {NUL}" and len: "length (yate_msg_buf y) = 4096"
  shows "\<exists>call z. yate_message_parse_incoming (Suc (length (joins CHR '':'' ws))) y = Inr (call, z) \<and>
    yate_abs (case f of None \<Rightarrow> z
      | Some g \<Rightarrow> if call
          then z\<lparr>msg_user := g (zstr (yate_called z)) (zstr (yate_caller z)) (zstr (yate_format z)) (msg_user z)\<rparr>
          else z) = yate_handle f ws (yate_abs y)"
proof (cases "length ws < 3")
  case True
  have "yate_message_parse_incoming (Suc (length (joins CHR '':'' ws))) y = Inr (False, y)"
    using ok zs by (intro incoming_short [OF _ True _ buf]) (auto simp: message_ok_def)
  then show ?thesis
    using True by (auto simp: yate_handle_def yate_abs_def split: option.split)
next
  case False
  then obtain k i fs where ws: "ws = k # i # fs" and fs: "fs \<noteq> []"
    by (cases ws; cases "tl ws"; cases "tl (tl ws)") auto
  have col: "CHR '':'' \<notin> set zs" and all: "\<forall>f \<in> set (k # i # fs). field_ok f"
    using zs ok by (auto simp: message_ok_def ws)
  let ?pre = "k @ CHR '':'' # i @ [NUL]" and ?j = "joins CHR '':'' fs"
  let ?y = "y\<lparr>yate_msg_buf := ?pre @ ?j @ NUL # zs\<rparr>"
  have ji: "joins CHR '':'' (i # fs) = i @ CHR '':'' # ?j"
    using fs by (cases fs) simp_all
  have "\<exists>z suf. yate_message_parse_parameters (length ?pre) (Suc (length ?j)) 0 None ?y =
      Inr (fst (yate_fields 0 None fs (yate_params ?y)), z) \<and>
    yate_params z = snd (yate_fields 0 None fs (yate_params ?y)) \<and> yate_msg_buf z = ?pre @ suf \<and>
    msg_out z = msg_out ?y \<and> msg_user z = msg_user ?y"
    using ok fs all col len buf
    by (intro parse_parameters_run) (auto simp: message_ok_def ws ji type_at_def)
  then obtain z suf where z: "yate_message_parse_parameters (length ?pre) (Suc (length ?j)) 0 None ?y =
      Inr (fst (yate_fields 0 None fs (yate_params ?y)), z)"
    and zp: "yate_params z = snd (yate_fields 0 None fs (yate_params ?y))" and zb: "yate_msg_buf z = ?pre @ suf"
    and zo: "msg_out z = msg_out y" "msg_user z = msg_user y"
    by auto
  have id: "c_str (yate_msg_buf z) (Suc (length k)) = Inr i"
    using c_str_at [of i "k @ [CHR '':'']" suf] all by (simp add: zb field_ok_def)
  define call where "call = (2 < length fs \<and> field_key (fs ! 1) = ''call.execute'')"
  define w where "w = (if call then z\<lparr>msg_out := msg_out z @ ''%%<message:'' @ i @ '':true:'' @ [CHR 0x0A]\<rparr> else z)"
  have inc: "yate_message_parse_incoming (Suc (length (joins CHR '':'' ws))) y = Inr (call, w)"
    using incoming_long [OF all fs, of y zs] z buf id
    by (simp add: ws w_def call_def yate_fields_type del: joins.simps)
  have "yate_params ?y = yate_params y"
    by (simp add: yate_params_def)
  then have wp: "(zstr (yate_called w), zstr (yate_caller w), zstr (yate_format w)) =
      foldl (\<lambda>v f. set_param f v) (yate_params y) fs"
    using zp by (simp add: w_def yate_params_def yate_fields_params)
  have wo: "msg_user w = msg_user y"
      "msg_out w = (if call then msg_out y @ ''%%<message:'' @ i @ '':true:'' @ [CHR 0x0A] else msg_out y)"
    using zo by (simp_all add: w_def)
  have handle: "yate_handle f ws (yate_abs y) = (foldl (\<lambda>v f. set_param f v) (yate_params y) fs, msg_out w,
      if call then (case f of None \<Rightarrow> msg_user y
        | Some g \<Rightarrow> g (zstr (yate_called w)) (zstr (yate_caller w)) (zstr (yate_format w)) (msg_user y))
      else msg_user y)"
    using fs by (simp add: ws yate_handle_def yate_abs_def call_def wp [symmetric] wo Let_def
        split: option.split)
  show ?thesis
    unfolding handle using inc by (cases f) (simp_all add: yate_abs_def yate_params_def wp wo)
qed

lemma message_line:
  assumes ok: "message_ok ws" and l: "l = joins CHR '':'' ws"
    and buf: "yate_msg_buf y = l @ c # replicate (4095 - length l) NUL" and pos: "yate_msg_buf_pos y = Suc (length l)"
  shows "\<exists>z. yate_message_line f y = Inr z \<and> holds_line [] z \<and> yate_abs z = yate_handle f ws (yate_abs y)"
proof -
  let ?y = "y\<lparr>yate_msg_buf := l @ NUL # replicate (4095 - length l) NUL\<rparr>"
  have upd: "(yate_msg_buf y)[length l := NUL] = l @ NUL # replicate (4095 - length l) NUL"
    by (simp add: buf)
  have "length l \<le> 4094"
    using ok by (simp add: message_ok_def l)
  then obtain call z where z: "yate_message_parse_incoming (Suc (length l)) ?y = Inr (call, z)"
    and abs: "yate_abs (case f of None \<Rightarrow> z
      | Some g \<Rightarrow> if call
          then z\<lparr>msg_user := g (zstr (yate_called z)) (zstr (yate_caller z)) (zstr (yate_format z)) (msg_user z)\<rparr>
          else z) = yate_handle f ws (yate_abs ?y)"
    using incoming_message [OF ok, of ?y "replicate (4095 - length l) NUL" f] by (auto simp: l)
  have "yate_abs ?y = yate_abs y" and "yate_abs (yate_message_clear w) = yate_abs w" for w :: "'a yate_msg"
    by (simp_all add: yate_abs_def yate_params_def yate_message_clear_def)
  then show ?thesis
    using z abs upd by (simp add: yate_message_line_def Let_def pos holds_line_def yate_message_clear_def)
qed

section \<open>Streams of messages\<close>

lemma chars_collect:
  assumes "CHR 0x0A \<notin> set cs" and "holds_line l y" and "length l + length cs \<le> 4095"
  shows "\<exists>z. yate_message_chars f (cs @ ds) y = yate_message_chars f ds z \<and>
    holds_line (l @ cs) z \<and> yate_abs z = yate_abs y"
  using assms
proof (induction cs arbitrary: l y)
  case (Cons c cs)
  let ?y = "y\<lparr>yate_msg_buf := (yate_msg_buf y)[yate_msg_buf_pos y := c], yate_msg_buf_pos := yate_msg_buf_pos y + 1\<rparr>"
  obtain k where k: "4096 - length l = Suc k" "4096 - Suc (length l) = k"
    using Cons.prems(3) by (cases "4096 - length l") auto
  have "holds_line (l @ [c]) ?y"
    using Cons.prems(2,3) k by (auto simp: holds_line_def)
  moreover have "yate_abs ?y = yate_abs y"
    by (simp add: yate_abs_def yate_params_def)
  moreover have "yate_message_chars f ((c # cs) @ ds) y = yate_message_chars f (cs @ ds) ?y"
    using Cons.prems by (auto simp: holds_line_def Let_def)
  ultimately show ?case
    using Cons.IH [of "l @ [c]" ?y] Cons.prems by auto
qed auto

lemma chars_newline:
  assumes "holds_line l y" and "length l \<le> 4094"
  shows "yate_message_chars f (CHR 0x0A # ds) y =
    (case yate_message_line f (y\<lparr>yate_msg_buf := l @ CHR 0x0A # replicate (4095 - length l) NUL,
        yate_msg_buf_pos := Suc (length l)\<rparr>) of
       Inl e \<Rightarrow> Inl e
     | Inr z \<Rightarrow> yate_message_chars f ds z)"
proof -
  have "4096 - length l = Suc (4095 - length l)"
    using assms(2) by simp
  then show ?thesis
    using assms by (simp add: holds_line_def Let_def)
qed

lemma chars_message:
  assumes ok: "message_ok ws" and clean: "holds_line [] y"
  shows "\<exists>z. yate_message_chars f (joins CHR '':'' ws @ CHR 0x0A # ds) y = yate_message_chars f ds z \<and>
    holds_line [] z \<and> yate_abs z = yate_handle f ws (yate_abs y)"
proof -
  let ?l = "joins CHR '':'' ws"
  have len: "length ?l \<le> 4094" and nl: "CHR 0x0A \<notin> set ?l"
    using ok joins_chars [of ws] by (auto simp: message_ok_def)
  obtain w where w: "yate_message_chars f (?l @ CHR 0x0A # ds) y = yate_message_chars f (CHR 0x0A # ds) w"
    "holds_line ?l w" "yate_abs w = yate_abs y"
    using chars_collect [OF nl clean, of f "CHR 0x0A # ds"] len by auto
  let ?w = "w\<lparr>yate_msg_buf := ?l @ CHR 0x0A # replicate (4095 - length ?l) NUL, yate_msg_buf_pos := Suc (length ?l)\<rparr>"
  obtain z where "yate_message_line f ?w = Inr z" "holds_line [] z" "yate_abs z = yate_handle f ws (yate_abs ?w)"
    using message_line [OF ok refl, of ?w "CHR 0x0A" f] by auto
  moreover have "yate_abs ?w = yate_abs w"
    by (simp add: yate_abs_def yate_params_def)
  ultimately show ?thesis
    using w chars_newline [OF w(2) len, of f ds] by auto
qed

lemma chars_messages:
  assumes "\<forall>ws \<in> set msgs. message_ok ws" and "holds_line [] y"
  shows "\<exists>z. yate_message_chars f (concat (map (\<lambda>ws. joins CHR '':'' ws @ [CHR 0x0A]) msgs)) y = Inr (0, z) \<and>
    holds_line [] z \<and> yate_abs z = foldl (\<lambda>a ws. yate_handle f ws a) (yate_abs y) msgs"
  using assms
proof (induction msgs arbitrary: y)
  case (Cons ws msgs)
  obtain w where w: "holds_line [] w" "yate_abs w = yate_handle f ws (yate_abs y)"
    "yate_message_chars f (joins CHR '':'' ws @ CHR 0x0A # concat (map (\<lambda>ws. joins CHR '':'' ws @ [CHR 0x0A]) msgs)) y =
     yate_message_chars f (concat (map (\<lambda>ws. joins CHR '':'' ws @ [CHR 0x0A]) msgs)) w"
    using chars_message [of ws y f] Cons.prems by fastforce
  with Cons.IH [of w] Cons.prems show ?case by auto
qed simp

text \<open>Reads that succeed can be split anywhere.\<close>

definition yate_read :: "(string \<Rightarrow> string \<Rightarrow> string \<Rightarrow> 's \<Rightarrow> 's) option \<Rightarrow> string \<Rightarrow> 's yate_msg
    \<Rightarrow> fault + 's yate_msg" where
  "yate_read f chunk y =
     (case yate_message_read_cb f True (Some chunk) y of Inl e \<Rightarrow> Inl e | Inr (rc, z) \<Rightarrow> Inr z)"

lemma chars_split:
  "yate_message_chars f (cs @ ds) y = Inr (0, z) \<Longrightarrow>
   \<exists>w. yate_message_chars f cs y = Inr (0, w) \<and> yate_message_chars f ds w = Inr (0, z)"
  by (induction cs arbitrary: y) (auto simp: Let_def split: if_splits sum.splits)

lemma reads_chars:
  "yate_message_chars f (concat chunks) y = Inr (0, z) \<Longrightarrow> seqs (map (yate_read f) chunks) y = Inr z"
proof (induction chunks arbitrary: y)
  case (Cons c chunks)
  then obtain w where "yate_message_chars f c y = Inr (0, w)" "yate_message_chars f (concat chunks) w = Inr (0, z)"
    using chars_split by fastforce
  with Cons.IH show ?case
    by (simp add: yate_read_def yate_message_read_cb_def seqs.simps)
qed simp

text \<open>
  C8: the engine's messages. A stream of messages, read in any pieces, each of at most 4094
  characters, with its number of fields at most 4098, and with no zero byte in it, is
  handled message by message. Each one with at least three fields sets those of called number,
  calling number and format that it names and keeps the others as earlier messages left them. A message
  of type \<open>call.execute\<close> with at least one field behind the type is answered with its identifier
  and reported to the call handler, with the parameters received so far, once; without such a field
  it is neither. The buffer is empty afterwards.
\<close>

theorem yate_messages_handled:
  assumes "\<forall>ws \<in> set msgs. message_ok ws" and "holds_line [] y"
    and "concat chunks = concat (map (\<lambda>ws. joins CHR '':'' ws @ [CHR 0x0A]) msgs)"
  shows "\<exists>z. seqs (map (yate_read f) chunks) y = Inr z \<and> holds_line [] z \<and>
    yate_abs z = foldl (\<lambda>a ws. yate_handle f ws a) (yate_abs y) msgs"
  using chars_messages [OF assms(1,2), of f] reads_chars [of f chunks y] assms(3) by auto

text \<open>The state at program start, and a handler that lists the calls.\<close>

definition lab_yate :: "(string \<times> string \<times> string) list yate_msg" where
  "lab_yate = \<lparr>yate_msg_buf = replicate 4096 NUL, yate_msg_buf_pos = 0,
     yate_called = replicate 4096 NUL, yate_caller = replicate 4096 NUL, yate_format = replicate 4096 NUL,
     msg_fd_read = True, msg_out = [], msg_user = []\<rparr>"

definition lab_call :: "string \<Rightarrow> string \<Rightarrow> string \<Rightarrow> (string \<times> string \<times> string) list \<Rightarrow> (string \<times> string \<times> string) list" where
  "lab_call called caller format calls = calls @ [(called, caller, format)]"

lemma lab_yate_clean: "holds_line [] lab_yate" "yate_abs lab_yate = (([], [], []), [], [])"
proof -
  have "zstr (replicate n NUL) = []" for n
    by (cases n) (simp_all add: zstr_def)
  then show "holds_line [] lab_yate" "yate_abs lab_yate = (([], [], []), [], [])"
    by (simp_all add: lab_yate_def holds_line_def yate_abs_def yate_params_def)
qed

theorem yate_messages_handled_witness:
  "\<exists>z. seqs (map (yate_read (Some lab_call))
        [''%%>message:7f:16:call.exec'', ''ute:callednr=42:caller=17:id=1'' @ [CHR 0x0A]]) lab_yate = Inr z \<and>
     msg_out z = ''%%<message:7f:true:'' @ [CHR 0x0A] \<and> msg_user z = [(''42'', ''17'', [])]"
proof -
  let ?m = "[''%%>message'', ''7f'', ''16'', ''call.execute'', ''callednr=42'', ''caller=17'', ''id=1'']"
  have "message_ok ?m"
    by (simp add: message_ok_def field_ok_def)
  then have "\<exists>z. seqs (map (yate_read (Some lab_call))
        [''%%>message:7f:16:call.exec'', ''ute:callednr=42:caller=17:id=1'' @ [CHR 0x0A]]) lab_yate = Inr z \<and>
      holds_line [] z \<and> yate_abs z = foldl (\<lambda>a ws. yate_handle (Some lab_call) ws a) (yate_abs lab_yate) [?m]"
    by (intro yate_messages_handled lab_yate_clean(1)) simp_all
  moreover have "foldl (\<lambda>a ws. yate_handle (Some lab_call) ws a) (yate_abs lab_yate) [?m] =
      ((''42'', ''17'', []), ''%%<message:7f:true:'' @ [CHR 0x0A], [(''42'', ''17'', [])])"
    by (simp add: lab_yate_clean(2) yate_handle_def set_param_def field_key_def Let_def lab_call_def)
  ultimately show ?thesis
    by (auto simp: yate_abs_def)
qed

section \<open>Too many fields\<close>

text \<open>
  A read past the buffer. The parser does not count the separators it steps over: a
  message that fits the line buffer, but whose length and number of fields together exceed
  4098, makes it read past the end of the buffer.
\<close>

theorem yate_overread:
  assumes "3 \<le> length ws" and "\<forall>f \<in> set ws. field_ok f" and "length (joins CHR '':'' ws) \<le> 4094"
    and "4098 < length (joins CHR '':'' ws) + length ws" and "holds_line [] y"
  shows "yate_message_read_cb f True (Some (joins CHR '':'' ws @ [CHR 0x0A])) y = Inl ArrayOverrun"
proof -
  let ?l = "joins CHR '':'' ws"
  obtain k i fs where ws: "ws = k # i # fs" and fs: "fs \<noteq> []"
    using assms(1) by (cases ws; cases "tl ws"; cases "tl (tl ws)") auto
  have ji: "joins CHR '':'' (i # fs) = i @ CHR '':'' # joins CHR '':'' fs"
    using fs by (cases fs) simp_all
  have nl: "CHR 0x0A \<notin> set ?l"
    using assms(2) joins_chars [of ws] by auto
  obtain w where w: "yate_message_chars f (?l @ [CHR 0x0A]) y = yate_message_chars f [CHR 0x0A] w" "holds_line ?l w"
    using chars_collect [OF nl assms(5), of f "[CHR 0x0A]"] assms(3) by auto
  let ?w = "w\<lparr>yate_msg_buf_pos := Suc (length ?l), yate_msg_buf := ?l @ NUL # replicate (4095 - length ?l) NUL\<rparr>"
  let ?pre = "k @ CHR '':'' # i @ [NUL]"
  have "yate_message_parse_parameters (length ?pre) (Suc (length (joins CHR '':'' fs))) 0 None
      (?w\<lparr>yate_msg_buf := ?pre @ joins CHR '':'' fs @ NUL # replicate (4095 - length ?l) NUL\<rparr>) = Inl ArrayOverrun"
    using assms(2-4) fs by (intro parse_parameters_overrun) (auto simp: ws ji)
  then have "yate_message_parse_incoming (Suc (length ?l)) ?w = Inl ArrayOverrun"
    using incoming_long [of k i fs ?w "replicate (4095 - length ?l) NUL"] assms(2) fs
    by (simp add: ws del: joins.simps)
  then show ?thesis
    using w(1) chars_newline [OF w(2) assms(3), of f "[]"]
    by (simp add: yate_message_read_cb_def yate_message_line_def Let_def)
qed

theorem yate_overread_witness:
  "yate_message_read_cb None True (Some (joins CHR '':'' (replicate 3000 []) @ [CHR 0x0A])) lab_yate = Inl ArrayOverrun"
proof -
  have len: "length (joins CHR '':'' (replicate (Suc n) [])) = n" for n
    by (induction n) simp_all
  have "length (joins CHR '':'' (replicate 3000 [])) = 2999"
    using len [of 2999] by (simp add: eval_nat_numeral(3) [symmetric])
  then show ?thesis
    by (intro yate_overread lab_yate_clean) (auto simp: field_ok_def)
qed

end
