(* ===== verification/Soft_Uart.thy ===== *)
theory Soft_Uart
  imports Osmo_Core
begin

text \<open>
  The software UART, \<open>src/v110/soft_uart.c\<close> and \<open>src/v110/soft_uart.h\<close>: a receiver that turns a
  stream of unpacked bits into characters and hands them up in message buffers, the stub
  of the transmitter, and the management operations.

  The receive call-back works on the application's data, the component \<open>suart_user\<close> of the
  state, which its pointer \<open>priv\<close> leads to, and does not call the UART itself; it is handed
  the message, which it owns from then on, and the flags. \<open>msgb_alloc_c\<close> takes a 16-bit size, so a larger buffer size is cut off.
\<close>

section \<open>Data\<close>

definition OSMO_SUART_PARITY_NONE :: int where
  "OSMO_SUART_PARITY_NONE = 0"

definition NUM_OSMO_SUART_PARITY :: int where
  "NUM_OSMO_SUART_PARITY = 3"

definition OSMO_SUART_F_FRAMING_ERROR :: u32 where
  "OSMO_SUART_F_FRAMING_ERROR = 0"

lemmas suart_const_defs = OSMO_SUART_PARITY_NONE_def NUM_OSMO_SUART_PARITY_def
  OSMO_SUART_F_FRAMING_ERROR_def

record ('m, 'p) osmo_soft_uart_cfg =
  num_data_bits :: byte
  num_stop_bits :: byte
  parity_mode :: int
  rx_buf_size :: nat
  rx_timeout_ms :: nat
  priv :: nat
  rx_cb :: "(nat \<Rightarrow> 'm option \<Rightarrow> u32 \<Rightarrow> 'p \<Rightarrow> 'p) option"
  status_change_cb :: "(nat \<Rightarrow> u32 \<Rightarrow> 'p \<Rightarrow> 'p) option"

record ('m, 'q, 't, 'p) osmo_soft_uart =
  cfg :: "('m, 'p) osmo_soft_uart_cfg"
  suart_name :: string
  rx_running :: bool
  rx_bit_count :: byte
  rx_shift_reg :: byte
  rx_msg :: "'m option"
  rx_parity_bit :: byte
  rx_flags :: u32
  rx_status :: u32
  rx_timer :: 't
  tx_running :: bool
  tx_bit_count :: byte
  tx_shift_reg :: byte
  tx_msg :: "'m option"
  tx_queue :: 'q
  suart_user :: 'p

definition suart_default_cfg :: "('m, 'p) osmo_soft_uart_cfg" where
  "suart_default_cfg =
     \<lparr>num_data_bits = 8, num_stop_bits = 1, parity_mode = OSMO_SUART_PARITY_NONE,
      rx_buf_size = 1024, rx_timeout_ms = 100, priv = 0, rx_cb = None,
      status_change_cb = None\<rparr>"

section \<open>Receiver\<close>

definition suart_new_msg ::
    "('m, 'q, 't) osmo_api \<Rightarrow> ('m, 'q, 't, 'p) osmo_soft_uart \<Rightarrow> ('m, 'q, 't, 'p) osmo_soft_uart" where
  "suart_new_msg L sua = sua\<lparr>rx_msg := msgb_alloc L (rx_buf_size (cfg sua) mod 65536)\<rparr>"

definition suart_flush_rx ::
    "('m, 'q, 't) osmo_api \<Rightarrow> ('m, 'q, 't, 'p) osmo_soft_uart
     \<Rightarrow> fault + ('m, 'q, 't, 'p) osmo_soft_uart" where
  "suart_flush_rx L sua =
     (if (case rx_msg sua of None \<Rightarrow> False | Some m \<Rightarrow> length (msgb_data L m) \<noteq> 0) \<or>
         rx_flags sua \<noteq> 0 then
        (let sua = sua\<lparr>rx_timer := timer_del L (rx_timer sua)\<rparr> in
         case rx_cb (cfg sua) of
           Some cb \<Rightarrow>
             Inr (suart_new_msg L
               (sua\<lparr>suart_user := cb (priv (cfg sua)) (rx_msg sua) (rx_flags sua) (suart_user sua)\<rparr>))
         | None \<Rightarrow>
             (case rx_msg sua of
                None \<Rightarrow> Inl NullDeref
              | Some m \<Rightarrow> Inr (sua\<lparr>rx_msg := Some (msgb_reset L m)\<rparr>)))
      else Inr sua)"

definition suart_rx_ch ::
    "('m, 'q, 't) osmo_api \<Rightarrow> byte \<Rightarrow> ('m, 'q, 't, 'p) osmo_soft_uart
     \<Rightarrow> fault + ('m, 'q, 't, 'p) osmo_soft_uart" where
  "suart_rx_ch L ch sua =
     (case rx_msg sua of
        None \<Rightarrow> Inl AssertFailed
      | Some m \<Rightarrow>
          (case msgb_put L m 1 of
             None \<Rightarrow> Inl MsgbAbort
           | Some m' \<Rightarrow>
               let m' = msgb_wr L m' (length (msgb_data L m)) ch;
                   sua = sua\<lparr>rx_msg := Some m'\<rparr>;
                   msg_len = length (msgb_data L m')
               in if msg_len = 1 then
                    Inr (sua\<lparr>rx_timer := timer_schedule L (rx_timer sua)
                      (rx_timeout_ms (cfg sua) div 1000) (rx_timeout_ms (cfg sua) mod 1000 * 1000)\<rparr>)
                  else if rx_buf_size (cfg sua) \<le> msg_len \<or> rx_flags sua \<noteq> 0 then
                    suart_flush_rx L sua
                  else Inr sua))"

definition osmo_uart_rx_bit ::
    "('m, 'q, 't) osmo_api \<Rightarrow> byte \<Rightarrow> ('m, 'q, 't, 'p) osmo_soft_uart
     \<Rightarrow> fault + ('m, 'q, 't, 'p) osmo_soft_uart" where
  "osmo_uart_rx_bit L ubit sua =
     (if \<not> rx_running sua then Inr sua
      else if rx_bit_count sua = 0 then
        if ubit = 0 then
          Inr (sua\<lparr>rx_flags := 0, rx_shift_reg := 0, rx_bit_count := rx_bit_count sua + 1\<rparr>)
        else Inr sua
      else
        let num_parity_bits = (if parity_mode (cfg sua) \<noteq> OSMO_SUART_PARITY_NONE then 1 else 0);
            nd = unat (num_data_bits (cfg sua));
            ns = unat (num_stop_bits (cfg sua));
            sua = sua\<lparr>rx_bit_count := rx_bit_count sua + 1\<rparr>;
            bc = unat (rx_bit_count sua)
        in if bc \<le> 1 + nd then
             (let sua = sua\<lparr>rx_shift_reg := drop_bit 1 (rx_shift_reg sua)\<rparr> in
              Inr (if ubit \<noteq> 0 then sua\<lparr>rx_shift_reg := rx_shift_reg sua OR 0x80\<rparr> else sua))
           else if parity_mode (cfg sua) \<noteq> OSMO_SUART_PARITY_NONE \<and> bc = 1 + nd + 1 then
             Inr (sua\<lparr>rx_parity_bit := ubit\<rparr>)
           else if bc \<le> 1 + nd + num_parity_bits + ns then
             seqs [upd (\<lambda>sua. if ubit \<noteq> 1
                        then sua\<lparr>rx_flags := rx_flags sua OR OSMO_SUART_F_FRAMING_ERROR\<rparr>
                        else sua),
                   (\<lambda>sua. if bc = 1 + nd + num_parity_bits + ns then
                            seqs [suart_rx_ch L (rx_shift_reg sua),
                                  upd (\<lambda>sua. sua\<lparr>rx_bit_count := 0\<rparr>)] sua
                          else Inr sua)] sua
           else Inr sua)"

definition suart_rx_timer_cb ::
    "('m, 'q, 't) osmo_api \<Rightarrow> ('m, 'q, 't, 'p) osmo_soft_uart
     \<Rightarrow> fault + ('m, 'q, 't, 'p) osmo_soft_uart" where
  "suart_rx_timer_cb L suart = suart_flush_rx L suart"

text \<open>The result is the state; the C function always returns 0.\<close>

definition osmo_soft_uart_rx_ubits ::
    "('m, 'q, 't) osmo_api \<Rightarrow> byte list \<Rightarrow> ('m, 'q, 't, 'p) osmo_soft_uart
     \<Rightarrow> fault + ('m, 'q, 't, 'p) osmo_soft_uart" where
  "osmo_soft_uart_rx_ubits L ubits = seqs (map (osmo_uart_rx_bit L) ubits)"

section \<open>Transmitter\<close>

definition osmo_soft_uart_tx ::
    "('m, 'q, 't) osmo_api \<Rightarrow> 'm \<Rightarrow> ('m, 'q, 't, 'p) osmo_soft_uart
     \<Rightarrow> ('m, 'q, 't, 'p) osmo_soft_uart" where
  "osmo_soft_uart_tx L tx_data sua =
     (case tx_msg sua of
        None \<Rightarrow> sua\<lparr>tx_msg := Some tx_data\<rparr>
      | Some m \<Rightarrow> sua\<lparr>tx_queue := msgb_enqueue L (tx_queue sua) tx_data\<rparr>)"

text \<open>Both paths of the unfinished transmitter send the idle level.\<close>

definition osmo_uart_tx_bit :: "('m, 'q, 't, 'p) osmo_soft_uart \<Rightarrow> byte" where
  "osmo_uart_tx_bit sua = (if \<not> tx_running sua then 1 else 1)"

definition osmo_soft_uart_tx_ubits ::
    "('m, 'q, 't, 'p) osmo_soft_uart \<Rightarrow> nat \<Rightarrow> nat \<times> byte list" where
  "osmo_soft_uart_tx_ubits sua n_ubits =
     (n_ubits, map (\<lambda>i. osmo_uart_tx_bit sua) [0..<n_ubits])"

definition osmo_soft_uart_set_status :: "('m, 'q, 't, 'p) osmo_soft_uart \<Rightarrow> u32 \<Rightarrow> int" where
  "osmo_soft_uart_set_status sua status = 0"

section \<open>Management\<close>

text \<open>
  \<open>mem\<close> tells whether the allocation succeeds; \<open>t0\<close> and \<open>q0\<close> are a timer and a list head of
  zero bytes, \<open>user\<close> the application's data.
\<close>

definition osmo_soft_uart_alloc ::
    "bool \<Rightarrow> 't \<Rightarrow> 'q \<Rightarrow> 'p \<Rightarrow> string \<Rightarrow> ('m, 'q, 't, 'p) osmo_soft_uart option" where
  "osmo_soft_uart_alloc mem t0 q0 user name =
     (if mem then
        Some \<lparr>cfg = suart_default_cfg, suart_name = name,
              rx_running = False, rx_bit_count = 0, rx_shift_reg = 0, rx_msg = None,
              rx_parity_bit = 0, rx_flags = 0, rx_status = 0, rx_timer = t0,
              tx_running = False, tx_bit_count = 0, tx_shift_reg = 0, tx_msg = None,
              tx_queue = q0, suart_user = user\<rparr>
      else None)"

definition suart_cfg_ok :: "('m, 'p) osmo_soft_uart_cfg \<Rightarrow> bool" where
  "suart_cfg_ok c \<longleftrightarrow>
     \<not> (8 < num_data_bits c \<or> num_data_bits c = 0) \<and>
     num_stop_bits c \<noteq> 0 \<and>
     \<not> (parity_mode c < 0 \<or> NUM_OSMO_SUART_PARITY \<le> parity_mode c) \<and>
     rx_buf_size c \<noteq> 0"

definition osmo_soft_uart_configure ::
    "('m, 'q, 't) osmo_api \<Rightarrow> ('m, 'p) osmo_soft_uart_cfg \<Rightarrow> ('m, 'q, 't, 'p) osmo_soft_uart
     \<Rightarrow> fault + (int \<times> ('m, 'q, 't, 'p) osmo_soft_uart)" where
  "osmo_soft_uart_configure L c suart =
     (if \<not> suart_cfg_ok c then Inr (- EINVAL, suart)
      else
        (case (if rx_buf_size c < rx_buf_size (cfg suart) \<or> rx_timeout_ms c < rx_timeout_ms (cfg suart)
               then suart_flush_rx L suart else Inr suart) of
           Inl e \<Rightarrow> Inl e
         | Inr suart \<Rightarrow>
             Inr (0, suart\<lparr>cfg := c,
                           rx_timer := timer_setup L (rx_timer suart) (Some Suart_rx_timer_cb),
                           tx_queue := msgb_queue_init L\<rparr>)))"

definition osmo_soft_uart_enable ::
    "('m, 'q, 't) osmo_api \<Rightarrow> bool \<Rightarrow> bool \<Rightarrow> ('m, 'q, 't, 'p) osmo_soft_uart
     \<Rightarrow> fault + ('m, 'q, 't, 'p) osmo_soft_uart" where
  "osmo_soft_uart_enable L rx tx =
     seqs [(\<lambda>suart. if \<not> rx \<and> rx_running suart then
                      seqs [suart_flush_rx L, upd (\<lambda>suart. suart\<lparr>rx_running := False\<rparr>)] suart
                    else if rx \<and> \<not> rx_running suart then
                      (let suart = (if rx_msg suart = None then suart_new_msg L suart else suart)
                       in Inr (suart\<lparr>rx_running := True\<rparr>))
                    else Inr suart),
           upd (\<lambda>suart. if \<not> tx \<and> tx_running suart then suart\<lparr>tx_running := False\<rparr>
                        else if tx \<and> \<not> tx_running suart then suart\<lparr>tx_running := True\<rparr>
                        else suart)]"

end
