(* ===== verification/Uart_Proofs.thy ===== *)
theory Uart_Proofs
  imports Soft_Uart
begin

text \<open>
  What the software UART does with a bit stream: it implements a framing automaton that
  collects the bits of one character, for any bits whatsoever, without a fault and without
  losing a character, as long as its buffer has at least two and fewer than 65536 bytes;
  and so it receives every character that was framed by start and stop bits.
\<close>

section \<open>The framing automaton\<close>

text \<open>
  The abstract receiver: the bits of the character being received, start bit included, and
  the characters received so far. A character is complete after the start bit, \<open>nd\<close> data
  bits and \<open>rest\<close> bits of parity and stop, of which only the data bits matter.
\<close>

definition uart_char :: "byte list \<Rightarrow> byte" where
  "uart_char ds = push_bit (8 - length ds) (horner_sum of_bool 2 (map (\<lambda>d. d \<noteq> 0) ds))"

definition uart_bit :: "nat \<Rightarrow> nat \<Rightarrow> byte list \<times> byte list \<Rightarrow> byte \<Rightarrow> byte list \<times> byte list" where
  "uart_bit nd rest = (\<lambda>(cur, out) b.
     if cur = [] then (if b = 0 then [b] else [], out)
     else if length cur = nd + rest then ([], out @ [uart_char (take nd (tl (cur @ [b])))])
     else (cur @ [b], out))"

text \<open>A character on the line: start bit, data bits from the lowest, then parity
  and stop bits, \<open>tail\<close>.\<close>

definition uart_frame :: "nat \<Rightarrow> byte list \<Rightarrow> byte \<Rightarrow> byte list" where
  "uart_frame nd tail c = 0 # map (\<lambda>i. of_bool (bit c i)) [0..<nd] @ tail"

definition cfg_parity_bits :: "('m, 'p) osmo_soft_uart_cfg \<Rightarrow> nat" where
  "cfg_parity_bits c = (if parity_mode c \<noteq> OSMO_SUART_PARITY_NONE then 1 else 0)"

abbreviation cfg_nd :: "('m, 'p) osmo_soft_uart_cfg \<Rightarrow> nat" where
  "cfg_nd c \<equiv> unat (num_data_bits c)"

abbreviation cfg_rest :: "('m, 'p) osmo_soft_uart_cfg \<Rightarrow> nat" where
  "cfg_rest c \<equiv> cfg_parity_bits c + unat (num_stop_bits c)"

section \<open>Invariant and abstraction\<close>

text \<open>
  A configuration the receiver can work with, and the state of the receive buffer: never
  full, and under the receive timer as soon as it holds a character.
\<close>

definition suart_fits :: "('m, 'p) osmo_soft_uart_cfg \<Rightarrow> bool" where
  "suart_fits c \<longleftrightarrow> suart_cfg_ok c \<and> 2 \<le> rx_buf_size c \<and> rx_buf_size c < 65536"

definition suart_inv :: "('m, 'q, 't) osmo_api \<Rightarrow> ('m, 'q, 't, 'p) osmo_soft_uart \<Rightarrow> bool" where
  "suart_inv L s \<longleftrightarrow>
     suart_fits (cfg s) \<and> rx_flags s = 0 \<and>
     (case rx_msg s of
        None \<Rightarrow> \<not> rx_running s
      | Some m \<Rightarrow>
          length (msgb_data L m) < rx_buf_size (cfg s) \<and>
          rx_buf_size (cfg s) \<le> length (msgb_data L m) + msgb_tailroom L m \<and>
          (msgb_data L m \<noteq> [] \<longrightarrow> timer_pending L (rx_timer s)))"

text \<open>A receive call-back that keeps what it is handed: \<open>log\<close> reads it off its data.\<close>

definition keeps :: "('m, 'q, 't) osmo_api \<Rightarrow> ('p \<Rightarrow> byte list) \<Rightarrow> ('m, 'p) osmo_soft_uart_cfg \<Rightarrow> bool" where
  "keeps L log c \<longleftrightarrow>
     (\<exists>cb. rx_cb c = Some cb \<and>
       (\<forall>a m f u. log (cb a (Some m) f u) = log u @ msgb_data L m))"

definition suart_bytes ::
    "('m, 'q, 't) osmo_api \<Rightarrow> ('p \<Rightarrow> byte list) \<Rightarrow> ('m, 'q, 't, 'p) osmo_soft_uart \<Rightarrow> byte list" where
  "suart_bytes L log s =
     log (suart_user s) @ (case rx_msg s of None \<Rightarrow> [] | Some m \<Rightarrow> msgb_data L m)"

text \<open>What a flush leaves: an empty buffer, everything else unchanged, and no byte lost.\<close>

definition suart_flushed :: "('m, 'q, 't) osmo_api \<Rightarrow> ('p \<Rightarrow> byte list)
    \<Rightarrow> ('m, 'q, 't, 'p) osmo_soft_uart \<Rightarrow> ('m, 'q, 't, 'p) osmo_soft_uart \<Rightarrow> bool" where
  "suart_flushed L log s t \<longleftrightarrow>
     suart_inv L t \<and> cfg t = cfg s \<and> rx_running t = rx_running s \<and>
     timer_cb L (rx_timer t) = timer_cb L (rx_timer s) \<and>
     rx_bit_count t = rx_bit_count s \<and> rx_shift_reg t = rx_shift_reg s \<and>
     (\<forall>m. rx_msg t = Some m \<longrightarrow> msgb_data L m = []) \<and>
     (keeps L log (cfg s) \<longrightarrow> suart_bytes L log t = suart_bytes L log s)"

definition uart_shift :: "byte \<Rightarrow> byte \<Rightarrow> byte" where
  "uart_shift r b = drop_bit 1 r OR (if b \<noteq> 0 then 0x80 else 0)"

text \<open>The receiver's registers hold the bits the automaton has collected.\<close>

definition suart_holds :: "byte list \<Rightarrow> ('m, 'q, 't, 'p) osmo_soft_uart \<Rightarrow> bool" where
  "suart_holds cur s \<longleftrightarrow>
     rx_running s \<and> length cur < 1 + cfg_nd (cfg s) + cfg_rest (cfg s) \<and>
     1 + cfg_nd (cfg s) + cfg_rest (cfg s) < 256 \<and>
     unat (rx_bit_count s) = length cur \<and>
     (cur \<noteq> [] \<longrightarrow> rx_shift_reg s = foldl uart_shift 0 (take (cfg_nd (cfg s)) (tl cur)))"

text \<open>The registers of the bit machine play no part in the invariant and the abstraction.\<close>

lemma suart_regs [simp]:
  "suart_inv L (s\<lparr>rx_bit_count := c\<rparr>) = suart_inv L s"
  "suart_inv L (s\<lparr>rx_shift_reg := c\<rparr>) = suart_inv L s"
  "suart_inv L (s\<lparr>rx_parity_bit := c\<rparr>) = suart_inv L s"
  "suart_bytes L log (s\<lparr>rx_bit_count := c\<rparr>) = suart_bytes L log s"
  "suart_bytes L log (s\<lparr>rx_shift_reg := c\<rparr>) = suart_bytes L log s"
  "suart_bytes L log (s\<lparr>rx_parity_bit := c\<rparr>) = suart_bytes L log s"
  by (auto simp: suart_inv_def suart_bytes_def split: option.splits)

lemma suart_flags [simp]: "suart_inv L s \<Longrightarrow> s\<lparr>rx_flags := 0\<rparr> = s"
  by (simp add: suart_inv_def)

lemma suart_count_flags:
  "rx_flags s = 0 \<Longrightarrow> s\<lparr>rx_bit_count := c, rx_flags := 0\<rparr> = s\<lparr>rx_bit_count := c\<rparr>"
  by (cases s) simp

lemma seqs_single: "seqs [f] s = f s"
  by (cases "f s") (simp_all add: seqs.simps)

lemma suart_inv_cfg:
  assumes "suart_inv L s"
  shows "0 < cfg_nd (cfg s)" and "cfg_nd (cfg s) \<le> 8" and "0 < unat (num_stop_bits (cfg s))"
  using assms
  by (auto simp: suart_inv_def suart_fits_def suart_cfg_ok_def unat_gt_0 word_less_nat_alt)

section \<open>The shift register\<close>

lemma uart_shift_fold:
  "length ds \<le> 8 \<Longrightarrow> foldl uart_shift 0 ds = uart_char ds"
proof (induction ds rule: rev_induct)
  case Nil
  then show ?case by (simp add: uart_char_def)
next
  case (snoc d ds)
  then have IH: "foldl uart_shift 0 ds = uart_char ds" and len: "length ds < 8" by simp_all
  have "uart_shift (uart_char ds) d = uart_char (ds @ [d])"
  proof (rule bit_word_eqI)
    fix n assume n: "n < LENGTH(8)"
    have "bit (2 ^ 7 :: byte) n \<longleftrightarrow> n = 7"
      unfolding bit_exp_iff using n by auto
    then have "bit (0x80 :: byte) n \<longleftrightarrow> n = 7"
      by simp
    then show "bit (uart_shift (uart_char ds) d) n = bit (uart_char (ds @ [d])) n"
      using n len
      by (auto simp: uart_shift_def uart_char_def bit_or_iff bit_drop_bit_eq bit_push_bit_iff
            bit_horner_sum_bit_word_iff nth_append not_less less_Suc_eq_le)
  qed
  then show ?case by (simp add: IH)
qed

lemma uart_char_bits:
  assumes "nd \<le> 8"
  shows "uart_char (map (\<lambda>i. of_bool (bit c i)) [0..<nd]) = push_bit (8 - nd) (take_bit nd c)"
proof -
  have "map (\<lambda>d. d \<noteq> 0) (map (\<lambda>i. of_bool (bit c i) :: byte) [0..<nd]) = map (bit c) [0..<nd]"
    by (auto simp: of_bool_def)
  then show ?thesis
    by (simp add: uart_char_def comp_def horner_sum_bit_eq_take_bit)
qed

section \<open>The receive buffer\<close>

context osmo_mem
begin

text \<open>Flushing keeps every byte and empties the buffer, also one that is full.\<close>

lemma flush_full:
  assumes msg: "rx_msg s = Some m" and ne: "msgb_data L m \<noteq> []" and fl: "rx_flags s = 0"
    and fits: "suart_fits (cfg s)"
    and room: "rx_buf_size (cfg s) \<le> length (msgb_data L m) + msgb_tailroom L m"
  shows "ends {} (suart_flushed L log s) (suart_flush_rx L s)"
proof -
  obtain m' where m': "msgb_alloc L (rx_buf_size (cfg s)) = Some m'"
    using alloc_some by blast
  have "rx_buf_size (cfg s) mod 65536 = rx_buf_size (cfg s)" "rx_buf_size (cfg s) < 65536"
    using fits by (simp_all add: suart_fits_def)
  with assms m' alloc [OF m'] reset [of m] show ?thesis
    by (cases "rx_cb (cfg s)")
       (auto simp: suart_flush_rx_def Let_def suart_new_msg_def suart_inv_def suart_fits_def
          suart_flushed_def keeps_def suart_bytes_def timer_simps)
qed

lemma flush_inv:
  assumes "suart_inv L s"
  shows "ends {} (suart_flushed L log s) (suart_flush_rx L s)"
proof (cases "\<exists>m. rx_msg s = Some m \<and> msgb_data L m \<noteq> []")
  case True
  then show ?thesis
    using assms flush_full by (auto simp: suart_inv_def)
next
  case False
  then have "suart_flush_rx L s = Inr s"
    using assms by (auto simp: suart_flush_rx_def suart_inv_def split: option.splits)
  with False assms show ?thesis by (simp add: suart_flushed_def)
qed

lemma rx_ch_inv:
  assumes inv: "suart_inv L s" and run: "rx_running s"
  shows "ends {} (\<lambda>t. suart_inv L t \<and> cfg t = cfg s \<and> rx_running t \<and>
      timer_cb L (rx_timer t) = timer_cb L (rx_timer s) \<and>
      rx_bit_count t = rx_bit_count s \<and> rx_shift_reg t = rx_shift_reg s \<and>
      (keeps L log (cfg s) \<longrightarrow> suart_bytes L log t = suart_bytes L log s @ [c])) (suart_rx_ch L c s)"
proof -
  obtain m where m: "rx_msg s = Some m" and len: "length (msgb_data L m) < rx_buf_size (cfg s)"
    and room: "rx_buf_size (cfg s) \<le> length (msgb_data L m) + msgb_tailroom L m"
    using inv run by (auto simp: suart_inv_def split: option.splits)
  obtain m1 b where m1: "msgb_put L m 1 = Some m1" and d1: "msgb_data L m1 = msgb_data L m @ [b]"
    and t1: "msgb_tailroom L m1 = msgb_tailroom L m - 1"
    using put_ok [of 1 m] len room by (auto simp: length_Suc_conv)
  define m2 where "m2 = msgb_wr L m1 (length (msgb_data L m)) c"
  have d2: "msgb_data L m2 = msgb_data L m @ [c]" and t2: "msgb_tailroom L m2 = msgb_tailroom L m - 1"
    using wr [of "length (msgb_data L m)" m1 c] d1 t1 by (simp_all add: m2_def)
  let ?s = "s\<lparr>rx_msg := Some m2\<rparr>"
  have bytes: "suart_bytes L log ?s = suart_bytes L log s @ [c]"
    by (simp add: suart_bytes_def m d2)
  have full: "ends {} (suart_flushed L log ?s) (suart_flush_rx L ?s)"
    using inv room len t2 by (intro flush_full [of _ m2]) (auto simp: d2 suart_inv_def)
  have rx: "suart_rx_ch L c s =
      (if msgb_data L m = [] then
         Inr (?s\<lparr>rx_timer := timer_schedule L (rx_timer s) (rx_timeout_ms (cfg s) div 1000)
           (rx_timeout_ms (cfg s) mod 1000 * 1000)\<rparr>)
       else if rx_buf_size (cfg s) \<le> Suc (length (msgb_data L m)) then suart_flush_rx L ?s
       else Inr ?s)"
    using inv by (simp add: suart_rx_ch_def m m1 m2_def [symmetric] d2 Let_def suart_inv_def
        del: One_nat_def)
  show ?thesis
    unfolding rx using inv run len room full bytes
    by (auto simp: suart_inv_def suart_fits_def m d2 t2 timer_simps suart_bytes_def
          suart_flushed_def elim: ends_mono)
qed

end

section \<open>Simulation of the automaton\<close>

definition suart_after :: "('m, 'q, 't) osmo_api \<Rightarrow> ('p \<Rightarrow> byte list)
    \<Rightarrow> ('m, 'q, 't, 'p) osmo_soft_uart \<Rightarrow> byte list \<times> byte list \<Rightarrow> ('m, 'q, 't, 'p) osmo_soft_uart \<Rightarrow> bool" where
  "suart_after L log s a t \<longleftrightarrow>
     suart_inv L t \<and> cfg t = cfg s \<and> suart_holds (fst a) t \<and>
     timer_cb L (rx_timer t) = timer_cb L (rx_timer s) \<and>
     (keeps L log (cfg s) \<longrightarrow> suart_bytes L log t = snd a)"

lemma bit_count_Suc: "unat (c :: byte) = k \<Longrightarrow> k + 1 < 256 \<Longrightarrow> unat (c + 1) = k + 1"
  by (simp add: unat_word_ariths unsigned_1 nat_mod_as_int)

context osmo_mem
begin

lemma rx_bit_idle:
  assumes "suart_inv L s" and "suart_holds [] s"
  shows "ends {} (suart_after L log s (uart_bit (cfg_nd (cfg s)) (cfg_rest (cfg s)) ([], suart_bytes L log s) b))
    (osmo_uart_rx_bit L b s)"
  using assms suart_inv_cfg [OF assms(1)]
  by (auto simp: osmo_uart_rx_bit_def suart_after_def uart_bit_def suart_holds_def unsigned_eq_0_iff)

lemma rx_bit_last:
  assumes inv: "suart_inv L s" and holds: "suart_holds cur s" and ne: "cur \<noteq> []"
    and len: "length cur = cfg_nd (cfg s) + cfg_rest (cfg s)"
  shows "ends {} (suart_after L log s (uart_bit (cfg_nd (cfg s)) (cfg_rest (cfg s)) (cur, suart_bytes L log s) b))
    (osmo_uart_rx_bit L b s)"
proof -
  let ?s = "s\<lparr>rx_bit_count := rx_bit_count s + 1\<rparr>"
  have ns: "0 < unat (num_stop_bits (cfg s))" and nd: "cfg_nd (cfg s) \<le> 8"
    using suart_inv_cfg [OF inv] by auto
  have count: "unat (rx_bit_count s + 1) = length cur + 1"
    using holds by (intro bit_count_Suc) (auto simp: suart_holds_def)
  have "take (cfg_nd (cfg s)) (tl (cur @ [b])) = take (cfg_nd (cfg s)) (tl cur)"
    using ns ne len by simp
  moreover have "length (take (cfg_nd (cfg s)) (tl cur)) \<le> 8"
    using nd by simp
  ultimately have ch: "rx_shift_reg s = uart_char (take (cfg_nd (cfg s)) (tl (cur @ [b])))"
    using holds ne uart_shift_fold by (simp add: suart_holds_def)
  have nz: "rx_bit_count s \<noteq> 0"
    using holds ne by (auto simp: suart_holds_def)
  have run: "osmo_uart_rx_bit L b s =
      seqs [suart_rx_ch L (rx_shift_reg ?s), upd (\<lambda>sua. sua\<lparr>rx_bit_count := 0\<rparr>)] ?s"
    using holds ns nz count len inv
    by (auto simp: osmo_uart_rx_bit_def suart_holds_def Let_def cfg_parity_bits_def suart_const_defs
        suart_inv_def seqs_single suart_count_flags)
  have inv': "suart_inv L ?s" and run': "rx_running ?s"
    using inv holds by (auto simp: suart_holds_def)
  from rx_ch_inv [OF inv' run', of log "rx_shift_reg ?s"] show ?thesis
    unfolding run ends_seqs_Cons
    using holds ne len
    by (elim ends_mono) (auto simp: suart_after_def uart_bit_def ch suart_holds_def)
qed

lemma rx_bit_more:
  assumes inv: "suart_inv L s" and holds: "suart_holds cur s" and ne: "cur \<noteq> []"
    and len: "length cur \<noteq> cfg_nd (cfg s) + cfg_rest (cfg s)"
  shows "ends {} (suart_after L log s (uart_bit (cfg_nd (cfg s)) (cfg_rest (cfg s)) (cur, suart_bytes L log s) b))
    (osmo_uart_rx_bit L b s)"
proof -
  let ?nd = "cfg_nd (cfg s)"
  have count: "unat (rx_bit_count s + 1) = length cur + 1"
    using holds by (intro bit_count_Suc) (auto simp: suart_holds_def)
  have nz: "rx_bit_count s \<noteq> 0" and run: "rx_running s" and lt: "length cur < ?nd + cfg_rest (cfg s)"
    using holds ne len by (auto simp: suart_holds_def)
  have fl: "rx_flags s = 0"
    using inv by (simp add: suart_inv_def)
  have after: "uart_bit ?nd (cfg_rest (cfg s)) (cur, suart_bytes L log s) b =
      (cur @ [b], suart_bytes L log s)"
    using ne len by (simp add: uart_bit_def)
  show ?thesis
  proof (cases "length cur \<le> ?nd")
    case True
    have reg: "rx_shift_reg s = foldl uart_shift 0 (tl cur)"
      using holds ne True by (auto simp: suart_holds_def)
    have tk: "take (?nd - (length cur - Suc 0)) [b] = [b]"
      using True ne by (cases cur) auto
    have "osmo_uart_rx_bit L b s =
        Inr (s\<lparr>rx_bit_count := rx_bit_count s + 1, rx_shift_reg := uart_shift (rx_shift_reg s) b\<rparr>)"
      using True run nz count by (simp add: osmo_uart_rx_bit_def Let_def uart_shift_def)
    then show ?thesis
      using holds inv ne lt count True
      by (simp add: after suart_after_def suart_holds_def reg tk)
  next
    case False
    have "\<exists>p. osmo_uart_rx_bit L b s = Inr (s\<lparr>rx_bit_count := rx_bit_count s + 1, rx_parity_bit := p\<rparr>)"
      using False run nz count lt fl inv
      by (auto simp: osmo_uart_rx_bit_def Let_def cfg_parity_bits_def suart_const_defs
          seqs_single suart_count_flags intro: exI [of _ "rx_parity_bit s"])
    then show ?thesis
      using holds inv ne lt count False by (auto simp: after suart_after_def suart_holds_def)
  qed
qed

lemma rx_bit_sim:
  assumes "suart_inv L s" and "suart_holds cur s"
  shows "ends {} (suart_after L log s (uart_bit (cfg_nd (cfg s)) (cfg_rest (cfg s)) (cur, suart_bytes L log s) b))
    (osmo_uart_rx_bit L b s)"
  using assms rx_bit_idle rx_bit_last rx_bit_more by (cases "cur = []") blast+

lemma rx_bits_sim:
  assumes "suart_inv L s" and "suart_holds cur s" and "keeps L log (cfg s)"
  shows "ends {} (suart_after L log s
      (foldl (uart_bit (cfg_nd (cfg s)) (cfg_rest (cfg s))) (cur, suart_bytes L log s) bits))
    (seqs (map (osmo_uart_rx_bit L) bits) s)"
  using assms
proof (induction bits arbitrary: s cur)
  case Nil
  then show ?case by (simp add: suart_after_def)
next
  case (Cons b bits)
  let ?a = "uart_bit (cfg_nd (cfg s)) (cfg_rest (cfg s)) (cur, suart_bytes L log s) b"
  have "ends {} (suart_after L log s
      (foldl (uart_bit (cfg_nd (cfg s)) (cfg_rest (cfg s))) ?a bits))
    (seqs (map (osmo_uart_rx_bit L) bits) t)" if "suart_after L log s ?a t" for t
  proof -
    have t: "suart_inv L t" "suart_holds (fst ?a) t" "cfg t = cfg s" "suart_bytes L log t = snd ?a"
      using that Cons.prems by (auto simp: suart_after_def)
    moreover have "keeps L log (cfg t)"
      using t Cons.prems by simp
    ultimately have "ends {} (suart_after L log t
        (foldl (uart_bit (cfg_nd (cfg s)) (cfg_rest (cfg s))) ?a bits))
      (seqs (map (osmo_uart_rx_bit L) bits) t)"
      using Cons.IH [of t "fst ?a"] by simp
    then show ?thesis
      using that t by (elim ends_mono) (auto simp: suart_after_def)
  qed
  then show ?case
    using rx_bit_sim [OF Cons.prems(1,2), of log b] by (auto elim: ends_mono)
qed

end

text \<open>Calls of the receiver on consecutive pieces act as one call on all the bits.\<close>

lemma seqs_append: "seqs (fs @ gs) s = (case seqs fs s of Inl e \<Rightarrow> Inl e | Inr t \<Rightarrow> seqs gs t)"
  by (induction fs arbitrary: s) (auto simp: seqs.simps split: sum.splits)

lemma rx_pieces:
  "seqs (map (osmo_soft_uart_rx_ubits L) pieces) s = osmo_soft_uart_rx_ubits L (concat pieces) s"
  by (induction pieces arbitrary: s)
     (auto simp: osmo_soft_uart_rx_ubits_def seqs_append seqs.simps(2) split: sum.splits)

end
