(* ===== verification/Uart_Receive.thy ===== *)
theory Uart_Receive
  imports Uart_Proofs
begin

text \<open>
  The properties of the software UART: it implements the framing automaton on any bit
  stream, receives every framed character, hands over what is buffered when its timer
  fires, checks its configuration, and, on the negative side, which buffer sizes make it
  abort.
\<close>

section \<open>Concrete UARTs\<close>

text \<open>A UART on the list implementation of the library, with a call-back that keeps a log.\<close>

definition log_cb :: "nat \<Rightarrow> buf option \<Rightarrow> u32 \<Rightarrow> byte list \<Rightarrow> byte list" where
  "log_cb a m f u = u @ (case m of None \<Rightarrow> [] | Some b \<Rightarrow> buf_data b)"

definition lab_cfg :: "byte \<Rightarrow> nat \<Rightarrow> (buf, byte list) osmo_soft_uart_cfg" where
  "lab_cfg nd n =
     \<lparr>num_data_bits = nd, num_stop_bits = 1, parity_mode = OSMO_SUART_PARITY_NONE,
      rx_buf_size = n, rx_timeout_ms = 100, priv = 0, rx_cb = Some log_cb,
      status_change_cb = None\<rparr>"

definition lab_uart :: "byte \<Rightarrow> nat \<Rightarrow> nat \<Rightarrow> (buf, buf list, tmr, byte list) osmo_soft_uart" where
  "lab_uart nd n room =
     \<lparr>cfg = lab_cfg nd n, suart_name = ''uart'', rx_running = True, rx_bit_count = 0,
      rx_shift_reg = 0, rx_msg = Some \<lparr>buf_head = 0, buf_data = [], buf_tail = room\<rparr>,
      rx_parity_bit = 0, rx_flags = 0, rx_status = 0,
      rx_timer = \<lparr>tmr_cb = Some Suart_rx_timer_cb, tmr_due = None\<rparr>,
      tx_running = False, tx_bit_count = 0, tx_shift_reg = 0, tx_msg = None,
      tx_queue = [], suart_user = []\<rparr>"

text \<open>What the event loop does when the receive timer is due.\<close>

definition suart_timer_due ::
    "('m, 'q, 't) osmo_api \<Rightarrow> ('m, 'q, 't, 'p) osmo_soft_uart
     \<Rightarrow> fault + ('m, 'q, 't, 'p) osmo_soft_uart" where
  "suart_timer_due L s =
     (let f = timer_cb L (rx_timer s); s = s\<lparr>rx_timer := timer_expire L (rx_timer s)\<rparr>
      in if f = Some Suart_rx_timer_cb then suart_rx_timer_cb L s else Inr s)"

lemmas lab_defs = lab_uart_def lab_cfg_def list_osmo_def suart_const_defs

lemma lab_keeps: "keeps list_osmo id (cfg (lab_uart nd n room))"
  by (simp add: keeps_def lab_defs log_cb_def)

lemma lab_uart_inv:
  assumes "0 < nd" and "nd \<le> 8" and "2 \<le> n" and "n < 65536" and "n \<le> room"
  shows "suart_inv list_osmo (lab_uart nd n room)" and "suart_holds [] (lab_uart nd n room)"
proof -
  have "unat nd \<le> 8"
    using assms(2) by (simp add: word_le_nat_alt)
  then show "suart_inv list_osmo (lab_uart nd n room)" "suart_holds [] (lab_uart nd n room)"
    using assms
    by (auto simp: lab_defs suart_inv_def suart_holds_def suart_fits_def suart_cfg_ok_def
        cfg_parity_bits_def)
qed

section \<open>Reception\<close>

text \<open>
  C10: reception refines the framing automaton. A receiver that is running, with a valid
  configuration, a buffer of 2 to 65535 bytes that has its full size, fewer than 256 bits per character and
  no error flag set: whatever bits arrive, in whatever pieces,
  it does not fault; the characters it has handed up, followed by those in its
  buffer, are the ones the framing automaton has found, and no error flag is ever set.
\<close>

theorem uart_receives:
  assumes "osmo_mem L" and "suart_inv L s" and "suart_holds cur s" and "keeps L log (cfg s)"
  shows "\<exists>t. seqs (map (osmo_soft_uart_rx_ubits L) pieces) s = Inr t \<and>
    suart_inv L t \<and> cfg t = cfg s \<and> rx_flags t = 0 \<and>
    suart_holds (fst (foldl (uart_bit (cfg_nd (cfg s)) (cfg_rest (cfg s)))
      (cur, suart_bytes L log s) (concat pieces))) t \<and>
    suart_bytes L log t = snd (foldl (uart_bit (cfg_nd (cfg s)) (cfg_rest (cfg s)))
      (cur, suart_bytes L log s) (concat pieces))"
  using osmo_mem.rx_bits_sim [OF assms, of "concat pieces"] assms(4)
  unfolding rx_pieces osmo_soft_uart_rx_ubits_def ends_total
  by (auto simp: suart_after_def suart_inv_def)

theorem uart_receives_witness:
  "\<exists>t. seqs (map (osmo_soft_uart_rx_ubits list_osmo) [[1, 0, 1, 0], [0, 0, 0]])
      (lab_uart 3 16 16) = Inr t \<and> suart_bytes list_osmo id t = [0x20]"
proof -
  have "unat (3 :: byte) = 3" by simp
  then have "snd (foldl (uart_bit (cfg_nd (cfg (lab_uart 3 16 16))) (cfg_rest (cfg (lab_uart 3 16 16))))
      ([], suart_bytes list_osmo id (lab_uart 3 16 16)) (concat [[1, 0, 1, 0], [0, 0, 0]])) = [0x20]"
    by (simp add: uart_bit_def lab_defs suart_bytes_def cfg_parity_bits_def uart_char_def
        horner_sum_foldr push_bit_eq_mult)
  then show ?thesis
    using uart_receives [OF lo.osmo_mem_axioms lab_uart_inv lab_keeps,
      of 3 16 16 "[[1, 0, 1, 0], [0, 0, 0]]"] by auto
qed

section \<open>Framed characters\<close>

lemma uart_bit_gap: "foldl (uart_bit nd rest) ([], out) (replicate n 1) = ([], out)"
  by (induction n) (simp_all add: uart_bit_def)

lemma uart_bit_collect:
  "cur \<noteq> [] \<Longrightarrow> length cur + length bs \<le> nd + rest \<Longrightarrow>
   foldl (uart_bit nd rest) (cur, out) bs = (cur @ bs, out)"
  by (induction bs arbitrary: cur) (simp_all add: uart_bit_def)

lemma uart_bit_frame:
  assumes "length tail = rest" and "0 < rest" and "nd \<le> 8"
  shows "foldl (uart_bit nd rest) ([], out) (uart_frame nd tail c) =
    ([], out @ [push_bit (8 - nd) (take_bit nd c)])"
proof -
  let ?ds = "map (\<lambda>i. of_bool (bit c i)) [0..<nd] :: byte list"
  obtain ts t where tail: "tail = ts @ [t]"
    using assms by (metis append_butlast_last_id length_greater_0_conv)
  have "foldl (uart_bit nd rest) ([], out) (uart_frame nd tail c) =
      uart_bit nd rest (foldl (uart_bit nd rest) ([0], out) (?ds @ ts)) t"
    by (simp add: uart_frame_def tail uart_bit_def del: foldl_append flip: foldl_append)
       (simp add: uart_bit_def)
  also have "\<dots> = uart_bit nd rest (0 # ?ds @ ts, out) t"
    using assms tail by (subst uart_bit_collect) simp_all
  also have "\<dots> = ([], out @ [uart_char ?ds])"
    using assms tail by (simp add: uart_bit_def)
  finally show ?thesis
    using uart_char_bits [OF assms(3), of c] by simp
qed

text \<open>A line carries characters, each after a gap of idle bits and with its own tail.\<close>

definition uart_line :: "nat \<Rightarrow> (nat \<times> byte list \<times> byte) list \<Rightarrow> byte list" where
  "uart_line nd items = concat (map (\<lambda>(gap, tail, c). replicate gap 1 @ uart_frame nd tail c) items)"

lemma uart_bit_line:
  assumes "\<forall>(gap, tail, c) \<in> set items. length tail = rest" and "0 < rest" and "nd \<le> 8"
  shows "foldl (uart_bit nd rest) ([], out) (uart_line nd items) =
    ([], out @ map (\<lambda>(gap, tail, c). push_bit (8 - nd) (take_bit nd c)) items)"
  using assms(1)
proof (induction items arbitrary: out)
  case (Cons item items)
  obtain gap tail c where item: "item = (gap, tail, c)" by (cases item)
  with Cons show ?case
    by (simp add: uart_line_def item uart_bit_gap uart_bit_frame [OF _ assms(2,3)])
qed (simp add: uart_line_def)

text \<open>
  C33: framed characters arrive. Characters framed with a start bit and the configured
  number of data, parity and stop bits, after idle gaps of any length and in any pieces,
  are received once and in order. With eight data bits they arrive unchanged; with fewer,
  the data bits end up in the high bits of the character.
\<close>

theorem uart_frames_received:
  assumes "osmo_mem L" and "suart_inv L s" and "suart_holds [] s" and "keeps L log (cfg s)"
    and "concat pieces = uart_line (cfg_nd (cfg s)) items"
    and "\<forall>(gap, tail, c) \<in> set items. length tail = cfg_rest (cfg s)"
  shows "\<exists>t. seqs (map (osmo_soft_uart_rx_ubits L) pieces) s = Inr t \<and> suart_holds [] t \<and>
    suart_bytes L log t = suart_bytes L log s @
      map (\<lambda>(gap, tail, c). push_bit (8 - cfg_nd (cfg s)) (take_bit (cfg_nd (cfg s)) c)) items \<and>
    (num_data_bits (cfg s) = 8 \<longrightarrow>
      suart_bytes L log t = suart_bytes L log s @ map (\<lambda>(gap, tail, c). c) items)"
proof -
  have line: "foldl (uart_bit (cfg_nd (cfg s)) (cfg_rest (cfg s))) ([], suart_bytes L log s) (concat pieces) =
      ([], suart_bytes L log s @
        map (\<lambda>(gap, tail, c). push_bit (8 - cfg_nd (cfg s)) (take_bit (cfg_nd (cfg s)) c)) items)"
    unfolding assms(5) using suart_inv_cfg [OF assms(2)] by (intro uart_bit_line assms(6)) auto
  have "take_bit 8 (c :: byte) = c" for c
    by (rule take_bit_word_eq_self) simp
  then have "num_data_bits (cfg s) = 8 \<Longrightarrow>
      (\<lambda>(gap, tail, c). push_bit (8 - cfg_nd (cfg s)) (take_bit (cfg_nd (cfg s)) c)) =
      (\<lambda>(gap :: nat, tail :: byte list, c :: byte). c)"
    by (auto simp: fun_eq_iff)
  with osmo_mem.rx_bits_sim [OF assms(1-4), of "concat pieces"] assms(4) show ?thesis
    unfolding rx_pieces osmo_soft_uart_rx_ubits_def ends_total line
    by (auto simp: suart_after_def)
qed

theorem uart_frames_received_witness:
  "\<exists>t. seqs (map (osmo_soft_uart_rx_ubits list_osmo)
        [uart_line 8 [(2, [1], 0x41)], uart_line 8 [(0, [1], 0x42), (5, [0], 0x43)]])
      (lab_uart 8 16 16) = Inr t \<and> suart_bytes list_osmo id t = [0x41, 0x42, 0x43]"
proof -
  have "unat (8 :: byte) = 8" by simp
  then show ?thesis
    using uart_frames_received [OF lo.osmo_mem_axioms lab_uart_inv lab_keeps,
      of 8 16 16 "[uart_line 8 [(2, [1], 0x41)], uart_line 8 [(0, [1], 0x42), (5, [0], 0x43)]]"
         "[(2, [1], 0x41), (0, [1], 0x42), (5, [0], 0x43)]"]
    by (simp add: uart_line_def lab_defs cfg_parity_bits_def suart_bytes_def) auto
qed

section \<open>Time-out\<close>

text \<open>
  Nothing stays in the buffer. As long as a character is buffered the receive timer is
  pending, and when it is due every buffered character is handed up.
\<close>

theorem uart_timeout_delivers:
  assumes "osmo_mem L" and "suart_inv L s" and "keeps L log (cfg s)"
    and "timer_cb L (rx_timer s) = Some Suart_rx_timer_cb"
    and "rx_msg s = Some m" and "msgb_data L m \<noteq> []"
  shows "timer_pending L (rx_timer s) \<and>
    (\<exists>t. suart_timer_due L s = Inr t \<and> suart_inv L t \<and> log (suart_user t) = suart_bytes L log s)"
proof -
  let ?s = "s\<lparr>rx_timer := timer_expire L (rx_timer s)\<rparr>"
  have "ends {} (suart_flushed L log ?s) (suart_flush_rx L ?s)"
    using assms(2,5,6) by (intro osmo_mem.flush_full [OF assms(1), of _ m]) (auto simp: suart_inv_def)
  moreover have "suart_bytes L log ?s = suart_bytes L log s"
    by (simp add: suart_bytes_def)
  moreover have "suart_timer_due L s = suart_flush_rx L ?s"
    using assms(4) by (simp add: suart_timer_due_def suart_rx_timer_cb_def Let_def)
  moreover have "log (suart_user t) = suart_bytes L log t"
    if "\<forall>m. rx_msg t = Some m \<longrightarrow> msgb_data L m = []" for t :: "('a, 'b, 'c, 'd) osmo_soft_uart"
    using that by (auto simp: suart_bytes_def split: option.splits)
  ultimately show ?thesis
    using assms unfolding ends_total by (auto simp: suart_flushed_def suart_inv_def)
qed

definition lab_buffered :: "(buf, buf list, tmr, byte list) osmo_soft_uart" where
  "lab_buffered = (lab_uart 8 16 16)
     \<lparr>rx_msg := Some \<lparr>buf_head = 0, buf_data = [0x41, 0x42], buf_tail = 14\<rparr>,
      rx_timer := \<lparr>tmr_cb = Some Suart_rx_timer_cb, tmr_due = Some (0, 100000)\<rparr>\<rparr>"

theorem uart_timeout_delivers_witness:
  "\<exists>t. suart_timer_due list_osmo lab_buffered = Inr t \<and> suart_user t = [0x41, 0x42]"
proof -
  have "suart_inv list_osmo lab_buffered" and "keeps list_osmo id (cfg lab_buffered)"
    using lab_uart_inv(1) [of 8 16 16] lab_keeps [of 8 16 16]
    by (simp_all add: lab_buffered_def suart_inv_def lab_defs)
  moreover have "timer_cb list_osmo (rx_timer lab_buffered) = Some Suart_rx_timer_cb"
      "rx_msg lab_buffered = Some \<lparr>buf_head = 0, buf_data = [0x41, 0x42], buf_tail = 14\<rparr>"
      "msgb_data list_osmo \<lparr>buf_head = 0, buf_data = [0x41, 0x42], buf_tail = 14\<rparr> \<noteq> []"
      "suart_bytes list_osmo id lab_buffered = [0x41, 0x42]"
    by (simp_all add: lab_buffered_def lab_defs suart_bytes_def)
  ultimately show ?thesis
    using uart_timeout_delivers [OF lo.osmo_mem_axioms, of lab_buffered id] by auto
qed

section \<open>Configuration\<close>

text \<open>
  Configuration. An invalid configuration is refused with \<open>-EINVAL\<close> and changes
  nothing. A valid one is installed together with the receive time-out, no character
  received before is lost, and the receiver stays fit as long as its buffer does not have
  to grow.
\<close>

theorem uart_configure_checked:
  assumes "osmo_mem L" and "suart_inv L s" and "keeps L log (cfg s)"
  shows "if suart_cfg_ok c
    then \<exists>t. osmo_soft_uart_configure L c s = Inr (0, t) \<and> cfg t = c \<and>
      timer_cb L (rx_timer t) = Some Suart_rx_timer_cb \<and>
      suart_bytes L log t = suart_bytes L log s \<and>
      (suart_fits c \<and> (rx_msg s = None \<or> rx_buf_size c \<le> rx_buf_size (cfg s)) \<longrightarrow> suart_inv L t)
    else osmo_soft_uart_configure L c s = Inr (- EINVAL, s)"
proof (cases "suart_cfg_ok c")
  case True
  define old where "old = (if rx_buf_size c < rx_buf_size (cfg s) \<or> rx_timeout_ms c < rx_timeout_ms (cfg s)
    then suart_flush_rx L s else Inr s)"
  obtain t where t: "old = Inr t" "suart_inv L t" "cfg t = cfg s" "suart_bytes L log t = suart_bytes L log s"
    and empty: "rx_buf_size c < rx_buf_size (cfg s) \<longrightarrow> (\<forall>m. rx_msg t = Some m \<longrightarrow> msgb_data L m = [])"
    and none: "rx_msg s = None \<longrightarrow> rx_msg t = None"
  proof -
    obtain u where u: "suart_flush_rx L s = Inr u" "suart_flushed L log s u"
      using osmo_mem.flush_inv [OF assms(1,2)] unfolding ends_total by blast
    have "rx_msg s = None \<longrightarrow> u = s"
      using u(1) assms(2) by (auto simp: suart_flush_rx_def suart_inv_def)
    with u assms(2,3) show thesis
      by (intro that [of "if rx_buf_size c < rx_buf_size (cfg s) \<or> rx_timeout_ms c < rx_timeout_ms (cfg s)
            then u else s"])
         (auto simp: old_def suart_flushed_def)
  qed
  have conf: "osmo_soft_uart_configure L c s = Inr (0, t\<lparr>cfg := c,
      rx_timer := timer_setup L (rx_timer t) (Some Suart_rx_timer_cb), tx_queue := msgb_queue_init L\<rparr>)"
    using True t(1) by (simp add: osmo_soft_uart_configure_def old_def [symmetric])
  have tl: "timer_lib L"
    using assms(1) by (auto dest: osmo_mem.axioms)
  have fit: "suart_fits c \<and> (rx_msg s = None \<or> rx_buf_size c \<le> rx_buf_size (cfg s)) \<longrightarrow>
      suart_inv L (t\<lparr>cfg := c, rx_timer := timer_setup L (rx_timer t) (Some Suart_rx_timer_cb),
        tx_queue := msgb_queue_init L\<rparr>)"
    using t(2,3) empty none
    by (auto simp: suart_inv_def suart_fits_def timer_lib.pending_setup [OF tl] split: option.splits)
  show ?thesis
    using True conf fit t(4) by (simp add: suart_bytes_def timer_lib.cb_setup [OF tl])
qed (simp add: osmo_soft_uart_configure_def)

theorem uart_configure_checked_witness:
  "\<exists>t. osmo_soft_uart_configure list_osmo (lab_cfg 7 4) lab_buffered = Inr (0, t) \<and>
      cfg t = lab_cfg 7 4 \<and> suart_bytes list_osmo id t = [0x41, 0x42]"
proof -
  have "suart_inv list_osmo lab_buffered" and "keeps list_osmo id (cfg lab_buffered)"
    using lab_uart_inv(1) [of 8 16 16] lab_keeps [of 8 16 16]
    by (simp_all add: lab_buffered_def suart_inv_def lab_defs)
  moreover have "suart_bytes list_osmo id lab_buffered = [0x41, 0x42]" "suart_cfg_ok (lab_cfg 7 4)"
    by (simp_all add: lab_buffered_def lab_defs suart_bytes_def suart_cfg_ok_def)
  ultimately show ?thesis
    using uart_configure_checked [OF lo.osmo_mem_axioms, of lab_buffered id "lab_cfg 7 4"] by auto
qed

section \<open>Life cycle\<close>

text \<open>
  Start and stop. A UART that was allocated, configured and enabled is ready to
  receive, and disabling a receiver hands up everything it has buffered.
\<close>

theorem uart_start_stop:
  assumes "osmo_mem L" and "suart_fits c" and "1 + cfg_nd c + cfg_rest c < 256" and "keeps L log c"
    and "osmo_soft_uart_alloc True t0 q0 user name = Some s0"
  shows "\<exists>s1 s2. osmo_soft_uart_configure L c s0 = Inr (0, s1) \<and>
    osmo_soft_uart_enable L True tx s1 = Inr s2 \<and> suart_inv L s2 \<and> suart_holds [] s2 \<and>
    cfg s2 = c \<and> suart_bytes L log s2 = log user \<and>
    (\<forall>s. suart_inv L s \<and> keeps L log (cfg s) \<and> rx_running s \<longrightarrow>
      (\<exists>t. osmo_soft_uart_enable L False tx s = Inr t \<and> suart_inv L t \<and> \<not> rx_running t \<and>
        log (suart_user t) = suart_bytes L log s))"
proof -
  have ml: "msgb_mem L"
    using assms(1) by (rule osmo_mem.axioms)
  obtain m where m: "msgb_alloc L (rx_buf_size c) = Some m"
    using msgb_mem.alloc_some [OF ml] by blast
  have fresh: "msgb_data L m = []" "msgb_tailroom L m = rx_buf_size c"
    using msgb_lib.alloc [OF msgb_mem.axioms(1) [OF ml] m] assms(2) by (auto simp: suart_fits_def)
  have size: "rx_buf_size c mod 65536 = rx_buf_size c" and ok: "suart_cfg_ok c"
    using assms(2) by (simp_all add: suart_fits_def)
  have s0: "rx_msg s0 = None" "rx_flags s0 = 0" "\<not> rx_running s0" "rx_bit_count s0 = 0"
      "suart_user s0 = user" "\<not> tx_running s0"
    using assms(5) by (auto simp: osmo_soft_uart_alloc_def)
  define s1 where "s1 = s0\<lparr>cfg := c, rx_timer := timer_setup L (rx_timer s0) (Some Suart_rx_timer_cb),
    tx_queue := msgb_queue_init L\<rparr>"
  have conf: "osmo_soft_uart_configure L c s0 = Inr (0, s1)"
    using ok s0 by (simp add: osmo_soft_uart_configure_def suart_flush_rx_def s1_def)
  have on: "osmo_soft_uart_enable L True tx s1 = Inr (s1\<lparr>rx_msg := Some m, rx_running := True, tx_running := tx\<rparr>)"
    using s0 m size
    by (cases tx) (simp_all add: osmo_soft_uart_enable_def suart_new_msg_def s1_def seqs.simps)
  have off: "\<exists>t. osmo_soft_uart_enable L False tx s = Inr t \<and> suart_inv L t \<and> \<not> rx_running t \<and>
      log (suart_user t) = suart_bytes L log s"
    if s: "suart_inv L s" "keeps L log (cfg s)" "rx_running s" for s
  proof -
    obtain u where u: "suart_flush_rx L s = Inr u" "suart_flushed L log s u"
      using osmo_mem.flush_inv [OF assms(1) s(1)] unfolding ends_total by blast
    with s show ?thesis
      by (auto simp: osmo_soft_uart_enable_def seqs.simps suart_flushed_def suart_inv_def
          suart_bytes_def split: option.splits)
  qed
  have "suart_inv L (s1\<lparr>rx_msg := Some m, rx_running := True, tx_running := tx\<rparr>)"
    using assms(2) s0 fresh by (auto simp: suart_inv_def s1_def suart_fits_def)
  moreover have "suart_holds [] (s1\<lparr>rx_msg := Some m, rx_running := True, tx_running := tx\<rparr>)"
    using assms(3) s0 by (simp add: suart_holds_def s1_def)
  ultimately show ?thesis
    using conf on off s0 fresh by (simp add: s1_def suart_bytes_def)
qed

theorem uart_start_stop_witness:
  "\<exists>s0 s1 s2. osmo_soft_uart_alloc True \<lparr>tmr_cb = None, tmr_due = None\<rparr> [] [0x3e] ''uart'' = Some s0 \<and>
     osmo_soft_uart_configure list_osmo (lab_cfg 8 16) s0 = Inr (0, s1) \<and>
     osmo_soft_uart_enable list_osmo True False s1 = Inr s2 \<and> suart_bytes list_osmo id s2 = [0x3e]"
proof -
  let ?t0 = "\<lparr>tmr_cb = None, tmr_due = None\<rparr>"
  have "suart_fits (lab_cfg 8 16)" "1 + cfg_nd (lab_cfg 8 16) + cfg_rest (lab_cfg 8 16) < 256"
    by (simp_all add: suart_fits_def suart_cfg_ok_def lab_defs cfg_parity_bits_def)
  moreover have "keeps list_osmo id (lab_cfg 8 16)"
    using lab_keeps [of 8 16 16] by (simp add: lab_uart_def)
  moreover obtain s0 :: "(buf, buf list, tmr, byte list) osmo_soft_uart"
    where s0: "osmo_soft_uart_alloc True ?t0 [] [0x3e] ''uart'' = Some s0"
    by (simp add: osmo_soft_uart_alloc_def)
  ultimately show ?thesis
    using uart_start_stop [OF lo.osmo_mem_axioms, of "lab_cfg 8 16" id ?t0 "[]" "[0x3e]" "''uart''" s0 False]
    by auto
qed

section \<open>Buffers that cannot hold what is to come\<close>

text \<open>As long as no flush is due, characters pile up until the buffer has no room.\<close>

lemma rx_ch_overrun:
  assumes "msgb_lib L" and "rx_msg s = Some m" and "rx_flags s = 0"
    and "length (msgb_data L m) + msgb_tailroom L m < rx_buf_size (cfg s) \<or>
      length (msgb_data L m) + msgb_tailroom L m \<le> 1"
    and "msgb_tailroom L m < length cs"
  shows "seqs (map (suart_rx_ch L) cs) s = Inl MsgbAbort"
  using assms(2-)
proof (induction cs arbitrary: s m)
  case (Cons c cs)
  show ?case
  proof (cases "msgb_tailroom L m")
    case 0
    then have "msgb_put L m 1 = None"
      by (intro msgb_lib.put_abort [OF assms(1)]) simp
    then show ?thesis
      using Cons.prems by (simp add: suart_rx_ch_def seqs.simps)
  next
    case (Suc r)
    obtain m1 b where m1: "msgb_put L m 1 = Some m1" and d1: "msgb_data L m1 = msgb_data L m @ [b]"
      and t1: "msgb_tailroom L m1 = r"
      using msgb_lib.put_ok [OF assms(1), of 1 m] Suc by (auto simp: length_Suc_conv)
    define m2 where "m2 = msgb_wr L m1 (length (msgb_data L m)) c"
    have d2: "msgb_data L m2 = msgb_data L m @ [c]" and t2: "msgb_tailroom L m2 = r"
      using msgb_lib.wr [OF assms(1), of "length (msgb_data L m)" m1 c] d1 t1 by (simp_all add: m2_def)
    have "\<exists>x. suart_rx_ch L c s = Inr (s\<lparr>rx_msg := Some m2, rx_timer := x\<rparr>)"
      using Cons.prems Suc
      by (auto simp: suart_rx_ch_def m1 m2_def [symmetric] d2 Let_def simp del: One_nat_def
            intro: exI [of _ "rx_timer s"])
    then obtain x where "suart_rx_ch L c s = Inr (s\<lparr>rx_msg := Some m2, rx_timer := x\<rparr>)" ..
    with Cons.prems Suc d2 t2 show ?thesis
      by (auto simp: seqs.simps intro!: Cons.IH [of _ m2])
  qed
qed simp

text \<open>
  A buffer that is never replaced. Configuring a receiver does not replace its empty
  buffer. When the new buffer size is larger than the room of the old buffer, or that room
  is a single byte, the receiver does not flush in time and the process aborts on the
  character that no longer fits.
\<close>

theorem uart_buffer_aborts:
  assumes "osmo_lib L" and "rx_msg s = Some m" and "msgb_data L m = []" and "rx_flags s = 0"
    and "suart_cfg_ok c" and "msgb_tailroom L m < rx_buf_size c \<or> msgb_tailroom L m \<le> 1"
    and "msgb_tailroom L m < length cs"
  shows "\<exists>t. osmo_soft_uart_configure L c s = Inr (0, t) \<and>
    seqs (map (suart_rx_ch L) cs) t = Inl MsgbAbort"
proof -
  have "msgb_lib L"
    using assms(1) by (rule osmo_lib.axioms)
  then have "seqs (map (suart_rx_ch L) cs) (s\<lparr>cfg := c,
      rx_timer := timer_setup L (rx_timer s) (Some Suart_rx_timer_cb), tx_queue := msgb_queue_init L\<rparr>) =
    Inl MsgbAbort"
    using assms(2-) by (intro rx_ch_overrun [of _ _ m]) auto
  then show ?thesis
    using assms(2-5) by (simp add: osmo_soft_uart_configure_def suart_flush_rx_def)
qed

theorem uart_buffer_aborts_witness:
  "\<exists>t. osmo_soft_uart_configure list_osmo (lab_cfg 8 16) (lab_uart 8 2 2) = Inr (0, t) \<and>
    seqs (map (suart_rx_ch list_osmo) [0x41, 0x42, 0x43]) t = Inl MsgbAbort"
proof -
  have "rx_msg (lab_uart 8 2 2) = Some \<lparr>buf_head = 0, buf_data = [], buf_tail = 2\<rparr>"
      "rx_flags (lab_uart 8 2 2) = 0" "suart_cfg_ok (lab_cfg 8 16)" "rx_buf_size (lab_cfg 8 16) = 16"
    by (simp_all add: lab_defs suart_cfg_ok_def)
  moreover have "msgb_data list_osmo \<lparr>buf_head = 0, buf_data = [], buf_tail = 2\<rparr> = []"
      "msgb_tailroom list_osmo \<lparr>buf_head = 0, buf_data = [], buf_tail = 2\<rparr> = 2"
    by (simp_all add: list_osmo_def)
  ultimately show ?thesis
    using uart_buffer_aborts [OF lo.osmo_lib_axioms, of "lab_uart 8 2 2"
      "\<lparr>buf_head = 0, buf_data = [], buf_tail = 2\<rparr>" "lab_cfg 8 16" "[0x41, 0x42, 0x43]"] by simp
qed

end
