(* ===== verification/V110_Call.thy ===== *)
theory V110_Call
  imports Soft_Uart Gsmtap
begin

text \<open>
  The V.110 call handler, \<open>src/yate_v110.c\<close>: samples go through the I.460 demultiplexer and
  the frame synchronisation of libosmocore, which hand over V.110 frames as lists of
  unpacked bits; four modified V.110 frames (GSM 08.20) make up one RLP frame, which is
  captured. The library enters as parameters: the demultiplexer as a function from samples to
  blocks of bits, the synchronisation as one from bits to frames, the bit conversions as a
  record with the laws the handler relies on. The software UART is set up for the frames'
  data, but nothing feeds it.
\<close>

section \<open>The library\<close>

record bits_api =
  osmo_ubit2pbit :: "byte list \<Rightarrow> byte list"
  osmo_revbytebits_8 :: "byte \<Rightarrow> byte"

locale bits_lib =
  fixes B :: bits_api
  assumes ubit2pbit_length: "length (osmo_ubit2pbit B bs) = (length bs + 7) div 8"
    and ubit2pbit_bit:
      "set bs \<subseteq> {0, 1} \<Longrightarrow> i < length bs \<Longrightarrow>
       bit (osmo_ubit2pbit B bs ! (i div 8)) (7 - i mod 8) = (bs ! i = 1)"
    and revbytebits_bit: "i < 8 \<Longrightarrow> bit (osmo_revbytebits_8 B b) i = bit b (7 - i)"

section \<open>The handler\<close>

record osmo_v110_decoded_rlp_frame =
  d_bits :: "byte list"
  e_bits :: "byte list"

text \<open>The bits \<open>ra_bits[off]\<close> to \<open>ra_bits[off + n - 1]\<close>.\<close>

definition bits_at :: "byte list \<Rightarrow> nat \<Rightarrow> nat \<Rightarrow> byte list" where
  "bits_at ra_bits off n = take n (drop off ra_bits)"

definition osmo_v110_decode_rlp_frame ::
    "byte list \<Rightarrow> osmo_v110_decoded_rlp_frame \<Rightarrow> int \<times> osmo_v110_decoded_rlp_frame" where
  "osmo_v110_decode_rlp_frame ra_bits fr =
     (if length ra_bits < 80 then (- EINVAL, fr)
      else (0, fr\<lparr>
        e_bits := bits_at ra_bits (5 * 8 + 1) 3,
        d_bits := bits_at ra_bits (1 * 8 + 1) 7 @ bits_at ra_bits (2 * 8 + 1) 7 @
          bits_at ra_bits (3 * 8 + 1) 7 @ bits_at ra_bits (4 * 8 + 1) 7 @
          [ra_bits ! (5 * 8 + 4), ra_bits ! (5 * 8 + 5), ra_bits ! (5 * 8 + 6), ra_bits ! (5 * 8 + 7)] @
          bits_at ra_bits (6 * 8 + 1) 7 @ bits_at ra_bits (7 * 8 + 1) 7 @
          bits_at ra_bits (8 * 8 + 1) 7 @ bits_at ra_bits (9 * 8 + 1) 7\<rparr>))"

record 'i v110_call =
  rlp_frame_bits :: "byte list"
  rlp_frame :: "byte list"
  v110_gsmtap :: gsmtap
  g_i460_ts :: 'i

text \<open>The synchronised frames are handed over one by one; \<open>dfr\<close> is what was on the stack.\<close>

definition frame_bits_cb ::
    "bits_api \<Rightarrow> gsmtap_api \<Rightarrow> osmo_v110_decoded_rlp_frame \<Rightarrow> byte list \<Rightarrow> 'i v110_call \<Rightarrow> fault + 'i v110_call" where
  "frame_bits_cb B G dfr bits v =
     (let (rc, dfr) = osmo_v110_decode_rlp_frame bits dfr in
      if rc < 0 then Inr v
      else
        let rlp_fsi = push_bit 1 (e_bits dfr ! 1) OR e_bits dfr ! 2 in
        if 240 < unat rlp_fsi * 60 + 60 then Inl ArrayOverrun
        else
          let v = v\<lparr>rlp_frame_bits := store (rlp_frame_bits v) (unat rlp_fsi * 60) (d_bits dfr)\<rparr> in
          if rlp_fsi = 0x03 then
            let v = v\<lparr>rlp_frame := map (osmo_revbytebits_8 B) (osmo_ubit2pbit B (rlp_frame_bits v))\<rparr>
            in case gsmtap_send_rlp G False (rlp_frame v) 30 (v110_gsmtap v) of
                 Inl e \<Rightarrow> Inl e
               | Inr (ret, g) \<Rightarrow> Inr (v\<lparr>v110_gsmtap := g\<rparr>)
          else Inr v)"

primrec v110_frames ::
    "bits_api \<Rightarrow> gsmtap_api \<Rightarrow> osmo_v110_decoded_rlp_frame \<Rightarrow> byte list list \<Rightarrow> 'i v110_call \<Rightarrow> fault + 'i v110_call" where
  "v110_frames B G dfr [] v = Inr v"
| "v110_frames B G dfr (bits # fs) v =
     (case frame_bits_cb B G dfr bits v of Inl e \<Rightarrow> Inl e | Inr v \<Rightarrow> v110_frames B G dfr fs v)"

text \<open>
  The demultiplexer \<open>D\<close> hands its blocks of bits one by one to a call-back, which feeds the
  synchronisation \<open>Y\<close>; that one finds frames in them.
\<close>

definition i460_out_bits_cb ::
    "('s \<Rightarrow> byte list \<Rightarrow> 's \<times> byte list list) \<Rightarrow> byte list \<Rightarrow> 's \<times> byte list list \<Rightarrow> 's \<times> byte list list" where
  "i460_out_bits_cb Y bits = (\<lambda>(g_sync_fi, fs). let (fi, gs) = Y g_sync_fi bits in (fi, fs @ gs))"

definition v110_demux ::
    "('i \<Rightarrow> byte list \<Rightarrow> 'i \<times> byte list list) \<Rightarrow> ('s \<Rightarrow> byte list \<Rightarrow> 's \<times> byte list list)
     \<Rightarrow> 'i \<times> 's \<Rightarrow> byte list \<Rightarrow> ('i \<times> 's) \<times> byte list list" where
  "v110_demux D Y = (\<lambda>(ts, fi) in_buf.
     let (ts, blocks) = D ts in_buf; (fi, fs) = fold (i460_out_bits_cb Y) blocks (fi, []) in ((ts, fi), fs))"

text \<open>
  \<open>demux ts in_buf\<close> is the state of demultiplexer and synchronisation after the samples, and
  the frames found in them. The samples are looped back.
\<close>

definition v110_handle_sample_buffer ::
    "bits_api \<Rightarrow> gsmtap_api \<Rightarrow> ('i \<Rightarrow> byte list \<Rightarrow> 'i \<times> byte list list) \<Rightarrow> osmo_v110_decoded_rlp_frame
     \<Rightarrow> byte list \<Rightarrow> byte list \<Rightarrow> 'i v110_call \<Rightarrow> fault + byte list \<times> 'i v110_call" where
  "v110_handle_sample_buffer B G demux dfr out_buf in_buf v =
     (let (ts, fs) = demux (g_i460_ts v) in_buf in
      case v110_frames B G dfr fs (v\<lparr>g_i460_ts := ts\<rparr>) of
        Inl e \<Rightarrow> Inl e
      | Inr v \<Rightarrow> Inr (in_buf @ drop (length in_buf) out_buf, v))"

text \<open>
  The whole call: the static data as \<open>main\<close> leaves it, \<open>ts\<close> the initialised demultiplexer and \<open>source\<close>
  whether the capture's socket could be opened, and the handler on one buffer of samples after the other, each with the output buffer it fills.
\<close>

definition v110_main_init :: "bool \<Rightarrow> 'i \<Rightarrow> 'i v110_call" where
  "v110_main_init source ts =
     \<lparr>rlp_frame_bits = replicate 240 0, rlp_frame = replicate 30 0,
      v110_gsmtap = snd (gsmtap_init source gsmtap_statics), g_i460_ts = ts\<rparr>"

primrec v110_main_loop ::
    "bits_api \<Rightarrow> gsmtap_api \<Rightarrow> ('i \<Rightarrow> byte list \<Rightarrow> 'i \<times> byte list list) \<Rightarrow> osmo_v110_decoded_rlp_frame
     \<Rightarrow> (byte list \<times> byte list) list \<Rightarrow> 'i v110_call \<Rightarrow> fault + byte list list \<times> 'i v110_call" where
  "v110_main_loop B G demux dfr [] v = Inr ([], v)"
| "v110_main_loop B G demux dfr (io # ios) v =
     (case v110_handle_sample_buffer B G demux dfr (fst io) (snd io) v of
        Inl e \<Rightarrow> Inl e
      | Inr (out, v) \<Rightarrow>
          (case v110_main_loop B G demux dfr ios v of
             Inl e \<Rightarrow> Inl e
           | Inr (outs, v) \<Rightarrow> Inr (out # outs, v)))"

text \<open>The frames found in all of the samples.\<close>

primrec demux_all :: "('i \<Rightarrow> byte list \<Rightarrow> 'i \<times> byte list list) \<Rightarrow> 'i \<Rightarrow> byte list list \<Rightarrow> byte list list" where
  "demux_all demux ts [] = []"
| "demux_all demux ts (in_buf # bufs) =
     (let (ts', fs) = demux ts in_buf in fs @ demux_all demux ts' bufs)"

text \<open>The blocks of all of the samples, and the frames found in a sequence of blocks.\<close>

primrec blocks_all :: "('i \<Rightarrow> byte list \<Rightarrow> 'i \<times> byte list list) \<Rightarrow> 'i \<Rightarrow> byte list list \<Rightarrow> byte list list" where
  "blocks_all D ts [] = []"
| "blocks_all D ts (in_buf # bufs) = (let (ts', bs) = D ts in_buf in bs @ blocks_all D ts' bufs)"

primrec sync_all :: "('s \<Rightarrow> byte list \<Rightarrow> 's \<times> byte list list) \<Rightarrow> 's \<Rightarrow> byte list list \<Rightarrow> byte list list" where
  "sync_all Y fi [] = []"
| "sync_all Y fi (bits # bss) = (let (fi', fs) = Y fi bits in fs @ sync_all Y fi' bss)"

lemma sync_fold:
  "fold (i460_out_bits_cb Y) bss (fi, fs) = (fi', gs) \<Longrightarrow>
   gs = fs @ sync_all Y fi bss \<and> sync_all Y fi (bss @ cs) = sync_all Y fi bss @ sync_all Y fi' cs"
proof (induction bss arbitrary: fi fs)
  case (Cons bits bss)
  obtain fi1 hs where "Y fi bits = (fi1, hs)" by force
  with Cons.IH [of fi1 "fs @ hs"] Cons.prems show ?case
    by (auto simp: i460_out_bits_cb_def)
qed simp

lemma demux_all_sync: "demux_all (v110_demux D Y) (ts, fi) bufs = sync_all Y fi (blocks_all D ts bufs)"
proof (induction bufs arbitrary: ts fi)
  case (Cons in_buf bufs)
  obtain ts' bs where d: "D ts in_buf = (ts', bs)" by force
  obtain fi' gs where f: "fold (i460_out_bits_cb Y) bs (fi, []) = (fi', gs)" by force
  from sync_fold [OF f, of "blocks_all D ts' bufs"] d f Cons.IH show ?case
    by (simp add: v110_demux_def)
qed simp

section \<open>The software UART\<close>

text \<open>
  The call-back of the UART prints the characters of a message; a null message is
  dereferenced. The static UART has the given fields of its configuration, the others are
  zero: its buffers have no room.
\<close>

definition uart_rx ::
    "('m, 'q, 't) osmo_api \<Rightarrow> nat \<Rightarrow> 'm option \<Rightarrow> u32 \<Rightarrow> fault + byte list list \<Rightarrow> fault + byte list list" where
  "uart_rx L user msg flags r =
     (case r of
        Inl e \<Rightarrow> Inl e
      | Inr printed \<Rightarrow> (case msg of None \<Rightarrow> Inl NullDeref | Some m \<Rightarrow> Inr (printed @ [msgb_data L m])))"

definition g_suart ::
    "('m, 'q, 't) osmo_api \<Rightarrow> 't \<Rightarrow> 'q \<Rightarrow> ('m, 'q, 't, fault + byte list list) osmo_soft_uart" where
  "g_suart L t0 q0 =
     \<lparr>cfg = \<lparr>num_data_bits = 8, num_stop_bits = 1, parity_mode = OSMO_SUART_PARITY_NONE, rx_buf_size = 0,
        rx_timeout_ms = 0, priv = 0, rx_cb = Some (uart_rx L), status_change_cb = None\<rparr>,
      suart_name = [], rx_running = False, rx_bit_count = 0, rx_shift_reg = 0, rx_msg = None,
      rx_parity_bit = 0, rx_flags = 0, rx_status = 0, rx_timer = t0, tx_running = False, tx_bit_count = 0,
      tx_shift_reg = 0, tx_msg = None, tx_queue = q0, suart_user = Inr []\<rparr>"

text \<open>
  Bits do not reach a UART that is not enabled; its configuration would be refused by
  \<open>osmo_soft_uart_configure\<close>; and if it were enabled, the first character would not fit the
  buffer.
\<close>

lemma g_suart_silent: "osmo_soft_uart_rx_ubits L ubits (g_suart L t0 q0) = Inr (g_suart L t0 q0)"
  by (induction ubits) (simp_all add: osmo_soft_uart_rx_ubits_def osmo_uart_rx_bit_def g_suart_def seqs.simps)

lemma g_suart_refused: "osmo_soft_uart_configure L (cfg (g_suart L t0 q0)) s = Inr (- EINVAL, s)"
  by (simp add: osmo_soft_uart_configure_def suart_cfg_ok_def g_suart_def)

lemma g_suart_aborts:
  "osmo_soft_uart_enable list_osmo True False (g_suart list_osmo t0 []) = Inr s \<Longrightarrow>
   suart_rx_ch list_osmo ch s = Inl MsgbAbort"
  by (auto simp: osmo_soft_uart_enable_def g_suart_def seqs.simps suart_new_msg_def suart_rx_ch_def list_osmo_def
      upd_def Let_def)

section \<open>Modified V.110 frames\<close>

text \<open>
  A modified V.110 frame after GSM 08.20, figure 2: ten octets, the first all zero, the
  others starting with a one; the sixth carries the bits E1 to E3, of which E2 and E3 are
  the number of the frame, and four data bits, the others seven data bits each.
\<close>

definition v110_octets :: "byte list \<Rightarrow> byte list" where
  "v110_octets d = concat (map (\<lambda>i. 1 # bits_at d (7 * i) 7) [0..<4])"

definition v110_rlp_frame :: "byte \<Rightarrow> nat \<Rightarrow> byte list \<Rightarrow> byte list" where
  "v110_rlp_frame e1 fsi d =
     replicate 8 0 @ v110_octets (take 28 d) @
     [1, e1, of_nat (fsi div 2), of_nat (fsi mod 2)] @ bits_at d 28 4 @ v110_octets (drop 32 d)"

lemma split_at:
  assumes "length xs = n + k"
  obtains a b where "xs = a @ b" and "length a = n" and "length b = k"
  using assms that [of "take n xs" "drop n xs"] by simp

lemma v110_data_parts:
  assumes "length d = 28"
  obtains a b c e where "d = a @ b @ c @ e" and "length a = 7" and "length b = 7" and "length c = 7" and "length e = 7"
proof -
  obtain a r where a: "d = a @ r" "length a = 7" "length r = 21" using split_at [of d 7 21] assms by auto
  obtain b s where b: "r = b @ s" "length b = 7" "length s = 14" using split_at [of r 7 14] a by auto
  obtain c e where "s = c @ e" "length c = 7" "length e = 7" using split_at [of s 7 7] b by auto
  with a b show ?thesis by (intro that [of a b c e]) auto
qed

lemma v110_octets_parts:
  "length a = 7 \<Longrightarrow> length b = 7 \<Longrightarrow> length c = 7 \<Longrightarrow> length e = 7 \<Longrightarrow>
   v110_octets (a @ b @ c @ e) = (1 # a) @ (1 # b) @ (1 # c) @ (1 # e)"
  by (simp add: v110_octets_def bits_at_def upt_rec)

lemma decode_rlp_frame:
  assumes "length d = 60"
  shows "osmo_v110_decode_rlp_frame (v110_rlp_frame e1 fsi d) fr =
    (0, fr\<lparr>e_bits := [e1, of_nat (fsi div 2), of_nat (fsi mod 2)], d_bits := d\<rparr>)"
proof -
  obtain x r where x: "d = x @ r" "length x = 28" "length r = 32" using split_at [of d 28 32] assms by auto
  obtain m y where m: "r = m @ y" "length m = 4" "length y = 28" using split_at [of r 4 28] x by auto
  obtain a b c e where p: "x = a @ b @ c @ e" "length a = 7" "length b = 7" "length c = 7" "length e = 7"
    using v110_data_parts [OF x(2)] .
  obtain f g h k where q: "y = f @ g @ h @ k" "length f = 7" "length g = 7" "length h = 7" "length k = 7"
    using v110_data_parts [OF m(3)] .
  obtain m0 m1 m2 m3 where m': "m = [m0, m1, m2, m3]"
    using m(2) by (auto simp: numeral_eq_Suc length_Suc_conv)
  have fr: "v110_rlp_frame e1 fsi d = replicate 8 0 @ (1 # a) @ (1 # b) @ (1 # c) @ (1 # e) @
      [1, e1, of_nat (fsi div 2), of_nat (fsi mod 2)] @ [m0, m1, m2, m3] @ (1 # f) @ (1 # g) @ (1 # h) @ (1 # k)"
    using p q m' v110_octets_parts [of a b c e] v110_octets_parts [of f g h k]
    by (simp add: v110_rlp_frame_def bits_at_def x(1) m(1))
  show ?thesis
    unfolding fr using p q m' x(1) m(1)
    by (simp add: osmo_v110_decode_rlp_frame_def bits_at_def nth_append nth_Cons' drop_Cons' take_Cons')
qed

section \<open>Reassembly\<close>

text \<open>The four frames of an RLP frame, and its bytes with the first bit lowest.\<close>

definition rlp_frames :: "(nat \<Rightarrow> byte) \<Rightarrow> byte list \<Rightarrow> byte list list" where
  "rlp_frames e1 rlp = map (\<lambda>k. v110_rlp_frame (e1 k) k (bits_at rlp (60 * k) 60)) [0..<4]"

definition rlp_packed :: "byte list \<Rightarrow> byte list \<Rightarrow> bool" where
  "rlp_packed rlp p \<longleftrightarrow> length p = 30 \<and> (\<forall>i < 240. bit (p ! (i div 8)) (i mod 8) = (rlp ! i = 1))"

lemma fsi_bits: "fsi < 4 \<Longrightarrow> push_bit 1 (of_nat (fsi div 2)) OR of_nat (fsi mod 2) = (of_nat fsi :: byte)"
proof -
  assume "fsi < 4"
  then have "fsi = 0 \<or> fsi = 1 \<or> fsi = 2 \<or> fsi = 3" by arith
  then show ?thesis by auto
qed

lemma frame_step:
  assumes "fsi < 4" and "length d = 60"
  shows "frame_bits_cb B G dfr (v110_rlp_frame e1 fsi d) v =
    (let v = v\<lparr>rlp_frame_bits := store (rlp_frame_bits v) (fsi * 60) d\<rparr> in
     if fsi = 3
     then let p = map (osmo_revbytebits_8 B) (osmo_ubit2pbit B (rlp_frame_bits v))
          in map_sum id (\<lambda>(rc, g). v\<lparr>rlp_frame := p, v110_gsmtap := g\<rparr>) (gsmtap_send_rlp G False p 30 (v110_gsmtap v))
     else Inr v)"
proof -
  have "unat (of_nat fsi :: byte) = fsi" "(of_nat fsi :: byte) = 3 \<longleftrightarrow> fsi = 3"
    using assms(1) by (auto simp: unat_of_nat word_unat_eq_iff)
  with assms show ?thesis
    using fsi_bits [OF assms(1)]
    by (simp add: frame_bits_cb_def decode_rlp_frame Let_def del: push_bit_numeral push_bit_of_Suc_0 split: sum.split)
qed

lemma store_quarters:
  assumes "length buf = 240" and "length rlp = 240"
  shows "store (store (store (store buf 0 (take 60 rlp)) 60 (bits_at rlp 60 60)) 120 (bits_at rlp 120 60)) 180
    (bits_at rlp 180 60) = rlp"
proof -
  obtain a r where a: "rlp = a @ r" "length a = 60" "length r = 180" using split_at [of rlp 60 180] assms by auto
  obtain b s where b: "r = b @ s" "length b = 60" "length s = 120" using split_at [of r 60 120] a by auto
  obtain c e where "s = c @ e" "length c = 60" "length e = 60" using split_at [of s 60 60] b by auto
  with a b assms(1) show ?thesis
    by (simp add: store_def bits_at_def)
qed

context bits_lib
begin

lemma packed:
  assumes "length rlp = 240" and "set rlp \<subseteq> {0, 1}"
  shows "rlp_packed rlp (map (osmo_revbytebits_8 B) (osmo_ubit2pbit B rlp))"
proof -
  have "bit (osmo_revbytebits_8 B (osmo_ubit2pbit B rlp ! (i div 8))) (i mod 8) = (rlp ! i = 1)" if "i < 240" for i
    using ubit2pbit_bit [OF assms(2), of i] that assms(1) by (simp add: revbytebits_bit)
  then show ?thesis
    using assms(1) by (simp add: rlp_packed_def ubit2pbit_length)
qed

end

context gsmtap_lib
begin

lemma rlp_sent:
  assumes "length p = 30" and "g_gti g"
  obtains rc g' where "gsmtap_send_rlp G dir p 30 g = Inr (rc, g')" and "gsmtap_next G (rlp_hdr G dir, p) g g'"
  using send_next [of p g "rlp_hdr G dir"] assms
  by (auto simp: gsmtap_send_rlp_def ends_def split: sum.splits)

end

text \<open>What the handler relies on: the bit conversions and the capture.\<close>

locale rlp_capture = bits_lib B + gsmtap_lib G
  for B :: bits_api and G :: gsmtap_api
begin

lemma rlp_frames_run:
  assumes "length rlp = 240" and "set rlp \<subseteq> {0, 1}" and "length (rlp_frame_bits v) = 240" and "g_gti (v110_gsmtap v)"
  obtains p w where "v110_frames B G dfr (rlp_frames e1 rlp @ fs) v = v110_frames B G dfr fs w"
    and "rlp_packed rlp p" and "gsmtap_next G (rlp_hdr G False, p) (v110_gsmtap v) (v110_gsmtap w)"
    and "length (rlp_frame_bits w) = 240" and "g_i460_ts w = g_i460_ts v"
proof -
  define p where "p = map (osmo_revbytebits_8 B) (osmo_ubit2pbit B rlp)"
  have pk: "rlp_packed rlp p"
    unfolding p_def using assms(1,2) by (rule packed)
  then have "length p = 30" by (simp add: rlp_packed_def)
  then obtain rc g where g: "gsmtap_send_rlp G False p 30 (v110_gsmtap v) = Inr (rc, g)"
    "gsmtap_next G (rlp_hdr G False, p) (v110_gsmtap v) g"
    using assms(4) by (rule rlp_sent)
  have len: "length (bits_at rlp (60 * k) 60) = 60" if "k < 4" for k
    using that assms(1) by (simp add: bits_at_def)
  have "v110_frames B G dfr (rlp_frames e1 rlp @ fs) v =
      v110_frames B G dfr fs (v\<lparr>rlp_frame_bits := rlp, rlp_frame := p, v110_gsmtap := g\<rparr>)"
    using len [of 0] len [of 1] len [of 2] len [of 3] store_quarters [OF assms(3,1)] g(1)
    by (simp add: rlp_frames_def upt_rec frame_step Let_def bits_at_def flip: p_def)
  with pk g(2) assms(1) show ?thesis
    by (intro that [of "v\<lparr>rlp_frame_bits := rlp, rlp_frame := p, v110_gsmtap := g\<rparr>" p]) simp_all
qed

lemma rlp_frames_all:
  assumes "\<forall>rlp \<in> set rlps. length rlp = 240 \<and> set rlp \<subseteq> {0, 1}" and "length (rlp_frame_bits v) = 240"
    and "g_gti (v110_gsmtap v)" and "gsmtap_ok G (v110_gsmtap v)"
  shows "\<exists>ps w. v110_frames B G dfr (concat (map (rlp_frames e1) rlps)) v = Inr w \<and>
    list_all2 rlp_packed rlps ps \<and> gsmtap_ok G (v110_gsmtap w) \<and>
    gsmtap_log (v110_gsmtap w) = gsmtap_log (v110_gsmtap v) @ map (Pair (rlp_hdr G False)) ps"
  using assms
proof (induction rlps arbitrary: v)
  case (Cons rlp rlps)
  obtain p w where w: "v110_frames B G dfr (rlp_frames e1 rlp @ concat (map (rlp_frames e1) rlps)) v =
      v110_frames B G dfr (concat (map (rlp_frames e1) rlps)) w"
    "rlp_packed rlp p" "gsmtap_next G (rlp_hdr G False, p) (v110_gsmtap v) (v110_gsmtap w)"
    "length (rlp_frame_bits w) = 240"
    by (rule rlp_frames_run [of rlp v dfr e1 "concat (map (rlp_frames e1) rlps)"]) (use Cons.prems in auto)
  then have "g_gti (v110_gsmtap w)" "gsmtap_ok G (v110_gsmtap w)"
    using Cons.prems(3,4) by (simp_all add: gsmtap_next_def)
  from Cons.IH [OF _ w(4) this] Cons.prems(1) obtain ps u where
    "v110_frames B G dfr (concat (map (rlp_frames e1) rlps)) w = Inr u" "list_all2 rlp_packed rlps ps"
    "gsmtap_log (v110_gsmtap u) = gsmtap_log (v110_gsmtap w) @ map (Pair (rlp_hdr G False)) ps"
    "gsmtap_ok G (v110_gsmtap u)"
    by auto
  with w show ?case
    by (intro exI [of _ "p # ps"] exI [of _ u]) (simp add: gsmtap_next_def)
qed simp

end

section \<open>Bit conversions to run the theorems on\<close>

definition lab_bits :: bits_api where
  "lab_bits = \<lparr>
     osmo_ubit2pbit = (\<lambda>bs. map (\<lambda>j. horner_sum of_bool 2
        (map (\<lambda>i. 8 * j + (7 - i) < length bs \<and> bs ! (8 * j + (7 - i)) = 1) [0..<8])) [0..<(length bs + 7) div 8]),
     osmo_revbytebits_8 = (\<lambda>b. horner_sum of_bool 2 (map (\<lambda>i. bit b (7 - i)) [0..<8]))\<rparr>"

interpretation lb: bits_lib lab_bits
proof
  show "length (osmo_ubit2pbit lab_bits bs) = (length bs + 7) div 8" for bs
    by (simp add: lab_bits_def)
  show "bit (osmo_revbytebits_8 lab_bits b) i = bit b (7 - i)" if "i < 8" for i b
    using that by (simp add: lab_bits_def bit_horner_sum_bit_word_iff)
  show "bit (osmo_ubit2pbit lab_bits bs ! (i div 8)) (7 - i mod 8) = (bs ! i = 1)"
    if "set bs \<subseteq> {0, 1}" "i < length bs" for bs i
  proof -
    have "i div 8 < (length bs + 7) div 8" "8 * (i div 8) + i mod 8 = i"
      using that(2) by auto
    moreover have "7 - i mod 8 < 8" by (rule less_imp_diff_less) simp
    ultimately show ?thesis
      using that(2) by (simp add: lab_bits_def bit_horner_sum_bit_word_iff)
  qed
qed

interpretation lrlp: rlp_capture lab_bits lab_gsmtap
  by unfold_locales

section \<open>Frames over the borders of the buffers\<close>

lemma frames_append:
  "v110_frames B G dfr (xs @ ys) v = (case v110_frames B G dfr xs v of Inl e \<Rightarrow> Inl e | Inr w \<Rightarrow> v110_frames B G dfr ys w)"
  by (induction xs arbitrary: v) (simp_all split: sum.splits)

lemma frame_ts:
  "frame_bits_cb B G dfr bits (v\<lparr>g_i460_ts := ts\<rparr>) = map_sum id (\<lambda>w. w\<lparr>g_i460_ts := ts\<rparr>) (frame_bits_cb B G dfr bits v)"
  by (simp add: frame_bits_cb_def Let_def split: prod.splits sum.splits)

lemma frames_ts:
  "v110_frames B G dfr fs (v\<lparr>g_i460_ts := ts\<rparr>) = map_sum id (\<lambda>w. w\<lparr>g_i460_ts := ts\<rparr>) (v110_frames B G dfr fs v)"
  by (induction fs arbitrary: v) (simp_all add: frame_ts split: sum.splits)

text \<open>Over the buffers the handler does what it would do with all the frames at once.\<close>

lemma loop_frames:
  assumes "list_all (\<lambda>(out_buf, in_buf). length out_buf = length in_buf) ios"
    and "v110_frames B G dfr (demux_all demux (g_i460_ts v) (map snd ios)) v = Inr w"
  shows "\<exists>ts. v110_main_loop B G demux dfr ios v = Inr (map snd ios, w\<lparr>g_i460_ts := ts\<rparr>)"
  using assms
proof (induction ios arbitrary: v w)
  case Nil
  then show ?case by (auto intro: exI [of _ "g_i460_ts w"])
next
  case (Cons io ios)
  obtain out_buf in_buf where io: "io = (out_buf, in_buf)" by (cases io)
  obtain ts fs where d: "demux (g_i460_ts v) in_buf = (ts, fs)" by (cases "demux (g_i460_ts v) in_buf")
  from Cons.prems(2) obtain u where u: "v110_frames B G dfr fs v = Inr u"
    and w: "v110_frames B G dfr (demux_all demux ts (map snd ios)) u = Inr w"
    by (auto simp: io d frames_append split: sum.splits)
  have h: "v110_handle_sample_buffer B G demux dfr out_buf in_buf v = Inr (in_buf, u\<lparr>g_i460_ts := ts\<rparr>)"
    using Cons.prems(1) by (simp add: io v110_handle_sample_buffer_def d frames_ts u)
  have "v110_frames B G dfr (demux_all demux (g_i460_ts (u\<lparr>g_i460_ts := ts\<rparr>)) (map snd ios)) (u\<lparr>g_i460_ts := ts\<rparr>) =
      Inr (w\<lparr>g_i460_ts := ts\<rparr>)"
    using w by (simp add: frames_ts)
  from Cons.IH [OF _ this] Cons.prems(1) h show ?case
    by (auto simp: io)
qed

section \<open>Property\<close>

text \<open>
  C30: RLP frames are reassembled. When the frame synchronisation finds the modified V.110
  frames of any number of RLP frames in the samples of a call, however they are spread over
  the buffers, and the capture's socket is open, each RLP frame is handed to the capture once and in order
  as thirty bytes, the first bit of the frame the lowest bit of the first byte, whatever the
  bits E1 are; the socket gets the packets whose write does not fail; the samples are looped
  back.
\<close>

theorem v110_rlp_reassembled:
  assumes "bits_lib B" and "gsmtap_lib G" and "\<forall>rlp \<in> set rlps. length rlp = 240 \<and> set rlp \<subseteq> {0, 1}"
    and "list_all (\<lambda>(out_buf, in_buf). length out_buf = length in_buf) ios"
    and "sync_all Y fi (blocks_all D ts (map snd ios)) = concat (map (rlp_frames e1) rlps)"
  shows "\<exists>ps w. v110_main_loop B G (v110_demux D Y) dfr ios (v110_main_init True (ts, fi)) = Inr (map snd ios, w) \<and>
    list_all2 rlp_packed rlps ps \<and> gsmtap_log (v110_gsmtap w) = map (Pair (rlp_hdr G False)) ps \<and>
    gsmtap_out (v110_gsmtap w) = packets G 0 (map (Pair (rlp_hdr G False)) ps)"
proof -
  let ?v = "v110_main_init True (ts, fi)"
  have loc: "rlp_capture B G" using assms(1,2) by (rule rlp_capture.intro)
  obtain ps w where w: "v110_frames B G dfr (concat (map (rlp_frames e1) rlps)) ?v = Inr w"
    "list_all2 rlp_packed rlps ps" "gsmtap_log (v110_gsmtap w) = map (Pair (rlp_hdr G False)) ps"
    "gsmtap_ok G (v110_gsmtap w)"
    using rlp_capture.rlp_frames_all [OF loc assms(3), of ?v dfr e1]
    by (auto simp: v110_main_init_def)
  have "v110_frames B G dfr (demux_all (v110_demux D Y) (g_i460_ts ?v) (map snd ios)) ?v = Inr w"
    using w(1) assms(5) by (simp add: v110_main_init_def demux_all_sync)
  from loop_frames [OF assms(4) this] w(2-4) show ?thesis by (auto simp: gsmtap_ok_def)
qed

theorem v110_rlp_reassembled_witness:
  "\<exists>p w. v110_main_loop lab_bits lab_gsmtap (v110_demux (\<lambda>ts in_buf. (ts, [in_buf]))
      (\<lambda>fi bits. (Suc fi, take 2 (drop (2 * fi) (rlp_frames (\<lambda>k. 1) (replicate 9 1 @ replicate 231 0))))))
      \<lparr>d_bits = [], e_bits = []\<rparr> [([0], [7]), ([0], [8])] (v110_main_init True ((), 0)) = Inr ([[7], [8]], w) \<and>
     gsmtap_out (v110_gsmtap w) = [hdr_bytes lab_gsmtap (rlp_hdr lab_gsmtap False) @ p] \<and> rlp_packed (replicate 9 1 @ replicate 231 0) p"
proof -
  let ?rlp = "replicate 9 1 @ replicate 231 0 :: byte list"
  let ?Y = "\<lambda>fi bits. (Suc fi, take 2 (drop (2 * fi) (rlp_frames (\<lambda>k. 1) ?rlp)))"
  let ?D = "\<lambda>ts :: unit. \<lambda>in_buf. (ts, [in_buf])"
  have r: "\<forall>rlp \<in> set [?rlp]. length rlp = 240 \<and> set rlp \<subseteq> {0, 1}" by auto
  have d: "sync_all ?Y 0 (blocks_all ?D () (map snd [([0 :: byte], [7 :: byte]), ([0], [8])])) =
      concat (map (rlp_frames (\<lambda>k. 1)) [?rlp])"
    by (simp add: rlp_frames_def upt_rec)
  have l: "list_all (\<lambda>(out_buf, in_buf). length out_buf = length in_buf) [([0 :: byte], [7 :: byte]), ([0], [8])]"
    by simp
  from v110_rlp_reassembled [OF lb.bits_lib_axioms lg.gsmtap_lib_axioms r l d, of "\<lparr>d_bits = [], e_bits = []\<rparr>"]
  have "\<exists>ps w. v110_main_loop lab_bits lab_gsmtap (v110_demux ?D ?Y) \<lparr>d_bits = [], e_bits = []\<rparr>
      [([0], [7]), ([0], [8])] (v110_main_init True ((), 0)) = Inr ([[7], [8]], w) \<and>
      list_all2 rlp_packed [?rlp] ps \<and>
      gsmtap_out (v110_gsmtap w) = packets lab_gsmtap 0 (map (Pair (rlp_hdr lab_gsmtap False)) ps)"
    by auto
  moreover have "gsmtap_malloc lab_gsmtap n \<and> 0 \<le> gsmtap_write lab_gsmtap n" for n by (simp add: lab_gsmtap_def)
  ultimately show ?thesis
    by (fastforce simp: list_all2_Cons1 packets_all)
qed

end
