(* ===== verification/Fax_Decode.thy ===== *)
theory Fax_Decode
  imports Ras_Prelude
begin

text \<open>
  The fax decoder, \<open>src/fax_decode.c\<close>: bits of a fax modem go to an HDLC receiver or to a T.4
  decoder; frames of the receiver carry the parameters of the session (DCS) and, with error
  correction, numbered pieces of the page (FCD), which are stored and given to the T.4
  decoder when the page ends.

  The HDLC receiver and the T.4 decoder are those of spandsp and enter as a record of
  operations over states \<open>'h\<close> and \<open>'t\<close>, together with the library's numbers of frame types and
  modem signals. Output for the user is not modelled.
\<close>

section \<open>The library\<close>

datatype t4_encoding = T4_COMPRESSION_ITU_T4_1D | T4_COMPRESSION_ITU_T4_2D | T4_COMPRESSION_ITU_T6
datatype t4_x_res = T4_X_RESOLUTION_R8
datatype t4_y_res = T4_Y_RESOLUTION_STANDARD | T4_Y_RESOLUTION_FINE | T4_Y_RESOLUTION_SUPERFINE
datatype t30_modem = T30_MODEM_V17 | T30_MODEM_V29 | T30_MODEM_V27TER

text \<open>
  \<open>hdlc_rx_put_bit\<close> gives the new state and the calls of \<open>hdlc_accept\<close> it makes, each with the
  receiver's buffer, the length of the frame or a negative status, and whether the frame is
  good. \<open>t4_rx_put_bit\<close> also tells whether the page has ended.
\<close>

record ('h, 't) span_api =
  hdlc_rx_init :: 'h
  hdlc_rx_put_bit :: "'h \<Rightarrow> int \<Rightarrow> 'h \<times> (byte list \<times> int \<times> bool) list"
  t4_rx_init :: "'t option"
  t4_rx_set_rx_encoding :: "'t \<Rightarrow> t4_encoding \<Rightarrow> 't"
  t4_rx_set_x_resolution :: "'t \<Rightarrow> t4_x_res \<Rightarrow> 't"
  t4_rx_set_y_resolution :: "'t \<Rightarrow> t4_y_res \<Rightarrow> 't"
  t4_rx_set_image_width :: "'t \<Rightarrow> int \<Rightarrow> 't"
  t4_rx_start_page :: "'t \<Rightarrow> 't"
  t4_rx_put_bit :: "'t \<Rightarrow> int \<Rightarrow> bool \<times> 't"
  t4_rx_end_page :: "'t \<Rightarrow> 't"
  T4_FCD :: byte
  T30_DCS :: byte
  T30_MAX_DIS_DTC_DCS_LEN :: nat
  SIG_STATUS_TRAINING_SUCCEEDED :: int
  SIG_STATUS_CARRIER_DOWN :: int

text \<open>
  What is relied on: a frame is not longer than the receiver's buffer, which holds more
  than the four bytes of a header, and the parameter frame has its nine octets.
\<close>

locale span_lib =
  fixes S :: "('h, 't) span_api"
  assumes accept_buffer:
      "hdlc_rx_put_bit S h b = (h', cs) \<Longrightarrow> (msg, len, ok) \<in> set cs \<Longrightarrow> 4 \<le> length msg \<and> len \<le> int (length msg)"
    and frame_types: "T4_FCD S \<noteq> T30_DCS S" "T4_FCD S AND 0xFE = T4_FCD S" "T30_DCS S AND 0xFE = T30_DCS S"
    and dcs_length: "8 < T30_MAX_DIS_DTC_DCS_LEN S"

section \<open>State\<close>

datatype fax_modem = FAX_NONE | FAX_V27TER_RX | FAX_V29_RX | FAX_V17_RX

record fallback =
  bit_rate :: int
  modem_type :: "t30_modem option"
  dcs_code :: byte

record ('h, 't) fax =
  t4_state :: 't
  t4_up :: bool
  hdlcrx :: 'h
  fast_trained :: fax_modem
  ecm_data :: "byte list list"
  ecm_len :: "int list"
  line_encoding :: t4_encoding
  x_resolution :: t4_x_res
  y_resolution :: t4_y_res
  image_width :: int
  octets_per_ecm_frame :: nat
  error_correcting_mode :: bool
  current_fallback :: int

abbreviation (input) DISBIT1 :: byte where "DISBIT1 \<equiv> 0x01"
abbreviation (input) DISBIT2 :: byte where "DISBIT2 \<equiv> 0x02"
abbreviation (input) DISBIT3 :: byte where "DISBIT3 \<equiv> 0x04"
abbreviation (input) DISBIT4 :: byte where "DISBIT4 \<equiv> 0x08"
abbreviation (input) DISBIT5 :: byte where "DISBIT5 \<equiv> 0x10"
abbreviation (input) DISBIT6 :: byte where "DISBIT6 \<equiv> 0x20"
abbreviation (input) DISBIT7 :: byte where "DISBIT7 \<equiv> 0x40"
abbreviation (input) DISBIT8 :: byte where "DISBIT8 \<equiv> 0x80"

section \<open>Parameters of the session\<close>

definition fallback_sequence :: "fallback list" where
  "fallback_sequence =
     [\<lparr>bit_rate = 14400, modem_type = Some T30_MODEM_V17, dcs_code = DISBIT6\<rparr>,
      \<lparr>bit_rate = 12000, modem_type = Some T30_MODEM_V17, dcs_code = DISBIT6 OR DISBIT4\<rparr>,
      \<lparr>bit_rate = 9600, modem_type = Some T30_MODEM_V17, dcs_code = DISBIT6 OR DISBIT3\<rparr>,
      \<lparr>bit_rate = 9600, modem_type = Some T30_MODEM_V29, dcs_code = DISBIT3\<rparr>,
      \<lparr>bit_rate = 7200, modem_type = Some T30_MODEM_V17, dcs_code = (DISBIT6 OR DISBIT4) OR DISBIT3\<rparr>,
      \<lparr>bit_rate = 7200, modem_type = Some T30_MODEM_V29, dcs_code = DISBIT4 OR DISBIT3\<rparr>,
      \<lparr>bit_rate = 4800, modem_type = Some T30_MODEM_V27TER, dcs_code = DISBIT4\<rparr>,
      \<lparr>bit_rate = 2400, modem_type = Some T30_MODEM_V27TER, dcs_code = 0\<rparr>,
      \<lparr>bit_rate = 0, modem_type = None, dcs_code = 0\<rparr>]"

text \<open>The loop of \<open>find_fallback_entry\<close>, over the rest of the table from index \<open>i\<close> on.\<close>

fun find_fallback_loop :: "byte \<Rightarrow> int \<Rightarrow> fallback list \<Rightarrow> int" where
  "find_fallback_loop code i [] = -1"
| "find_fallback_loop code i (f # fs) =
     (if bit_rate f = 0 then -1
      else if dcs_code f = code then i
      else find_fallback_loop code (i + 1) fs)"

definition find_fallback_entry :: "byte \<Rightarrow> int" where
  "find_fallback_entry code = find_fallback_loop code 0 fallback_sequence"

definition widths :: "int list list" where
  "widths = [[864, 1024, 1216, -1], [1728, 2048, 2432, -1], [3456, 4096, 4864, -1]]"

definition check_rx_dcs :: "('h, 't) span_api \<Rightarrow> byte list \<Rightarrow> nat \<Rightarrow> ('h, 't) fax \<Rightarrow> int \<times> ('h, 't) fax" where
  "check_rx_dcs S msg len f =
     (if len < 6 then (-1, f)
      else
        let n = T30_MAX_DIS_DTC_DCS_LEN S;
            dcs_frame = (if n < len then take n msg else take len msg @ replicate (n - len) 0);
            f = f\<lparr>octets_per_ecm_frame := if dcs_frame ! 6 AND DISBIT4 \<noteq> 0 then 256 else 64\<rparr>;
            f = f\<lparr>y_resolution := if dcs_frame ! 8 AND DISBIT1 \<noteq> 0 then T4_Y_RESOLUTION_SUPERFINE
                    else if dcs_frame ! 4 AND DISBIT7 \<noteq> 0 then T4_Y_RESOLUTION_FINE
                    else T4_Y_RESOLUTION_STANDARD\<rparr>;
            f = f\<lparr>image_width := widths ! (if dcs_frame ! 8 AND DISBIT3 \<noteq> 0 then 2 else 1)
                    ! unat (dcs_frame ! 5 AND (DISBIT2 OR DISBIT1))\<rparr>;
            f = f\<lparr>line_encoding := if dcs_frame ! 6 AND DISBIT7 \<noteq> 0 then T4_COMPRESSION_ITU_T6
                    else if dcs_frame ! 4 AND DISBIT8 \<noteq> 0 then T4_COMPRESSION_ITU_T4_2D
                    else T4_COMPRESSION_ITU_T4_1D\<rparr>;
            f = f\<lparr>current_fallback :=
                    find_fallback_entry (dcs_frame ! 4 AND (((DISBIT6 OR DISBIT5) OR DISBIT4) OR DISBIT3))\<rparr>;
            f = f\<lparr>error_correcting_mode := dcs_frame ! 6 AND DISBIT3 \<noteq> 0\<rparr>
        in (0, f))"

section \<open>Frames\<close>

text \<open>The copy of the image data of \<open>len - 4\<close> bytes: a negative length overruns the array.\<close>

definition hdlc_accept ::
    "('h, 't) span_api \<Rightarrow> byte list \<times> int \<times> bool \<Rightarrow> ('h, 't) fax \<Rightarrow> fault + ('h, 't) fax" where
  "hdlc_accept S = (\<lambda>(msg, len, ok) f.
     if len < 0 then Inr f
     else if ok then
       if msg ! 0 \<noteq> 0xFF \<or> \<not> (msg ! 1 = 0x03 \<or> msg ! 1 = 0x13) then Inr f
       else
         let type = msg ! 2 AND 0xFE in
         if type = T4_FCD S then
           if len \<le> 4 + 256 then
             let frame_no = unat (msg ! 3) in
             if len < 4 then Inl ArrayOverrun
             else
               Inr (f\<lparr>ecm_data := (ecm_data f)[frame_no := store (ecm_data f ! frame_no) 0 (take (nat (len - 4)) (drop 4 msg))],
                      ecm_len := (ecm_len f)[frame_no := len - 4]\<rparr>)
           else Inr f
         else if type = T30_DCS S then Inr (snd (check_rx_dcs S msg (nat len) f))
         else Inr f
     else Inr f)"

primrec hdlc_accepts ::
    "('h, 't) span_api \<Rightarrow> (byte list \<times> int \<times> bool) list \<Rightarrow> ('h, 't) fax \<Rightarrow> fault + ('h, 't) fax" where
  "hdlc_accepts S [] f = Inr f"
| "hdlc_accepts S (c # cs) f = (case hdlc_accept S c f of Inl e \<Rightarrow> Inl e | Inr f \<Rightarrow> hdlc_accepts S cs f)"

text \<open>A bit for the HDLC receiver, with the frames it completes.\<close>

definition fax_hdlc_bit :: "('h, 't) span_api \<Rightarrow> int \<Rightarrow> ('h, 't) fax \<Rightarrow> fault + ('h, 't) fax" where
  "fax_hdlc_bit S b f =
     (let (h, cs) = hdlc_rx_put_bit S (hdlcrx f) b in hdlc_accepts S cs (f\<lparr>hdlcrx := h\<rparr>))"

section \<open>Pages\<close>

definition t4_begin :: "('h, 't) span_api \<Rightarrow> ('h, 't) fax \<Rightarrow> ('h, 't) fax" where
  "t4_begin S f =
     (let t = t4_rx_set_rx_encoding S (t4_state f) (line_encoding f);
          t = t4_rx_set_x_resolution S t (x_resolution f);
          t = t4_rx_set_y_resolution S t (y_resolution f);
          t = t4_rx_set_image_width S t (image_width f);
          t = t4_rx_start_page S t
      in f\<lparr>t4_state := t, t4_up := True, ecm_len := replicate 256 (-1)\<rparr>)"

definition t4_put :: "('h, 't) span_api \<Rightarrow> 't \<Rightarrow> int \<Rightarrow> 't" where
  "t4_put S t b = snd (t4_rx_put_bit S t b)"

definition t4_end :: "('h, 't) span_api \<Rightarrow> ('h, 't) fax \<Rightarrow> ('h, 't) fax" where
  "t4_end S f =
     (if \<not> t4_up f then f
      else
        let t = (if error_correcting_mode f then
                   foldl (\<lambda>t i. foldl (\<lambda>t j. foldl (\<lambda>t k. t4_put S t (uint (drop_bit k (ecm_data f ! i ! j) AND 1)))
                       t [0..<8]) t [0..<nat (ecm_len f ! i)]) (t4_state f) [0..<256]
                 else t4_state f)
        in f\<lparr>t4_state := t4_rx_end_page S t, t4_up := False\<rparr>)"

section \<open>Bits\<close>

definition span_fax_bits :: "('h, 't) span_api \<Rightarrow> byte \<Rightarrow> ('h, 't) fax \<Rightarrow> fault + ('h, 't) fax" where
  "span_fax_bits S b f =
     (if error_correcting_mode f then fax_hdlc_bit S (uint b) f
      else
        let (ended, t) = t4_rx_put_bit S (t4_state f) (uint b);
            f = f\<lparr>t4_state := t\<rparr>
        in Inr (if ended then t4_end S f else f))"

definition v21_put_bit :: "('h, 't) span_api \<Rightarrow> int \<Rightarrow> ('h, 't) fax \<Rightarrow> fault + ('h, 't) fax" where
  "v21_put_bit S b f =
     (if b < 0 then Inr f
      else if fast_trained f = FAX_NONE then fax_hdlc_bit S b f
      else Inr f)"

text \<open>The three routines for fast modems differ in the modem they note.\<close>

definition fast_put_bit ::
    "('h, 't) span_api \<Rightarrow> fax_modem \<Rightarrow> int \<Rightarrow> ('h, 't) fax \<Rightarrow> fault + ('h, 't) fax" where
  "fast_put_bit S modem b f =
     (if b < 0 then
        (if b = SIG_STATUS_TRAINING_SUCCEEDED S then Inr (t4_begin S (f\<lparr>fast_trained := modem\<rparr>))
         else if b = SIG_STATUS_CARRIER_DOWN S then
           let f = t4_end S f in
           Inr (if fast_trained f = modem then f\<lparr>fast_trained := FAX_NONE\<rparr> else f)
         else Inr f)
      else if error_correcting_mode f then fax_hdlc_bit S b f
      else
        let (ended, t) = t4_rx_put_bit S (t4_state f) b;
            f = f\<lparr>t4_state := t\<rparr>
        in Inr (if ended then t4_end S f else f))"

definition v17_put_bit :: "('h, 't) span_api \<Rightarrow> int \<Rightarrow> ('h, 't) fax \<Rightarrow> fault + ('h, 't) fax" where
  "v17_put_bit S b f = fast_put_bit S FAX_V17_RX b f"

definition v29_put_bit :: "('h, 't) span_api \<Rightarrow> int \<Rightarrow> ('h, 't) fax \<Rightarrow> fault + ('h, 't) fax" where
  "v29_put_bit S b f = fast_put_bit S FAX_V29_RX b f"

definition v27ter_put_bit :: "('h, 't) span_api \<Rightarrow> int \<Rightarrow> ('h, 't) fax \<Rightarrow> fault + ('h, 't) fax" where
  "v27ter_put_bit S b f = fast_put_bit S FAX_V27TER_RX b f"

section \<open>Start\<close>

definition span_fax_init :: "('h, 't) span_api \<Rightarrow> ('h, 't) fax \<Rightarrow> fault + int \<times> ('h, 't) fax" where
  "span_fax_init S f =
     (let f = f\<lparr>hdlcrx := hdlc_rx_init S\<rparr> in
      case t4_rx_init S of
        None \<Rightarrow> Inl ExitFailure
      | Some t \<Rightarrow> Inr (0, f\<lparr>t4_state := t\<rparr>))"

definition span_in_sync :: "('h, 't) span_api \<Rightarrow> ('h, 't) fax \<Rightarrow> ('h, 't) fax" where
  "span_in_sync S f = t4_begin S (f\<lparr>fast_trained := FAX_V27TER_RX\<rparr>)"

end
