(* ===== verification/Fax_Pages.thy ===== *)
theory Fax_Pages
  imports Fax_Decode
begin

text \<open>
  The properties of the fax decoder: its state stays well-formed whatever the modem and the
  library deliver, and a page sent with error correction reaches the T.4 decoder complete
  and in order.
\<close>

section \<open>Well-formed states\<close>

definition fax_wf :: "('h, 't) fax \<Rightarrow> bool" where
  "fax_wf f \<longleftrightarrow> length (ecm_data f) = 256 \<and> (\<forall>d \<in> set (ecm_data f). length d = 260) \<and>
     length (ecm_len f) = 256 \<and> (\<forall>n \<in> set (ecm_len f). -1 \<le> n \<and> n \<le> 256) \<and>
     octets_per_ecm_frame f \<in> {64, 256} \<and>
     image_width f \<in> {1728, 2048, 2432, 3456, 4096, 4864, -1} \<and>
     -1 \<le> current_fallback f \<and> current_fallback f < 8"

lemma fax_wf_upd [simp]:
  "fax_wf (f\<lparr>t4_state := t\<rparr>) = fax_wf f" "fax_wf (f\<lparr>t4_up := u\<rparr>) = fax_wf f"
  "fax_wf (f\<lparr>hdlcrx := h\<rparr>) = fax_wf f" "fax_wf (f\<lparr>fast_trained := m\<rparr>) = fax_wf f"
  by (simp_all add: fax_wf_def)

lemma find_fallback_range: "-1 \<le> find_fallback_entry code \<and> find_fallback_entry code < 8"
  by (simp add: find_fallback_entry_def fallback_sequence_def)

lemma width_range:
  assumes "row \<in> {1, 2}"
  shows "widths ! row ! unat (b AND 3 :: byte) \<in> {1728, 2048, 2432, 3456, 4096, 4864, -1}"
proof -
  have "unat (b AND 3) \<le> unat (3 :: byte)"
    by (rule word_le_nat_alt [THEN iffD1, OF word_and_le1])
  then have "unat (b AND 3) = 0 \<or> unat (b AND 3) = 1 \<or> unat (b AND 3) = 2 \<or> unat (b AND 3) = 3"
    by auto
  with assms show ?thesis by (auto simp: widths_def)
qed

lemma check_rx_dcs_wf: "fax_wf f \<Longrightarrow> fax_wf (snd (check_rx_dcs S msg len f))"
  using find_fallback_range width_range
  by (simp add: check_rx_dcs_def Let_def fax_wf_def)

lemma t4_begin_wf: "fax_wf f \<Longrightarrow> fax_wf (t4_begin S f)"
  by (simp add: t4_begin_def Let_def fax_wf_def)

lemma t4_end_wf: "fax_wf f \<Longrightarrow> fax_wf (t4_end S f)"
  by (simp add: t4_end_def Let_def)

lemma hdlc_accept_wf:
  assumes "fax_wf f" and "len \<le> int (length msg)"
  shows "ends {ArrayOverrun} fax_wf (hdlc_accept S (msg, len, ok) f)"
proof -
  have "fax_wf (f\<lparr>ecm_data := (ecm_data f)[n := store (ecm_data f ! n) 0 (take (nat (len - 4)) (drop 4 msg))],
      ecm_len := (ecm_len f)[n := len - 4]\<rparr>)" if "4 \<le> len" "len \<le> 260" "n < 256" for n
  proof -
    have "length (ecm_data f ! n) = 260"
      using assms(1) that(3) by (simp add: fax_wf_def)
    then have "length (store (ecm_data f ! n) 0 (take (nat (len - 4)) (drop 4 msg))) = 260"
      using that by (subst length_store) auto
    with assms(1) that show ?thesis
      by (auto simp: fax_wf_def dest!: set_update_subset_insert [THEN subsetD])
  qed
  moreover have "unat (msg ! 3) < 256"
    by (rule order_less_le_trans [OF unsigned_less]) simp
  ultimately show ?thesis
    using assms(1) check_rx_dcs_wf by (auto simp: hdlc_accept_def Let_def)
qed

lemma hdlc_accepts_wf:
  "fax_wf f \<Longrightarrow> \<forall>(msg, len, ok) \<in> set cs. len \<le> int (length msg) \<Longrightarrow> ends {ArrayOverrun} fax_wf (hdlc_accepts S cs f)"
proof (induction cs arbitrary: f)
  case (Cons c cs)
  obtain msg len ok where c: "c = (msg, len, ok)" by (cases c)
  have "ends {ArrayOverrun} fax_wf (hdlc_accept S c f)"
    using Cons.prems c hdlc_accept_wf by auto
  with Cons.IH Cons.prems show ?case
    by (cases "hdlc_accept S c f") auto
qed simp

context span_lib
begin

lemma hdlc_bit_wf: "fax_wf f \<Longrightarrow> ends {ArrayOverrun} fax_wf (fax_hdlc_bit S b f)"
  using accept_buffer [of "hdlcrx f" b]
  by (cases "hdlc_rx_put_bit S (hdlcrx f) b") (auto simp: fax_hdlc_bit_def intro!: hdlc_accepts_wf)

lemma page_bit_wf:
  assumes "fax_wf f"
  shows "ends {ArrayOverrun} fax_wf (span_fax_bits S b f)" "ends {ArrayOverrun} fax_wf (v21_put_bit S i f)"
    "ends {ArrayOverrun} fax_wf (fast_put_bit S modem i f)"
  using assms
  by (auto simp: span_fax_bits_def v21_put_bit_def fast_put_bit_def Let_def
      intro!: hdlc_bit_wf t4_begin_wf t4_end_wf split: prod.split)

end

section \<open>Pages with error correction\<close>

text \<open>A good frame with piece \<open>n\<close> of the page, and the bits of a byte, lowest first.\<close>

definition fcd :: "('h, 't) span_api \<Rightarrow> nat \<times> byte list \<Rightarrow> byte list \<times> int \<times> bool" where
  "fcd S = (\<lambda>(n, p). ([0xFF, 0x03, T4_FCD S, of_nat n] @ p, 4 + int (length p), True))"

definition byte_bits :: "byte \<Rightarrow> int list" where
  "byte_bits b = map (\<lambda>k. of_bool (bit b k)) [0..<8]"

text \<open>The bits of a page, of which \<open>m\<close> gives the pieces received, by number.\<close>

definition page_bits :: "(nat \<rightharpoonup> byte list) \<Rightarrow> int list" where
  "page_bits m = concat (map (\<lambda>n. case m n of None \<Rightarrow> [] | Some p \<Rightarrow> concat (map byte_bits p)) [0..<256])"

definition holds_pieces :: "(nat \<rightharpoonup> byte list) \<Rightarrow> ('h, 't) fax \<Rightarrow> bool" where
  "holds_pieces m f \<longleftrightarrow>
     (\<forall>n < 256. case m n of
        None \<Rightarrow> ecm_len f ! n = -1
      | Some p \<Rightarrow> ecm_len f ! n = int (length p) \<and> length p \<le> 256 \<and> take (length p) (ecm_data f ! n) = p)"

lemma foldl_foldl: "foldl (\<lambda>t x. foldl f t (g x)) t xs = foldl f t (concat (map g xs))"
  by (induction xs arbitrary: t) simp_all

lemma bit_uint_byte: "uint (drop_bit k b AND 1 :: byte) = of_bool (bit b k)"
  by (simp add: and_one_eq mod_2_eq_odd bit_iff_odd_drop_bit)

lemma map_nth_take: "n \<le> length d \<Longrightarrow> map (\<lambda>j. f (d ! j)) [0..<n] = map f (take n d)"
  by (rule nth_equalityI) simp_all

lemma fcd_step:
  assumes "span_lib S" and "fax_wf f" and "holds_pieces m f" and "n < 256" and "length p \<le> 256"
  obtains g where "hdlc_accept S (fcd S (n, p)) f = Inr g" and "fax_wf g" and "holds_pieces (m(n \<mapsto> p)) g"
    and "t4_state g = t4_state f" and "t4_up g = t4_up f" and "error_correcting_mode g = error_correcting_mode f"
proof -
  let ?g = "f\<lparr>ecm_data := (ecm_data f)[n := store (ecm_data f ! n) 0 p], ecm_len := (ecm_len f)[n := int (length p)]\<rparr>"
  have wf: "length (ecm_data f) = 256" "length (ecm_len f) = 256" "length (ecm_data f ! n) = 260"
    using assms(2,4) by (simp_all add: fax_wf_def)
  have n: "unat (of_nat n :: byte) = n"
    using assms(4) by (simp add: unat_of_nat)
  have acc: "hdlc_accept S (fcd S (n, p)) f = Inr ?g"
    using assms(5) span_lib.frame_types [OF assms(1)] n by (simp add: hdlc_accept_def fcd_def Let_def)
  have "ends {ArrayOverrun} fax_wf (hdlc_accept S (fcd S (n, p)) f)"
    unfolding fcd_def using assms(2) by (simp add: hdlc_accept_wf)
  then have "fax_wf ?g" by (simp add: acc)
  moreover have "holds_pieces (m(n \<mapsto> p)) ?g"
    unfolding holds_pieces_def
  proof (intro allI impI)
    fix k :: nat assume "k < 256"
    with assms(3) have "case m k of None \<Rightarrow> ecm_len f ! k = -1
      | Some p \<Rightarrow> ecm_len f ! k = int (length p) \<and> length p \<le> 256 \<and> take (length p) (ecm_data f ! k) = p"
      by (simp add: holds_pieces_def)
    then show "case (m(n \<mapsto> p)) k of None \<Rightarrow> ecm_len ?g ! k = -1
      | Some p \<Rightarrow> ecm_len ?g ! k = int (length p) \<and> length p \<le> 256 \<and> take (length p) (ecm_data ?g ! k) = p"
      using assms(4,5) wf by (cases "k = n"; cases "m k") (simp_all add: store_def)
  qed
  ultimately show ?thesis using acc by (intro that [of ?g]) simp_all
qed

lemma fcd_steps:
  assumes "span_lib S" and "fax_wf f" and "holds_pieces m f" and "\<forall>(n, p) \<in> set fs. n < 256 \<and> length p \<le> 256"
  shows "\<exists>g. hdlc_accepts S (map (fcd S) fs) f = Inr g \<and> fax_wf g \<and> holds_pieces (m ++ map_of (rev fs)) g \<and>
    t4_state g = t4_state f \<and> t4_up g = t4_up f \<and> error_correcting_mode g = error_correcting_mode f"
  using assms(2-4)
proof (induction fs arbitrary: f m)
  case (Cons x fs)
  obtain n p where x: "x = (n, p)" by (cases x)
  then have np: "n < 256" "length p \<le> 256" using Cons.prems by auto
  obtain g where g: "hdlc_accept S (fcd S (n, p)) f = Inr g" "fax_wf g" "holds_pieces (m(n \<mapsto> p)) g"
    "t4_state g = t4_state f" "t4_up g = t4_up f" "error_correcting_mode g = error_correcting_mode f"
    by (rule fcd_step [OF assms(1) Cons.prems(1,2) np]) (rule that)
  have m: "m ++ map_of (rev (x # fs)) = m(n \<mapsto> p) ++ map_of (rev fs)"
    by (simp add: x)
  have "\<forall>(n, p) \<in> set fs. n < 256 \<and> length p \<le> 256" using Cons.prems(3) by simp
  from Cons.IH [OF g(2,3) this] obtain h where h: "hdlc_accepts S (map (fcd S) fs) g = Inr h" "fax_wf h"
    "holds_pieces (m(n \<mapsto> p) ++ map_of (rev fs)) h" "t4_state h = t4_state g" "t4_up h = t4_up g"
    "error_correcting_mode h = error_correcting_mode g"
    by (elim exE conjE) (rule that)
  have "hdlc_accepts S (map (fcd S) (x # fs)) f = Inr h" using g(1) h(1) x by simp
  moreover note h(2) h(3) [folded m]
  moreover have "t4_state h = t4_state f" "t4_up h = t4_up f" "error_correcting_mode h = error_correcting_mode f"
    using g h by simp_all
  ultimately show ?case by blast
qed simp

lemma t4_end_bits:
  assumes "fax_wf f" and "holds_pieces m f" and "t4_up f" and "error_correcting_mode f"
  shows "t4_state (t4_end S f) = t4_rx_end_page S (foldl (t4_put S) (t4_state f) (page_bits m))"
proof -
  let ?b = "\<lambda>i. concat (map (\<lambda>j. map (\<lambda>k. uint (drop_bit k (ecm_data f ! i ! j) AND 1)) [0..<8]) [0..<nat (ecm_len f ! i)])"
  have "?b i = (case m i of None \<Rightarrow> [] | Some p \<Rightarrow> concat (map byte_bits p))" if i: "i < 256" for i
  proof (cases "m i")
    case None
    with assms(2) i have "ecm_len f ! i = -1" by (auto simp: holds_pieces_def split: option.splits)
    with None show ?thesis by simp
  next
    case (Some p)
    with assms(2) i have p: "ecm_len f ! i = int (length p)" "length p \<le> 256" "take (length p) (ecm_data f ! i) = p"
      by (auto simp: holds_pieces_def split: option.splits)
    have "length (ecm_data f ! i) = 260" using assms(1) i by (simp add: fax_wf_def)
    then have "map (\<lambda>j. byte_bits (ecm_data f ! i ! j)) [0..<length p] = map byte_bits p"
      using map_nth_take [of "length p" "ecm_data f ! i" byte_bits] p(2,3) by simp
    with Some p(1) show ?thesis
      by (simp add: bit_uint_byte byte_bits_def [symmetric])
  qed
  then have "page_bits m = concat (map ?b [0..<256])"
    unfolding page_bits_def by (intro arg_cong [where f = concat] map_cong) simp_all
  moreover have "t4_state (t4_end S f) = t4_rx_end_page S (foldl (t4_put S) (t4_state f) (concat (map ?b [0..<256])))"
    using assms(3,4) by (simp add: t4_end_def Let_def foldl_foldl [symmetric] foldl_map)
  ultimately show ?thesis by simp
qed

section \<open>A library to run the theorems on\<close>

text \<open>
  A receiver that takes the bits as octets of a single frame, ended by the bit 2, and a
  decoder that records what it is given; a page ends with the bit 3.
\<close>

record lab_t4 =
  lab_page :: "int list"
  lab_pages :: "int list list"
  lab_width :: int

definition lab_span :: "(byte list, lab_t4) span_api" where
  "lab_span = \<lparr>
     hdlc_rx_init = [],
     hdlc_rx_put_bit = (\<lambda>h b. if b = 2 then ([], [(h @ replicate 4 0, int (length h), True)]) else (h @ [of_int b], [])),
     t4_rx_init = Some \<lparr>lab_page = [], lab_pages = [], lab_width = 0\<rparr>,
     t4_rx_set_rx_encoding = (\<lambda>t e. t), t4_rx_set_x_resolution = (\<lambda>t r. t), t4_rx_set_y_resolution = (\<lambda>t r. t),
     t4_rx_set_image_width = (\<lambda>t w. t\<lparr>lab_width := w\<rparr>),
     t4_rx_start_page = (\<lambda>t. t\<lparr>lab_page := []\<rparr>),
     t4_rx_put_bit = (\<lambda>t b. (b = 3, t\<lparr>lab_page := lab_page t @ [b]\<rparr>)),
     t4_rx_end_page = (\<lambda>t. t\<lparr>lab_pages := lab_pages t @ [lab_page t]\<rparr>),
     T4_FCD = 0x60, T30_DCS = 0x82, T30_MAX_DIS_DTC_DCS_LEN = 22,
     SIG_STATUS_TRAINING_SUCCEEDED = -4, SIG_STATUS_CARRIER_DOWN = -1\<rparr>"

interpretation ls: span_lib lab_span
  by unfold_locales (auto simp: lab_span_def split: if_splits)

definition lab_fax :: "bool \<Rightarrow> (byte list, lab_t4) fax" where
  "lab_fax ecm = \<lparr>t4_state = \<lparr>lab_page = [], lab_pages = [], lab_width = 0\<rparr>, t4_up = False, hdlcrx = [],
     fast_trained = FAX_NONE, ecm_data = replicate 256 (replicate 260 0), ecm_len = replicate 256 0,
     line_encoding = T4_COMPRESSION_ITU_T4_1D, x_resolution = T4_X_RESOLUTION_R8,
     y_resolution = T4_Y_RESOLUTION_STANDARD, image_width = 1728, octets_per_ecm_frame = 256,
     error_correcting_mode = ecm, current_fallback = 0\<rparr>"

lemma lab_fax_wf: "fax_wf (lab_fax ecm)"
  by (simp add: lab_fax_def fax_wf_def)

section \<open>Properties\<close>

text \<open>
  C29: a page with error correction. From the start of a page on, pieces of it arrive in good
  frames, in any order, some perhaps twice and some not at all. Then the end of the page
  gives the T.4 decoder exactly the bits of the pieces received, in the order of their
  numbers, every byte lowest bit first, of a piece sent twice the later copy, and ends the
  page.
\<close>

theorem fax_ecm_page:
  assumes "span_lib S" and "fax_wf f" and "error_correcting_mode f"
    and "\<forall>(n, p) \<in> set fs. n < 256 \<and> length p \<le> 256"
  shows "\<exists>g. hdlc_accepts S (map (fcd S) fs) (t4_begin S f) = Inr g \<and>
    t4_state (t4_end S g) =
      t4_rx_end_page S (foldl (t4_put S) (t4_state (t4_begin S f)) (page_bits (map_of (rev fs)))) \<and>
    \<not> t4_up (t4_end S g)"
proof -
  have "holds_pieces Map.empty (t4_begin S f)"
    by (simp add: holds_pieces_def t4_begin_def Let_def)
  from fcd_steps [OF assms(1) t4_begin_wf [OF assms(2)] this assms(4)]
  obtain g where g: "hdlc_accepts S (map (fcd S) fs) (t4_begin S f) = Inr g" "fax_wf g"
    "holds_pieces (map_of (rev fs)) g" "t4_state g = t4_state (t4_begin S f)" "t4_up g = t4_up (t4_begin S f)"
    "error_correcting_mode g = error_correcting_mode (t4_begin S f)"
    by (auto simp: map_add_def)
  have up: "t4_up g" "error_correcting_mode g"
    using g(5,6) assms(3) by (simp_all add: t4_begin_def Let_def)
  from t4_end_bits [OF g(2,3) up, of S] g(1,4) up show ?thesis
    by (simp add: t4_end_def Let_def)
qed

theorem fax_ecm_page_witness:
  "\<exists>g. hdlc_accepts lab_span (map (fcd lab_span) [(1, [0x80]), (0, [0x01]), (1, [0x03])]) (t4_begin lab_span (lab_fax True)) = Inr g \<and>
     lab_pages (t4_state (t4_end lab_span g)) = [[1, 0, 0, 0, 0, 0, 0, 0, 1, 1, 0, 0, 0, 0, 0, 0]]"
proof -
  let ?fs = "[(1, [0x80]), (0, [0x01]), (1, [0x03 :: byte])] :: (nat \<times> byte list) list"
  have e: "error_correcting_mode (lab_fax True)" by (simp add: lab_fax_def)
  have fs: "\<forall>(n, p) \<in> set ?fs. n < 256 \<and> length p \<le> 256" by simp
  have m: "page_bits (map_of (rev ?fs)) = [1, 0, 0, 0, 0, 0, 0, 0, 1, 1, 0, 0, 0, 0, 0, 0]"
    by code_simp
  have t: "t4_state (t4_begin lab_span (lab_fax True)) = \<lparr>lab_page = [], lab_pages = [], lab_width = 1728\<rparr>"
    by (simp add: t4_begin_def lab_span_def lab_fax_def Let_def)
  from fax_ecm_page [OF ls.span_lib_axioms lab_fax_wf e fs] show ?thesis
    unfolding m t by (auto simp: t4_put_def lab_span_def)
qed

text \<open>
  C32: whatever bits the modem delivers and whatever frames the receiver finds in them, the
  decoder's state stays well-formed: 256 pieces of 260 bytes with lengths from -1 to 256, a
  width, a frame size and a modem the tables have. The only way a bit can end the process
  is a good image frame of less than four bytes, whose copy has a negative length.
\<close>

theorem fax_state_kept:
  assumes "span_lib S" and "fax_wf f"
  shows "ends {ArrayOverrun} fax_wf (span_fax_bits S b f) \<and> ends {ArrayOverrun} fax_wf (v21_put_bit S i f) \<and>
    ends {ArrayOverrun} fax_wf (v17_put_bit S i f) \<and> ends {ArrayOverrun} fax_wf (v29_put_bit S i f) \<and>
    ends {ArrayOverrun} fax_wf (v27ter_put_bit S i f) \<and> fax_wf (span_in_sync S f) \<and>
    (hdlc_accept S (msg, len, ok) f = Inl ArrayOverrun \<longleftrightarrow>
      ok \<and> 0 \<le> len \<and> len < 4 \<and> msg ! 0 = 0xFF \<and> msg ! 1 \<in> {0x03, 0x13} \<and> msg ! 2 AND 0xFE = T4_FCD S)"
proof -
  note bits = span_lib.page_bit_wf [OF assms]
  have "fax_wf (span_in_sync S f)"
    using assms(2) by (simp add: span_in_sync_def t4_begin_wf)
  moreover have "hdlc_accept S (msg, len, ok) f = Inl ArrayOverrun \<longleftrightarrow>
      ok \<and> 0 \<le> len \<and> len < 4 \<and> msg ! 0 = 0xFF \<and> msg ! 1 \<in> {0x03, 0x13} \<and> msg ! 2 AND 0xFE = T4_FCD S"
    by (auto simp: hdlc_accept_def Let_def)
  ultimately show ?thesis
    using bits by (simp add: v17_put_bit_def v29_put_bit_def v27ter_put_bit_def)
qed

theorem fax_state_kept_witness:
  "ends {ArrayOverrun} fax_wf (span_fax_bits lab_span 1 (lab_fax False)) \<and>
   hdlc_accept lab_span ([0xFF, 0x03, 0x60, 0], 3, True) (lab_fax True) = Inl ArrayOverrun"
proof -
  have "T4_FCD lab_span = 0x60" by (simp add: lab_span_def)
  then show ?thesis
    using fax_state_kept [OF ls.span_lib_axioms lab_fax_wf [of False], of 1 0]
      fax_state_kept [OF ls.span_lib_axioms lab_fax_wf [of True], of 1 0 "[0xFF, 0x03, 0x60, 0]" 3 True]
    by simp
qed

text \<open>Every modem of the table is found under its code.\<close>

lemma find_fallback_exact:
  assumes "i < 8"
  shows "find_fallback_entry (dcs_code (fallback_sequence ! i)) = int i"
proof -
  have "\<forall>i \<in> set [0..<8]. find_fallback_entry (dcs_code (fallback_sequence ! i)) = int i"
    by code_simp
  with assms show ?thesis by simp
qed

end
