(* ===== verification/Os_Files.thy ===== *)
theory Os_Files
  imports Ras_Prelude "HOL-Library.Multiset"
begin

text \<open>
  What the program uses of the operating system to start other processes: the descriptor
  table of a process with \<open>open\<close>, \<open>close\<close>, \<open>dup2\<close>, \<open>pipe\<close> and \<open>fcntl\<close>, the settings of a
  terminal, \<open>fork\<close> and \<open>execv\<close>, and the strings the program allocates for the arguments of
  a new process.

  An open file is a value: a pseudo terminal is named by the path of its slave, a pipe by a
  number. Two descriptors with the same value share the file and its flags, as they do
  after \<open>dup2\<close> and \<open>fork\<close>.
\<close>

datatype ofile = Stream string | PipeRead nat | PipeWrite nat | PtyMaster string | PtySlave string

record termios =
  c_cflag :: u32
  c_lflag :: u32

type_synonym fd_table = "int \<Rightarrow> ofile option"

record proc_os =
  fds :: fd_table
  nonblock :: "ofile list"
  pipes :: nat
  pipe_cap :: "nat \<Rightarrow> nat"
  tio :: "string \<Rightarrow> termios"
  heap :: "string multiset"

text \<open>
  The answers of the system that do not follow from the descriptor table: the size of the
  table, what opening a path gives, whether a pseudo terminal can be unlocked and named,
  whether its settings can be read and written, whether flags can be set, the capacity a pipe
  gets, the result of \<open>fork\<close> in the parent, whether a program can be executed.
\<close>

record os_env =
  open_max :: nat
  dev_open :: "string \<Rightarrow> ofile option"
  unlockpt_rc :: "ofile \<Rightarrow> int"
  pts_name :: "ofile \<Rightarrow> string option"
  tcgetattr_ok :: "ofile \<Rightarrow> bool"
  tcsetattr_ok :: "ofile \<Rightarrow> bool"
  setfl_ok :: "ofile \<Rightarrow> bool"
  pipe_grant :: "nat \<Rightarrow> nat option"
  fork_rc :: int
  exec_ok :: "string \<Rightarrow> bool"

section \<open>Descriptors\<close>

text \<open>A new descriptor is the lowest one that is not open.\<close>

definition lowest :: "nat \<Rightarrow> fd_table \<Rightarrow> int option" where
  "lowest n t = find (\<lambda>i. t i = None) (map int [0..<n])"

definition close_fd :: "int \<Rightarrow> fd_table \<Rightarrow> fd_table" where
  "close_fd i t = t(i := None)"

text \<open>\<open>dup2\<close> of a descriptor that is not open fails and leaves the target as it is.\<close>

definition dup2_fd :: "int \<Rightarrow> int \<Rightarrow> fd_table \<Rightarrow> fd_table" where
  "dup2_fd a b t = (case t a of None \<Rightarrow> t | Some f \<Rightarrow> t(b \<mapsto> f))"

definition sys_close :: "int \<Rightarrow> proc_os \<Rightarrow> proc_os" where
  "sys_close i st = st\<lparr>fds := close_fd i (fds st)\<rparr>"

definition sys_open :: "os_env \<Rightarrow> string \<Rightarrow> bool \<Rightarrow> proc_os \<Rightarrow> int \<times> proc_os" where
  "sys_open env path nb st =
     (case lowest (open_max env) (fds st) of
        None \<Rightarrow> (- 1, st)
      | Some i \<Rightarrow>
         (case dev_open env path of
            None \<Rightarrow> (- 1, st)
          | Some f \<Rightarrow> (i, st\<lparr>fds := (fds st)(i \<mapsto> f),
                           nonblock := (if nb then f # nonblock st else nonblock st)\<rparr>)))"

text \<open>
  \<open>pipe\<close> stores the descriptors of both ends, or fails and leaves the array \<open>old\<close> as it is. A
  new pipe of Linux holds 65536 bytes.
\<close>

definition sys_pipe :: "os_env \<Rightarrow> int \<times> int \<Rightarrow> proc_os \<Rightarrow> (int \<times> int) \<times> proc_os" where
  "sys_pipe env old st =
     (case lowest (open_max env) (fds st) of
        None \<Rightarrow> (old, st)
      | Some r \<Rightarrow>
         let t = (fds st)(r \<mapsto> PipeRead (pipes st)) in
         (case lowest (open_max env) t of
            None \<Rightarrow> (old, st)
          | Some w \<Rightarrow> ((r, w), st\<lparr>fds := t(w \<mapsto> PipeWrite (pipes st)),
                                pipes := Suc (pipes st),
                                pipe_cap := (pipe_cap st)(pipes st := 65536)\<rparr>)))"

text \<open>
  \<open>tcgetattr\<close> leaves the variable \<open>old\<close> as it is when it fails; \<open>tcsetattr\<close> then leaves the terminal so.
\<close>

definition sys_tcgetattr :: "os_env \<Rightarrow> int \<Rightarrow> termios \<Rightarrow> proc_os \<Rightarrow> termios" where
  "sys_tcgetattr env i old st =
     (case fds st i of
        Some (PtyMaster n) \<Rightarrow> if tcgetattr_ok env (PtyMaster n) then tio st n else old
      | _ \<Rightarrow> old)"

definition sys_tcsetattr :: "os_env \<Rightarrow> int \<Rightarrow> termios \<Rightarrow> proc_os \<Rightarrow> proc_os" where
  "sys_tcsetattr env i t st =
     (case fds st i of
        Some (PtyMaster n) \<Rightarrow> if tcsetattr_ok env (PtyMaster n) then st\<lparr>tio := (tio st)(n := t)\<rparr> else st
      | _ \<Rightarrow> st)"

definition fcntl_nonblock :: "os_env \<Rightarrow> int \<Rightarrow> proc_os \<Rightarrow> int \<times> proc_os" where
  "fcntl_nonblock env i st =
     (case fds st i of
        None \<Rightarrow> (- 1, st)
      | Some f \<Rightarrow> if setfl_ok env f then (0, st\<lparr>nonblock := f # nonblock st\<rparr>) else (- 1, st))"

definition fcntl_pipe_size :: "os_env \<Rightarrow> int \<Rightarrow> nat \<Rightarrow> proc_os \<Rightarrow> int \<times> proc_os" where
  "fcntl_pipe_size env i n st =
     (let grant = \<lambda>k. (case pipe_grant env n of
            None \<Rightarrow> (- 1, st)
          | Some c \<Rightarrow> (int c, st\<lparr>pipe_cap := (pipe_cap st)(k := c)\<rparr>)) in
      case fds st i of
        Some (PipeRead k) \<Rightarrow> grant k
      | Some (PipeWrite k) \<Rightarrow> grant k
      | _ \<Rightarrow> (- 1, st))"

section \<open>Processes\<close>

text \<open>What became of a child: a program with its arguments and descriptors, or an exit.\<close>

datatype child = Exec string "string list" fd_table | Exited int

definition execv :: "os_env \<Rightarrow> string \<Rightarrow> string list \<Rightarrow> fd_table \<Rightarrow> child" where
  "execv env path argv t = (if exec_ok env path then Exec path argv t else Exited 1)"

definition strdup :: "string \<Rightarrow> proc_os \<Rightarrow> proc_os" where
  "strdup s st = st\<lparr>heap := add_mset s (heap st)\<rparr>"

definition strfree :: "string \<Rightarrow> proc_os \<Rightarrow> proc_os" where
  "strfree s st = st\<lparr>heap := heap st - {#s#}\<rparr>"

section \<open>Facts\<close>

lemma lowest_Some:
  assumes "lowest n t = Some i"
  shows "t i = None" and "0 \<le> i" and "i < int n"
proof -
  have "t i = None \<and> i \<in> set (map int [0..<n])"
    using assms by (auto simp: lowest_def find_Some_iff)
  then show "t i = None" and "0 \<le> i" and "i < int n" by auto
qed

lemma lowest_None: "lowest n t = None \<longleftrightarrow> (\<forall>i. 0 \<le> i \<and> i < int n \<longrightarrow> t i \<noteq> None)"
proof -
  have set: "set (map int [0..<n]) = {i. 0 \<le> i \<and> i < int n}"
    by (auto simp: image_iff) (metis atLeastLessThan_iff nonneg_int_cases of_nat_less_iff zero_le)
  show ?thesis
    unfolding lowest_def find_None_iff set by auto
qed

text \<open>The number of free descriptors is what decides whether a new one can be had.\<close>

definition free_fds :: "nat \<Rightarrow> fd_table \<Rightarrow> nat" where
  "free_fds n t = length (filter (\<lambda>i. t i = None) (map int [0..<n]))"

lemma lowest_ex: "0 < free_fds n t \<Longrightarrow> \<exists>i. lowest n t = Some i"
  unfolding free_fds_def lowest_def
  by (cases "find (\<lambda>i. t i = None) (map int [0..<n])") (auto simp: find_None_iff filter_empty_conv)

lemma free_fds_card: "free_fds n t = card {j. 0 \<le> j \<and> j < int n \<and> t j = None}"
proof -
  have "distinct (map int [0..<n])" by (simp add: distinct_map)
  then have "free_fds n t = card (set (filter (\<lambda>j. t j = None) (map int [0..<n])))"
    unfolding free_fds_def by (simp only: distinct_card distinct_filter)
  also have "set (filter (\<lambda>j. t j = None) (map int [0..<n])) = {j. 0 \<le> j \<and> j < int n \<and> t j = None}"
    by (auto simp: image_iff) (metis atLeastLessThan_iff nonneg_int_cases of_nat_less_iff zero_le)
  finally show ?thesis .
qed

lemma free_fds_upd:
  assumes "0 \<le> i" and "i < int n" and "t i = None"
  shows "free_fds n (t(i \<mapsto> f)) = free_fds n t - 1"
proof -
  have "{j. 0 \<le> j \<and> j < int n \<and> (t(i \<mapsto> f)) j = None} =
      {j. 0 \<le> j \<and> j < int n \<and> t j = None} - {i}" by auto
  then show ?thesis using assms by (simp add: free_fds_card)
qed

lemma free_fds_take: "lowest n t = Some i \<Longrightarrow> free_fds n (t(i \<mapsto> f)) = free_fds n t - 1"
  using lowest_Some by (intro free_fds_upd) auto

text \<open>The engine starts a handler with its five descriptors: standard ones and the samples.\<close>

definition engine_fds :: "fd_table \<Rightarrow> bool" where
  "engine_fds t \<longleftrightarrow> list_all (\<lambda>i. t i \<noteq> None) [0, 1, 2, 3, 4]"

lemma lowest_ge: "engine_fds t \<Longrightarrow> lowest n t = Some i \<Longrightarrow> 5 \<le> i"
proof (rule ccontr)
  assume "engine_fds t" and l: "lowest n t = Some i" and "\<not> 5 \<le> i"
  then have "i = 0 \<or> i = 1 \<or> i = 2 \<or> i = 3 \<or> i = 4"
    using lowest_Some(2) [OF l] by auto
  then show False
    using \<open>engine_fds t\<close> lowest_Some(1) [OF l] by (auto simp: engine_fds_def)
qed

lemma sys_open_cases:
  assumes "sys_open env path nb st = (fd, st')"
  obtains (fails) "fd = - 1" and "st' = st"
    | (opens) f where "lowest (open_max env) (fds st) = Some fd" and "dev_open env path = Some f"
      and "st' = st\<lparr>fds := (fds st)(fd \<mapsto> f), nonblock := (if nb then f # nonblock st else nonblock st)\<rparr>"
  using assms by (auto simp: sys_open_def split: option.splits)

text \<open>The blocks of the argument strings.\<close>

lemma fold_strdup: "fold strdup ss st = st\<lparr>heap := heap st + mset ss\<rparr>"
  by (induction ss arbitrary: st) (simp_all add: strdup_def)

lemma fold_strfree: "fold strfree ss st = st\<lparr>heap := heap st - mset ss\<rparr>"
  by (induction ss arbitrary: st) (simp_all add: strfree_def)

lemma engine_fds_upd: "engine_fds t \<Longrightarrow> 5 \<le> i \<Longrightarrow> engine_fds (t(i \<mapsto> f))"
  by (simp add: engine_fds_def)

text \<open>A pipe whose two descriptors lie beyond those of the engine.\<close>

lemma sys_pipe_ok:
  assumes "engine_fds (fds st)" and "2 \<le> free_fds (open_max env) (fds st)"
  obtains r w where "sys_pipe env old st = ((r, w), st\<lparr>
      fds := (fds st)(r \<mapsto> PipeRead (pipes st), w \<mapsto> PipeWrite (pipes st)),
      pipes := Suc (pipes st), pipe_cap := (pipe_cap st)(pipes st := 65536)\<rparr>)"
    and "5 \<le> r" and "r < int (open_max env)" and "fds st r = None"
    and "5 \<le> w" and "w < int (open_max env)" and "fds st w = None" and "r \<noteq> w"
proof -
  obtain r where r: "lowest (open_max env) (fds st) = Some r"
    using lowest_ex [of "open_max env" "fds st"] assms(2) by auto
  define t where "t = (fds st)(r \<mapsto> PipeRead (pipes st))"
  have "0 < free_fds (open_max env) t"
    unfolding t_def free_fds_take [OF r] using assms(2) by simp
  then obtain w where w: "lowest (open_max env) t = Some w"
    using lowest_ex by blast
  have "5 \<le> r" using assms(1) r by (rule lowest_ge)
  then have "engine_fds t" unfolding t_def by (rule engine_fds_upd [OF assms(1)])
  then have "5 \<le> w" using w by (rule lowest_ge)
  have "t w = None" using w by (rule lowest_Some)
  then have "w \<noteq> r" and "fds st w = None" by (auto simp: t_def split: if_splits)
  show ?thesis
    using r w \<open>5 \<le> r\<close> \<open>5 \<le> w\<close> \<open>w \<noteq> r\<close> \<open>fds st w = None\<close>
      lowest_Some(1,3) [OF r] lowest_Some(3) [OF w]
    by (intro that [of r w]) (auto simp: sys_pipe_def Let_def t_def)
qed

section \<open>The interface of a descriptor table\<close>

text \<open>
  What the children rely on: the two laws of \<open>close\<close> and \<open>dup2\<close>. A child that replaces its
  standard input and output by two open descriptors beyond those of the engine, then closes
  the other descriptors of the engine, has exactly those two connected and keeps everything
  else it inherited.
\<close>

locale descriptors =
  fixes look :: "'t \<Rightarrow> int \<Rightarrow> 'f option"
    and close_op :: "int \<Rightarrow> 't \<Rightarrow> 't"
    and dup2_op :: "int \<Rightarrow> int \<Rightarrow> 't \<Rightarrow> 't"
  assumes look_close: "look (close_op i t) j = (if j = i then None else look t j)"
    and look_dup2: "look (dup2_op a b t) j =
      (if j = b \<and> look t a \<noteq> None then look t a else look t j)"
begin

lemma wired:
  assumes "look t p = Some f" and "look t c = Some g" and "5 \<le> p" and "5 \<le> c"
  shows "look (dup2_op c 1 (dup2_op p 0 (close_op 1 (close_op 0 t)))) j =
    (if j = 0 then Some f else if j = 1 then Some g else look t j)"
  using assms by (auto simp: look_close look_dup2)

lemma close_engine:
  "look (close_op 4 (close_op 3 (close_op 2 t))) j = (if 2 \<le> j \<and> j \<le> 4 then None else look t j)"
proof -
  have "2 \<le> j \<and> j \<le> 4 \<longleftrightarrow> j = 2 \<or> j = 3 \<or> j = 4" by arith
  then show ?thesis by (auto simp: look_close)
qed

lemma wired_one:
  assumes "look t p = Some f" and "5 \<le> p"
  shows "look (close_op 4 (close_op 3 (close_op 2 (close_op p
      (dup2_op p 1 (dup2_op p 0 (close_op 1 (close_op 0 t)))))))) j =
    (if j = 0 \<or> j = 1 then Some f else if 2 \<le> j \<and> j \<le> 4 \<or> j = p then None else look t j)"
proof -
  define u where "u = dup2_op p 1 (dup2_op p 0 (close_op 1 (close_op 0 t)))"
  have "look u j = (if j = 0 \<or> j = 1 then Some f else look t j)"
    unfolding u_def using wired [OF assms(1) assms(1) assms(2) assms(2), of j] by simp
  then show ?thesis
    unfolding u_def [symmetric] close_engine look_close using assms(2) by auto
qed

text \<open>A descriptor below two that is to be connected is lost by closing the standard ones.\<close>

lemma unwired:
  assumes "p = 0 \<or> p = 1"
  shows "look (dup2_op p 0 (close_op 1 (close_op 0 t))) 0 = None"
  using assms by (auto simp: look_close look_dup2)

end

interpretation fdt: descriptors "\<lambda>t. t" close_fd dup2_fd
  by unfold_locales (auto simp: close_fd_def dup2_fd_def split: option.splits)

end
