(* ===== verification/Ppp_Start.thy ===== *)
theory Ppp_Start
  imports Os_Files
begin

text \<open>
  Starting \<open>pppd\<close>: the allocation of a pseudo terminal of \<open>src/ppp/pty.c\<close>, \<open>start_pppd\<close> of
  \<open>src/ppp/pppd.c\<close>, and the main loop of \<open>src/yate_hdlc_ppp.c\<close>, which watches the process.

  A string buffer is the string in it; a write beyond its size is a fault.
\<close>

section \<open>Pseudo terminals\<close>

definition PTY10 :: string where "PTY10 = ''pqrstuvwxyzabcde''"

definition PTY01 :: string where "PTY01 = ''0123456789abcdef''"

definition pty_dev :: "char \<Rightarrow> char \<Rightarrow> string" where
  "pty_dev a b = ''/dev/pty'' @ [a, b]"

text \<open>The loop over the second digit of the device name, and the loop over the first.\<close>

primrec pty_digits :: "os_env \<Rightarrow> char \<Rightarrow> string \<Rightarrow> proc_os \<Rightarrow> (int \<times> char) option \<times> proc_os" where
  "pty_digits env a [] st = (None, st)"
| "pty_digits env a (b # bs) st =
     (case sys_open env (pty_dev a b) True st of
        (fd, st') \<Rightarrow> if 0 \<le> fd then (Some (fd, b), st') else pty_digits env a bs st')"

primrec pty_banks ::
    "os_env \<Rightarrow> string \<Rightarrow> proc_os \<Rightarrow> (int \<times> char \<times> char) option \<times> proc_os" where
  "pty_banks env [] st = (None, st)"
| "pty_banks env (a # as) st =
     (case pty_digits env a PTY01 st of
        (Some (fd, b), st') \<Rightarrow> (Some (fd, a, b), st')
      | (None, st') \<Rightarrow> pty_banks env as st')"

text \<open>The descriptor and the two digits, which stay as they were when there is none.\<close>

definition getPtyMaster_pty ::
    "os_env \<Rightarrow> char \<times> char \<Rightarrow> proc_os \<Rightarrow> int \<times> (char \<times> char) \<times> proc_os" where
  "getPtyMaster_pty env tty st =
     (case pty_banks env PTY10 st of
        (Some (fd, a, b), st') \<Rightarrow> (fd, (a, b), st')
      | (None, st') \<Rightarrow> (- 1, tty, st'))"

definition unlockpt :: "os_env \<Rightarrow> int \<Rightarrow> proc_os \<Rightarrow> int" where
  "unlockpt env fd st = (case fds st fd of None \<Rightarrow> - 1 | Some f \<Rightarrow> unlockpt_rc env f)"

definition ptsname :: "os_env \<Rightarrow> int \<Rightarrow> proc_os \<Rightarrow> string option" where
  "ptsname env fd st = Option.bind (fds st fd) (pts_name env)"

text \<open>\<open>strncat\<close> appends up to \<open>ttybuflen\<close> characters and then a terminating zero.\<close>

definition getPtyMaster_ptmx ::
    "os_env \<Rightarrow> string \<Rightarrow> nat \<Rightarrow> proc_os \<Rightarrow> fault + int \<times> string \<times> proc_os" where
  "getPtyMaster_ptmx env ttybuf ttybuflen st =
     (case sys_open env ''/dev/ptmx'' False st of
        (fd, st) \<Rightarrow>
          if fd = - 1 then Inr (- EINVAL, ttybuf, st)
          else if unlockpt env fd st \<noteq> 0 then Inr (- EINVAL, ttybuf, sys_close fd st)
          else (case ptsname env fd st of
                  None \<Rightarrow> Inr (- EINVAL, ttybuf, sys_close fd st)
                | Some tty \<Rightarrow>
                    if ttybuflen < Suc (min (length tty) ttybuflen) then Inl ArrayOverrun
                    else Inr (fd, tty, st)))"

definition getPtyMaster ::
    "os_env \<Rightarrow> char \<times> char \<Rightarrow> string \<Rightarrow> nat \<Rightarrow> proc_os \<Rightarrow> fault + int \<times> string \<times> proc_os" where
  "getPtyMaster env ab ttybuf ttybuflen st =
     (case getPtyMaster_ptmx env ttybuf ttybuflen st of
        Inl e \<Rightarrow> Inl e
      | Inr (fd, ttybuf, st) \<Rightarrow>
          if 0 \<le> fd then Inr (fd, ttybuf, st)
          else (case getPtyMaster_pty env ab st of
                  (fd, (a, b), st) \<Rightarrow>
                    if 0 \<le> fd then Inr (fd, take (ttybuflen - 1) (''/dev/tty'' @ [a, b]), st)
                    else Inr (- EINVAL, ttybuf, st)))"

section \<open>Starting pppd\<close>

definition PPPD :: string where "PPPD = ''/usr/sbin/pppd''"

text \<open>The flag bits as Linux defines them.\<close>

definition ICANON :: u32 where "ICANON = 2"

definition ECHO :: u32 where "ECHO = 8"

definition no_echo :: "termios \<Rightarrow> termios" where
  "no_echo t = t\<lparr>c_cflag := c_cflag t AND NOT (ICANON OR ECHO), c_lflag := c_lflag t AND NOT ECHO\<rparr>"

text \<open>\<open>ptyconf\<close> is the variable on the stack as it was; neither result is looked at.\<close>

definition pty_conf :: "os_env \<Rightarrow> termios \<Rightarrow> int \<Rightarrow> proc_os \<Rightarrow> proc_os" where
  "pty_conf env ptyconf fd st =
     (let ptyconf = sys_tcgetattr env fd ptyconf st
      in sys_tcsetattr env fd (no_echo ptyconf) st)"

definition pppd_args :: "string \<Rightarrow> string list" where
  "pppd_args tty =
     [PPPD, tty, ''file'', ''/etc/ppp/options.isdnras'', ''172.21.118.1:172.21.118.5'']"

definition pppd_child :: "int \<Rightarrow> fd_table \<Rightarrow> fd_table" where
  "pppd_child fd2 t =
     (let t = close_fd 1 (close_fd 0 t);
          t = dup2_fd fd2 1 (dup2_fd fd2 0 t);
          t = close_fd fd2 t in
      close_fd 4 (close_fd 3 (close_fd 2 t)))"

record started =
  st_rc :: int
  st_fd :: int
  st_pid :: int
  st_os :: proc_os
  st_child :: "child option"

definition start_pppd :: "os_env \<Rightarrow> termios \<Rightarrow> int \<Rightarrow> int \<Rightarrow> proc_os \<Rightarrow> fault + started" where
  "start_pppd env ptyconf fd pppd st =
     (let st = strdup PPPD st;
          err = (\<lambda>fd pppd st. Inr \<lparr>st_rc = - EINVAL, st_fd = fd, st_pid = pppd, st_os = st,
                                   st_child = None\<rparr>) in
      if - 1 < fd then err fd pppd st
      else case getPtyMaster env (CHR 0x00, CHR 0x00) [] 512 st of
        Inl e \<Rightarrow> Inl e
      | Inr (fd, tty, st) \<Rightarrow>
          if fd < 0 then err fd pppd st
          else case fcntl_nonblock env fd (pty_conf env ptyconf fd st) of
            (rc, st) \<Rightarrow>
              if rc \<noteq> 0 then err fd pppd st
              else case sys_open env tty False st of
                (fd2, st) \<Rightarrow>
                  if fd2 < 0 then err fd pppd st
                  else
                    let stropt = pppd_args tty;
                        st = fold strdup (tl stropt) st;
                        pppd = fork_rc env in
                    if pppd < 0 then err fd pppd (sys_close fd2 st)
                    else Inr \<lparr>st_rc = 0, st_fd = fd, st_pid = pppd,
                              st_os = fold strfree stropt (sys_close fd2 st),
                              st_child = Some (execv env PPPD stropt (pppd_child fd2 (fds st)))\<rparr>)"

section \<open>The main loop\<close>

text \<open>
  One pass of the loop of \<open>main\<close> over the process number and the number of passes, an \<open>int\<close> whose
  increment overflows at the last one; \<open>rc\<close> is what \<open>waitpid\<close> returns in it. The handlers the
  loop then dispatches do not touch either.
\<close>

abbreviation (input) INT_MAX :: int where "INT_MAX \<equiv> 2 ^ 31 - 1"

definition ppp_main_pass :: "int \<Rightarrow> int \<times> int \<Rightarrow> fault + int \<times> int" where
  "ppp_main_pass rc = (\<lambda>(pppd, loop_cycles).
     if loop_cycles = INT_MAX then Inl IntOverflow
     else
       let loop_cycles = loop_cycles + 1 in
       Inr (if loop_cycles mod 100 = 0 \<and> 0 < rc then 0 else pppd, loop_cycles))"

text \<open>The loop over the answers of the system, until the process number is zero.\<close>

primrec ppp_main_loop :: "int list \<Rightarrow> int \<times> int \<Rightarrow> fault + int \<times> int" where
  "ppp_main_loop [] s = Inr s"
| "ppp_main_loop (rc # rcs) s =
     (if fst s = 0 then Inr s
      else (case ppp_main_pass rc s of Inl e \<Rightarrow> Inl e | Inr s \<Rightarrow> ppp_main_loop rcs s))"

end
