(* ===== verification/Ppp_Process.thy ===== *)
theory Ppp_Process
  imports Ppp_Start
begin

text \<open>
  What starting \<open>pppd\<close> does: which legacy terminal is taken, how the descriptors of the
  parent and of the new process are connected, what every error path leaves behind, and
  when the main loop ends.
\<close>

section \<open>Legacy terminals\<close>

lemma find_append: "find P (xs @ ys) = (case find P xs of None \<Rightarrow> find P ys | Some x \<Rightarrow> Some x)"
  by (induction xs) simp_all

lemma find_holds: "find P xs = Some x \<Longrightarrow> P x"
  by (auto simp: find_Some_iff)

lemma find_Pair:
  "find (\<lambda>(a, b). P a b) (map (Pair a) bs) = map_option (Pair a) (find (P a) bs)"
  by (induction bs) simp_all

lemma digits_find:
  "pty_digits env a bs st =
    (case (lowest (open_max env) (fds st), find (\<lambda>b. dev_open env (pty_dev a b) \<noteq> None) bs) of
       (Some fd, Some b) \<Rightarrow> (Some (fd, b), snd (sys_open env (pty_dev a b) True st))
     | _ \<Rightarrow> (None, st))"
proof (induction bs)
  case Nil
  then show ?case by (simp split: option.splits)
next
  case (Cons b bs)
  then show ?case
    by (cases "lowest (open_max env) (fds st)"; cases "dev_open env (pty_dev a b)")
      (auto simp: sys_open_def dest: lowest_Some)
qed

lemma banks_find:
  "pty_banks env as st =
    (case (lowest (open_max env) (fds st),
           find (\<lambda>(a, b). dev_open env (pty_dev a b) \<noteq> None) (List.product as PTY01)) of
       (Some fd, Some (a, b)) \<Rightarrow> (Some (fd, a, b), snd (sys_open env (pty_dev a b) True st))
     | _ \<Rightarrow> (None, st))"
  by (induction as)
    (auto simp: digits_find find_append find_Pair simp del: find.simps(2) split: option.splits)

text \<open>
  C28: The legacy allocation is a search: the two nested loops open the first of the 256
  devices, in the order of their names' digits, that can be opened, at the lowest free
  descriptor, and fail without any change when there is none or no descriptor is free.
\<close>

theorem pty_legacy_search:
  "getPtyMaster_pty env tty st =
    (case (lowest (open_max env) (fds st),
           find (\<lambda>(a, b). dev_open env (pty_dev a b) \<noteq> None) (List.product PTY10 PTY01)) of
       (Some fd, Some (a, b)) \<Rightarrow> (fd, (a, b), snd (sys_open env (pty_dev a b) True st))
     | _ \<Rightarrow> (- 1, tty, st))"
  by (auto simp: getPtyMaster_pty_def banks_find split: option.splits)

section \<open>Descriptors\<close>

text \<open>
  The master of a pseudo terminal is either in the table at the returned descriptor or, on
  an error, nowhere.
\<close>

definition pty_got :: "os_env \<Rightarrow> proc_os \<Rightarrow> int \<Rightarrow> proc_os \<Rightarrow> bool" where
  "pty_got env st fd st' \<longleftrightarrow> heap st' = heap st \<and>
     (if 0 \<le> fd
      then lowest (open_max env) (fds st) = Some fd \<and> (\<exists>f. fds st' = (fds st)(fd \<mapsto> f))
      else fds st' = fds st)"

lemma upd_some [simp]: "\<exists>g. m(i \<mapsto> f) = m(i \<mapsto> g)"
  by blast

lemma close_new: "t i = None \<Longrightarrow> close_fd i (t(i \<mapsto> f)) = t"
  by (auto simp: close_fd_def)

lemma ptmx_got:
  assumes "getPtyMaster_ptmx env buf n st = Inr (fd, tty, st')"
  shows "pty_got env st fd st'"
proof (cases "sys_open env ''/dev/ptmx'' False st")
  case (Pair i u)
  then show ?thesis
  proof (cases rule: sys_open_cases)
    case fails
    with Pair assms show ?thesis by (auto simp: getPtyMaster_ptmx_def pty_got_def)
  next
    case (opens f)
    moreover have "close_fd i ((fds st)(i \<mapsto> f)) = fds st"
      using lowest_Some(1) [OF opens(1)] by (rule close_new)
    moreover have "0 \<le> i"
      by (rule lowest_Some(2) [OF opens(1)])
    ultimately show ?thesis
      using Pair assms
      by (auto simp: getPtyMaster_ptmx_def pty_got_def sys_close_def split: if_splits option.splits)
  qed
qed

lemma legacy_got: "getPtyMaster_pty env ab st = (fd, d, st') \<Longrightarrow> pty_got env st fd st'"
  by (auto simp: getPtyMaster_pty_def banks_find sys_open_def pty_got_def
      dest: lowest_Some dest!: find_holds split: option.splits)

lemma pty_got_trans: "pty_got env st fd u \<Longrightarrow> fd < 0 \<Longrightarrow> pty_got env u fd' st' \<Longrightarrow> pty_got env st fd' st'"
  by (auto simp: pty_got_def split: if_splits)

lemma pty_got_error: "pty_got env st fd u \<Longrightarrow> fd < 0 \<Longrightarrow> fd' < 0 \<Longrightarrow> pty_got env st fd' u"
  by (simp add: pty_got_def)

lemma pty_got_master:
  assumes "getPtyMaster env ab buf n st = Inr (fd, tty, st')"
  shows "pty_got env st fd st'"
proof -
  from assms obtain i b u where m: "getPtyMaster_ptmx env buf n st = Inr (i, b, u)"
    by (auto simp: getPtyMaster_def split: sum.splits)
  note got = ptmx_got [OF m]
  show ?thesis
  proof (cases "0 \<le> i")
    case True
    with m assms got show ?thesis by (simp add: getPtyMaster_def)
  next
    case False
    obtain j x y v where l: "getPtyMaster_pty env ab u = (j, (x, y), v)"
      by (metis prod_cases4 surj_pair)
    have g: "pty_got env st j v"
      using pty_got_trans [OF got _ legacy_got [OF l]] False by simp
    show ?thesis
      using m l assms False g pty_got_error [OF g, of "- EINVAL"]
      by (auto simp: getPtyMaster_def split: if_splits)
  qed
qed

lemma pty_conf_same [simp]: "fds (pty_conf env c fd st) = fds st" "heap (pty_conf env c fd st) = heap st"
    "nonblock (pty_conf env c fd st) = nonblock st" "pipes (pty_conf env c fd st) = pipes st"
  by (simp_all add: pty_conf_def sys_tcsetattr_def Let_def split: option.splits ofile.splits)

lemma nonblock_same:
  assumes "fcntl_nonblock env fd st = (rc, st')"
  shows "fds st' = fds st" and "heap st' = heap st"
  using assms by (auto simp: fcntl_nonblock_def split: option.splits if_splits)

text \<open>
  The one way in which the allocation fails for good: the clone device gives out a terminal with
  a name that fills the buffer, and the terminating zero is stored behind it.
\<close>

definition long_name :: "os_env \<Rightarrow> nat \<Rightarrow> proc_os \<Rightarrow> bool" where
  "long_name env len st \<longleftrightarrow> lowest (open_max env) (fds st) \<noteq> None \<and>
     (case dev_open env ''/dev/ptmx'' of
        None \<Rightarrow> False
      | Some f \<Rightarrow> unlockpt_rc env f = 0 \<and> (case pts_name env f of None \<Rightarrow> False | Some n \<Rightarrow> len \<le> length n))"

lemma ptmx_overrun:
  "(case getPtyMaster_ptmx env buf len st of Inl e \<Rightarrow> e = ArrayOverrun \<and> long_name env len st
    | Inr r \<Rightarrow> \<not> long_name env len st)"
  by (auto simp: getPtyMaster_ptmx_def sys_open_def unlockpt_def ptsname_def long_name_def min_def
      dest: lowest_Some split: option.splits if_splits)

lemma master_overrun: "long_name env len st \<Longrightarrow> getPtyMaster env ab buf len st = Inl ArrayOverrun"
  using ptmx_overrun [of env len st buf] by (auto simp: getPtyMaster_def split: sum.splits)

lemma master_total:
  assumes "\<not> long_name env len st"
  shows "\<exists>fd tty st'. getPtyMaster env ab buf len st = Inr (fd, tty, st')"
  using ptmx_overrun [of env len st buf] assms by (auto simp: getPtyMaster_def split: sum.splits prod.splits)

lemma long_name_strdup [simp]: "long_name env len (strdup x st) = long_name env len st"
  by (simp add: long_name_def strdup_def)

lemma args_freed: "add_mset PPPD (h + mset (tl (pppd_args tty))) - mset (pppd_args tty) = h"
  by (simp add: pppd_args_def)

text \<open>What a start leaves behind, and the part of it after the master is open.\<close>

definition start_kept :: "proc_os \<Rightarrow> started \<Rightarrow> bool" where
  "start_kept st r \<longleftrightarrow> (st_rc r = 0 \<or> st_rc r = - EINVAL) \<and> (st_rc r = 0 \<longleftrightarrow> st_child r \<noteq> None) \<and>
     (fds (st_os r) = fds st \<or>
       fds st (st_fd r) = None \<and> (\<exists>f. fds (st_os r) = (fds st)(st_fd r \<mapsto> f))) \<and>
     (st_rc r = 0 \<longrightarrow> heap (st_os r) = heap st)"

lemma start_with_master:
  assumes m: "getPtyMaster env (CHR 0x00, CHR 0x00) [] 512 (strdup PPPD st) = Inr (i, tty, u)"
    and pos: "\<not> i < 0" and fd: "\<not> - 1 < fd"
  shows "\<exists>r. start_pppd env ptyconf fd pppd st = Inr r \<and> start_kept st r"
proof -
  from pty_got_master [OF m] pos obtain f where i: "lowest (open_max env) (fds st) = Some i"
    and u: "fds u = (fds st)(i \<mapsto> f)" and h: "heap u = add_mset PPPD (heap st)"
    by (auto simp: pty_got_def strdup_def)
  note free = lowest_Some(1) [OF i]
  obtain rc v where nb: "fcntl_nonblock env i (pty_conf env ptyconf i u) = (rc, v)"
    by (cases "fcntl_nonblock env i (pty_conf env ptyconf i u)")
  have v: "fds v = (fds st)(i \<mapsto> f)" "heap v = add_mset PPPD (heap st)"
    using nonblock_same [OF nb] u h by simp_all
  obtain j w where o: "sys_open env tty False v = (j, w)"
    by (cases "sys_open env tty False v")
  note run = m nb o pos fd v free
  show ?thesis
    using o
  proof (cases rule: sys_open_cases)
    case fails
    then show ?thesis using run by (simp add: start_pppd_def Let_def start_kept_def)
  next
    case (opens g)
    have "close_fd j (fds w) = (fds st)(i \<mapsto> f)"
      using lowest_Some(1) [OF opens(1)] opens(3) v close_new [of "fds v" j g] by simp
    moreover have "heap w = add_mset PPPD (heap st)"
      using opens(3) v by simp
    ultimately show ?thesis
      using run lowest_Some(2) [OF opens(1)]
      by (simp add: start_pppd_def Let_def fold_strdup fold_strfree sys_close_def args_freed start_kept_def)
  qed
qed

text \<open>
  C25: what a start leaves behind, whatever the system answers. When the clone device gives out a
  terminal whose name has 512 or more characters, \<open>start_pppd\<close> stores a byte behind its buffer;
  else it returns 0 or \<open>-EINVAL\<close>; it returns 0 exactly when it made a process; of
  its descriptors at most the master of the terminal stays open, at the descriptor it hands
  out, and the slave never does; a start that succeeds releases all argument strings.
\<close>

theorem pppd_descriptors:
  "if fd \<le> - 1 \<and> long_name env 512 st then start_pppd env ptyconf fd pppd st = Inl ArrayOverrun
   else \<exists>r. start_pppd env ptyconf fd pppd st = Inr r \<and> (st_rc r = 0 \<or> st_rc r = - EINVAL) \<and>
    (st_rc r = 0 \<longleftrightarrow> st_child r \<noteq> None) \<and>
    (fds (st_os r) = fds st \<or>
      fds st (st_fd r) = None \<and> (\<exists>f. fds (st_os r) = (fds st)(st_fd r \<mapsto> f))) \<and>
    (st_rc r = 0 \<longrightarrow> heap (st_os r) = heap st)"
proof (cases "fd \<le> - 1 \<and> long_name env 512 st")
  case True
  then show ?thesis
    using master_overrun [of env 512 "strdup PPPD st"] by (simp add: start_pppd_def Let_def)
next
  case False
  have "\<exists>r. start_pppd env ptyconf fd pppd st = Inr r \<and> start_kept st r"
  proof (cases "- 1 < fd")
    case True
    then show ?thesis by (simp add: start_pppd_def strdup_def start_kept_def)
  next
    case neg: False
    then obtain i tty u where m: "getPtyMaster env (CHR 0x00, CHR 0x00) [] 512 (strdup PPPD st) = Inr (i, tty, u)"
      using master_total [of env 512 "strdup PPPD st" "(CHR 0x00, CHR 0x00)" "[]"] False by auto
    show ?thesis
    proof (cases "i < 0")
      case True
      with m pty_got_master [OF m] neg show ?thesis
        by (simp add: start_pppd_def pty_got_def strdup_def start_kept_def)
    next
      case False
      then show ?thesis using neg by (rule start_with_master [OF m])
    qed
  qed
  then show ?thesis unfolding if_not_P [OF False] by (simp add: start_kept_def)
qed

definition lab_deaf :: "string \<Rightarrow> os_env" where
  "lab_deaf n = \<lparr>open_max = 1024, dev_open = (\<lambda>p. if p = n then None else Some (PtyMaster n)), unlockpt_rc = (\<lambda>f. 0),
      pts_name = (\<lambda>f. Some n), tcgetattr_ok = (\<lambda>f. False), tcsetattr_ok = (\<lambda>f. False), setfl_ok = (\<lambda>f. True),
      pipe_grant = (\<lambda>n. None), fork_rc = 7, exec_ok = (\<lambda>p. True)\<rparr>"

definition lab_blank :: proc_os where
  "lab_blank = \<lparr>fds = (\<lambda>i. None), nonblock = [], pipes = 0, pipe_cap = (\<lambda>k. 0),
       tio = (\<lambda>n. \<lparr>c_cflag = 15, c_lflag = 10\<rparr>), heap = {#}\<rparr>"

theorem pppd_descriptors_witness:
  "(\<exists>r. start_pppd (lab_deaf ''/dev/pts/7'') \<lparr>c_cflag = 0, c_lflag = 0\<rparr> (- 1) 0 lab_blank = Inr r \<and>
     (st_rc r = 0 \<longleftrightarrow> st_child r \<noteq> None)) \<and>
   start_pppd (lab_deaf (replicate 600 CHR ''a'')) \<lparr>c_cflag = 0, c_lflag = 0\<rparr> (- 1) 0 lab_blank = Inl ArrayOverrun"
proof -
  have "lowest 1024 (\<lambda>i. None) \<noteq> None" by (subst lowest_None) (auto intro: exI [of _ 0])
  then have "long_name (lab_deaf (replicate 600 CHR ''a'')) 512 lab_blank" "\<not> long_name (lab_deaf ''/dev/pts/7'') 512 lab_blank"
    by (auto simp: long_name_def lab_deaf_def lab_blank_def numeral_eq_Suc split: option.splits)
  then show ?thesis
    using pppd_descriptors [of "- 1" "lab_deaf ''/dev/pts/7''" lab_blank "\<lparr>c_cflag = 0, c_lflag = 0\<rparr>" 0]
      pppd_descriptors [of "- 1" "lab_deaf (replicate 600 CHR ''a'')" lab_blank "\<lparr>c_cflag = 0, c_lflag = 0\<rparr>" 0]
    by auto
qed

section \<open>The process\<close>

text \<open>The system gives out the pseudo terminal \<open>n\<close>, has it configured and lets \<open>pppd\<close> run.\<close>

definition pty_ready :: "os_env \<Rightarrow> string \<Rightarrow> bool" where
  "pty_ready env n \<longleftrightarrow> dev_open env ''/dev/ptmx'' = Some (PtyMaster n) \<and>
     unlockpt_rc env (PtyMaster n) = 0 \<and> pts_name env (PtyMaster n) = Some n \<and> length n < 512 \<and>
     tcgetattr_ok env (PtyMaster n) \<and> tcsetattr_ok env (PtyMaster n) \<and>
     setfl_ok env (PtyMaster n) \<and> dev_open env n = Some (PtySlave n) \<and>
     0 < fork_rc env \<and> exec_ok env PPPD"

text \<open>
  C20: when the system gives out a pseudo terminal with a name of less than 512 characters and lets
  its settings be changed, and the engine's descriptors are open, \<open>start_pppd\<close> starts \<open>pppd\<close> on the
  slave: the process has it as standard input and output and none of the engine's other
  descriptors, the standard error included, although a comment in the code says that it is kept;
  the parent keeps exactly the master, in non-blocking mode, and echo is off. The process also
  inherits the master.
\<close>

theorem pppd_started:
  assumes "engine_fds (fds st)" and "2 \<le> free_fds (open_max env) (fds st)" and "pty_ready env n"
  shows "\<exists>fd r t. start_pppd env ptyconf (- 1) pppd st = Inr r \<and> fds st fd = None \<and>
    st_rc r = 0 \<and> st_fd r = fd \<and> st_pid r = fork_rc env \<and>
    fds (st_os r) = (fds st)(fd \<mapsto> PtyMaster n) \<and>
    nonblock (st_os r) = PtyMaster n # nonblock st \<and>
    c_lflag (tio (st_os r) n) AND ECHO = 0 \<and> heap (st_os r) = heap st \<and>
    st_child r = Some (Exec PPPD (pppd_args n) t) \<and>
    (\<forall>j. t j = (if j = 0 \<or> j = 1 then Some (PtySlave n) else if 2 \<le> j \<and> j \<le> 4 then None
      else if j = fd then Some (PtyMaster n) else fds st j))"
proof -
  obtain i where i: "lowest (open_max env) (fds st) = Some i"
    using lowest_ex [of "open_max env" "fds st"] assms(2) by auto
  define u where "u = (fds st)(i \<mapsto> PtyMaster n)"
  have "0 < free_fds (open_max env) u"
    unfolding u_def free_fds_take [OF i] using assms(2) by simp
  then obtain j where j: "lowest (open_max env) u = Some j"
    using lowest_ex by blast
  have "5 \<le> i" using assms(1) i by (rule lowest_ge)
  then have "engine_fds u" unfolding u_def by (rule engine_fds_upd [OF assms(1)])
  then have "5 \<le> j" using j by (rule lowest_ge)
  have "u j = None" using j by (rule lowest_Some)
  define t where "t = pppd_child j (u(j \<mapsto> PtySlave n))"
  have t: "t k = (if k = 0 \<or> k = 1 then Some (PtySlave n) else if 2 \<le> k \<and> k \<le> 4 then None
      else if k = i then Some (PtyMaster n) else fds st k)" for k
    unfolding t_def pppd_child_def Let_def
    using fdt.wired_one [of "u(j \<mapsto> PtySlave n)" j "PtySlave n" k] \<open>5 \<le> j\<close> \<open>5 \<le> i\<close> \<open>u j = None\<close>
    by (auto simp: u_def)
  have close: "close_fd j (u(j \<mapsto> PtySlave n)) = u"
    using \<open>u j = None\<close> by (rule close_new)
  have echo: "c_lflag (no_echo x) AND ECHO = 0" for x
    by (rule bit_word_eqI) (simp add: no_echo_def bit_simps)
  have "fds st i = None" using i by (rule lowest_Some)
  moreover have "\<exists>r. start_pppd env ptyconf (- 1) pppd st = Inr r \<and> st_rc r = 0 \<and> st_fd r = i \<and>
      st_pid r = fork_rc env \<and> fds (st_os r) = u \<and> nonblock (st_os r) = PtyMaster n # nonblock st \<and>
      c_lflag (tio (st_os r) n) AND ECHO = 0 \<and> heap (st_os r) = heap st \<and>
      st_child r = Some (Exec PPPD (pppd_args n) t)"
    using assms(3) i j \<open>5 \<le> i\<close> \<open>5 \<le> j\<close> close echo
    by (simp add: start_pppd_def getPtyMaster_def getPtyMaster_ptmx_def sys_open_def pty_ready_def
        unlockpt_def ptsname_def pty_conf_def sys_tcgetattr_def sys_tcsetattr_def fcntl_nonblock_def strdup_def Let_def u_def t_def
        fold_strdup fold_strfree sys_close_def execv_def args_freed)
  ultimately show ?thesis
    using t unfolding u_def by blast
qed

text \<open>A system whose terminal is \<open>/dev/pts/7\<close>, and a process as the engine starts it.\<close>

definition lab_env :: os_env where
  "lab_env = \<lparr>open_max = 16,
     dev_open = [''/dev/ptmx'' \<mapsto> PtyMaster ''/dev/pts/7'', ''/dev/pts/7'' \<mapsto> PtySlave ''/dev/pts/7''],
     unlockpt_rc = (\<lambda>f. 0), pts_name = (\<lambda>f. Some ''/dev/pts/7''),
     tcgetattr_ok = (\<lambda>f. True), tcsetattr_ok = (\<lambda>f. True), setfl_ok = (\<lambda>f. True),
     pipe_grant = (\<lambda>n. Some n), fork_rc = 4711, exec_ok = (\<lambda>p. True)\<rparr>"

definition lab_proc :: proc_os where
  "lab_proc = \<lparr>fds = (\<lambda>i. if 0 \<le> i \<and> i < 5 then Some (Stream ''engine'') else None),
     nonblock = [], pipes = 0, pipe_cap = (\<lambda>k. 0), tio = (\<lambda>n. \<lparr>c_cflag = 191, c_lflag = 35387\<rparr>),
     heap = {#}\<rparr>"

lemma lab_ready: "engine_fds (fds lab_proc)" "4 \<le> free_fds (open_max lab_env) (fds lab_proc)"
    "pty_ready lab_env ''/dev/pts/7''"
  by code_simp+

theorem pppd_started_witness:
  "\<exists>r t. start_pppd lab_env \<lparr>c_cflag = 0, c_lflag = 0\<rparr> (- 1) 0 lab_proc = Inr r \<and> st_pid r = 4711 \<and>
    st_child r = Some (Exec PPPD (pppd_args ''/dev/pts/7'') t) \<and> t 0 = Some (PtySlave ''/dev/pts/7'')"
  using pppd_started [of lab_proc lab_env "''/dev/pts/7''" "\<lparr>c_cflag = 0, c_lflag = 0\<rparr>" 0] lab_ready
  by (force simp: lab_env_def)

text \<open>
  The canonical mode is not switched off: its bit is cleared among the control flags, where
  it and the bit of echo belong to the line speed. On Linux 38400 baud (15) become 150 (5).
\<close>

lemma canonical_kept: "c_lflag (no_echo t) AND ICANON = c_lflag t AND ICANON"
  by (rule bit_word_eqI) (auto simp: no_echo_def ICANON_def ECHO_def bit_simps)

lemma speed_changed: "c_cflag (no_echo \<lparr>c_cflag = 15, c_lflag = l\<rparr>) = 5"
  by (simp add: no_echo_def ICANON_def ECHO_def)

text \<open>When the settings cannot be read, what was on the stack becomes the terminal's, echo cleared.\<close>

lemma stack_settings:
  assumes "fds st fd = Some (PtyMaster n)" and "\<not> tcgetattr_ok env (PtyMaster n)" and "tcsetattr_ok env (PtyMaster n)"
  shows "tio (pty_conf env ptyconf fd st) n = no_echo ptyconf"
  using assms by (simp add: pty_conf_def sys_tcgetattr_def sys_tcsetattr_def)

section \<open>The end of the call\<close>

lemma main_done [simp]: "ppp_main_loop rcs (0, k) = Inr (0, k)"
  by (cases rcs) simp_all

lemma main_append:
  "ppp_main_loop (xs @ ys) s = (case ppp_main_loop xs s of Inl e \<Rightarrow> Inl e | Inr t \<Rightarrow> ppp_main_loop ys t)"
proof (induction xs arbitrary: s)
  case (Cons rc xs)
  then show ?case by (cases s) (auto split: sum.splits)
qed simp

text \<open>
  The loop goes on while no pass is both a hundredth one and one in which the process is
  reported.
\<close>

lemma main_goes_on:
  assumes "p \<noteq> 0" and "k + int (length rcs) \<le> INT_MAX"
    and "\<forall>i < length rcs. (k + int i + 1) mod 100 = 0 \<longrightarrow> rcs ! i \<le> 0"
  shows "ppp_main_loop rcs (p, k) = Inr (p, k + int (length rcs))"
  using assms(2,3)
proof (induction rcs arbitrary: k)
  case (Cons rc rcs)
  have "\<forall>i < length rcs. (k + 1 + int i + 1) mod 100 = 0 \<longrightarrow> rcs ! i \<le> 0"
  proof (intro allI impI)
    fix i assume "i < length rcs" and "(k + 1 + int i + 1) mod 100 = 0"
    then show "rcs ! i \<le> 0"
      using Cons.prems(2) [rule_format, of "Suc i"] by (simp add: algebra_simps)
  qed
  moreover have "(k + 1) mod 100 = 0 \<longrightarrow> rc \<le> 0"
    using Cons.prems(2) [rule_format, of 0] by simp
  ultimately show ?case
    using Cons.IH [of "k + 1"] Cons.prems(1) assms(1) by (auto simp: ppp_main_pass_def Let_def algebra_simps)
qed simp

text \<open>The hundredth pass after \<open>m\<close> passes, and that no pass before it is one.\<close>

definition next_check :: "int \<Rightarrow> int" where
  "next_check m = m + (100 - m mod 100)"

lemma next_check:
  "m < next_check m" "next_check m \<le> m + 100" "next_check m mod 100 = 0"
  "m < j \<Longrightarrow> j < next_check m \<Longrightarrow> j mod 100 \<noteq> 0"
proof -
  have b: "0 \<le> m mod 100" "m mod 100 < 100" by simp_all
  then show "m < next_check m" "next_check m \<le> m + 100" by (simp_all add: next_check_def)
  have eq: "next_check m = 100 * (m div 100 + 1)"
    using minus_mod_eq_mult_div [of m 100] by (simp add: next_check_def)
  then show "next_check m mod 100 = 0" by simp
  show "j mod 100 \<noteq> 0" if "m < j" "j < next_check m"
  proof
    assume "j mod 100 = 0"
    then obtain q where q: "j = 100 * q" by (auto simp: mod_eq_0_iff_dvd)
    then have "q < m div 100 + 1" using that(2) eq by simp
    moreover have "m div 100 < q" using that(1) q b mult_div_mod_eq [of 100 m] by linarith
    ultimately show False by simp
  qed
qed

text \<open>
  C26: the call ends when \<open>pppd\<close> does. As long as the process lives the main loop goes on; when it
  dies after \<open>m\<close> passes the loop still goes on up to the pass before the next one whose number is
  a multiple of 100, and is left after exactly that one. This is as long as the counter of the
  passes stays in the range of its type.
\<close>

theorem ppp_call_ends:
  assumes "pppd \<noteq> 0" and "list_all (\<lambda>rc. rc \<le> 0) alive" and "list_all (\<lambda>rc. 0 < rc) dead"
    and "m = k + int (length alive)" and "next_check m \<le> INT_MAX"
  shows "ppp_main_loop alive (pppd, k) = Inr (pppd, m) \<and>
    (m + int (length dead) < next_check m \<longrightarrow>
       ppp_main_loop (alive @ dead) (pppd, k) = Inr (pppd, m + int (length dead))) \<and>
    (next_check m \<le> m + int (length dead) \<longrightarrow>
       ppp_main_loop (alive @ dead) (pppd, k) = Inr (0, next_check m))"
proof -
  have on: "ppp_main_loop alive (pppd, k) = Inr (pppd, m)"
    using assms next_check(1) [of m] by (subst main_goes_on) (auto simp: list_all_length)
  have wait: "ppp_main_loop rcs (pppd, m) = Inr (pppd, m + int (length rcs))"
    if "m + int (length rcs) < next_check m" for rcs
  proof (rule main_goes_on [OF assms(1)])
    show "m + int (length rcs) \<le> INT_MAX" using that assms(5) by simp
    show "\<forall>i < length rcs. (m + int i + 1) mod 100 = 0 \<longrightarrow> rcs ! i \<le> 0"
    proof (intro allI impI)
      fix i assume "i < length rcs" and z: "(m + int i + 1) mod 100 = 0"
      then have "m < m + int i + 1" "m + int i + 1 < next_check m" using that by simp_all
      from next_check(4) [OF this] z show "rcs ! i \<le> 0" by simp
    qed
  qed
  have left: "ppp_main_loop dead (pppd, m) = Inr (0, next_check m)" if le: "next_check m \<le> m + int (length dead)"
  proof -
    define j where "j = nat (next_check m - m - 1)"
    have j: "m + int j + 1 = next_check m" "j < length dead"
      using le next_check(1) [of m] by (auto simp: j_def)
    then have split: "dead = take j dead @ dead ! j # drop (Suc j) dead"
      by (simp add: id_take_nth_drop)
    have "ppp_main_loop (take j dead) (pppd, m) = Inr (pppd, m + int j)"
      using wait [of "take j dead"] j by simp
    moreover have "0 < dead ! j" using assms(3) j(2) by (simp add: list_all_length)
    moreover have "(m + int j + 1) mod 100 = 0" unfolding j(1) by (rule next_check(3))
    ultimately show ?thesis
      using j assms(1,5) by (subst split) (auto simp: main_append ppp_main_pass_def)
  qed
  show ?thesis
    using on wait [of dead] left by (simp add: main_append)
qed

theorem ppp_call_ends_witness:
  "ppp_main_loop (replicate 250 0 @ replicate 49 4711) (4711, 0) = Inr (4711, 299) \<and>
   ppp_main_loop (replicate 250 0 @ replicate 60 4711) (4711, 0) = Inr (0, 300)"
  using ppp_call_ends [of 4711 "replicate 250 0" "replicate 49 4711" 250 0]
    ppp_call_ends [of 4711 "replicate 250 0" "replicate 60 4711" 250 0]
  by (simp add: list_all_iff next_check_def)

text \<open>
  A process number that is never reported, such as the -1 of a failed \<open>fork\<close>, keeps the loop
  running until the counter overflows.
\<close>

lemma main_overflow:
  assumes "pppd \<noteq> 0" and "list_all (\<lambda>rc. rc \<le> 0) rcs" and "k \<le> INT_MAX" and "INT_MAX < k + int (length rcs)"
  shows "ppp_main_loop rcs (pppd, k) = Inl IntOverflow"
proof -
  define j where "j = nat (INT_MAX - k)"
  have j: "k + int j = INT_MAX" "j < length rcs"
    using assms(3,4) by (auto simp: j_def)
  then have split: "rcs = take j rcs @ rcs ! j # drop (Suc j) rcs"
    by (simp add: id_take_nth_drop)
  have "ppp_main_loop (take j rcs) (pppd, k) = Inr (pppd, k + int j)"
    using assms(1,2) j by (subst main_goes_on) (auto simp: list_all_length)
  then show ?thesis
    using j(1) assms(1) by (subst split) (simp add: main_append ppp_main_pass_def)
qed

end
