(* ===== verification/Ppp_Framing.thy ===== *)
theory Ppp_Framing
  imports Ras_Prelude
begin

text \<open>
  PPP in HDLC-like framing, \<open>src/ppp/pppd.c\<close>: the frame check sequence, the encoder that
  turns a packet into a byte-stuffed frame, the decoder that takes a byte stream apart,
  the handler for bytes that arrive from the pppd process, and the routine that sends a
  packet to it. Reading and writing the pseudo terminal are system calls: the bytes a
  \<open>read\<close> delivered and the value a \<open>write\<close> returned are arguments, and what was handed to
  \<open>write\<close> and what it took are results.
\<close>

abbreviation (input) PPP_FLAG :: byte where "PPP_FLAG \<equiv> 0x7e"
abbreviation (input) PPP_ESCAPE :: byte where "PPP_ESCAPE \<equiv> 0x7d"
abbreviation (input) PPP_TRANS :: byte where "PPP_TRANS \<equiv> 0x20"
abbreviation (input) PPP_INITFCS :: u16 where "PPP_INITFCS \<equiv> 0xffff"
abbreviation (input) PPP_GOODFCS :: u16 where "PPP_GOODFCS \<equiv> 0xf0b8"
abbreviation (input) MAX_MTU :: nat where "MAX_MTU \<equiv> 2048"

definition ppp_crc16_table :: "u16 list" where
  "ppp_crc16_table = [
    0x0000, 0x1189, 0x2312, 0x329b, 0x4624, 0x57ad, 0x6536, 0x74bf,
    0x8c48, 0x9dc1, 0xaf5a, 0xbed3, 0xca6c, 0xdbe5, 0xe97e, 0xf8f7,
    0x1081, 0x0108, 0x3393, 0x221a, 0x56a5, 0x472c, 0x75b7, 0x643e,
    0x9cc9, 0x8d40, 0xbfdb, 0xae52, 0xdaed, 0xcb64, 0xf9ff, 0xe876,
    0x2102, 0x308b, 0x0210, 0x1399, 0x6726, 0x76af, 0x4434, 0x55bd,
    0xad4a, 0xbcc3, 0x8e58, 0x9fd1, 0xeb6e, 0xfae7, 0xc87c, 0xd9f5,
    0x3183, 0x200a, 0x1291, 0x0318, 0x77a7, 0x662e, 0x54b5, 0x453c,
    0xbdcb, 0xac42, 0x9ed9, 0x8f50, 0xfbef, 0xea66, 0xd8fd, 0xc974,
    0x4204, 0x538d, 0x6116, 0x709f, 0x0420, 0x15a9, 0x2732, 0x36bb,
    0xce4c, 0xdfc5, 0xed5e, 0xfcd7, 0x8868, 0x99e1, 0xab7a, 0xbaf3,
    0x5285, 0x430c, 0x7197, 0x601e, 0x14a1, 0x0528, 0x37b3, 0x263a,
    0xdecd, 0xcf44, 0xfddf, 0xec56, 0x98e9, 0x8960, 0xbbfb, 0xaa72,
    0x6306, 0x728f, 0x4014, 0x519d, 0x2522, 0x34ab, 0x0630, 0x17b9,
    0xef4e, 0xfec7, 0xcc5c, 0xddd5, 0xa96a, 0xb8e3, 0x8a78, 0x9bf1,
    0x7387, 0x620e, 0x5095, 0x411c, 0x35a3, 0x242a, 0x16b1, 0x0738,
    0xffcf, 0xee46, 0xdcdd, 0xcd54, 0xb9eb, 0xa862, 0x9af9, 0x8b70,
    0x8408, 0x9581, 0xa71a, 0xb693, 0xc22c, 0xd3a5, 0xe13e, 0xf0b7,
    0x0840, 0x19c9, 0x2b52, 0x3adb, 0x4e64, 0x5fed, 0x6d76, 0x7cff,
    0x9489, 0x8500, 0xb79b, 0xa612, 0xd2ad, 0xc324, 0xf1bf, 0xe036,
    0x18c1, 0x0948, 0x3bd3, 0x2a5a, 0x5ee5, 0x4f6c, 0x7df7, 0x6c7e,
    0xa50a, 0xb483, 0x8618, 0x9791, 0xe32e, 0xf2a7, 0xc03c, 0xd1b5,
    0x2942, 0x38cb, 0x0a50, 0x1bd9, 0x6f66, 0x7eef, 0x4c74, 0x5dfd,
    0xb58b, 0xa402, 0x9699, 0x8710, 0xf3af, 0xe226, 0xd0bd, 0xc134,
    0x39c3, 0x284a, 0x1ad1, 0x0b58, 0x7fe7, 0x6e6e, 0x5cf5, 0x4d7c,
    0xc60c, 0xd785, 0xe51e, 0xf497, 0x8028, 0x91a1, 0xa33a, 0xb2b3,
    0x4a44, 0x5bcd, 0x6956, 0x78df, 0x0c60, 0x1de9, 0x2f72, 0x3efb,
    0xd68d, 0xc704, 0xf59f, 0xe416, 0x90a9, 0x8120, 0xb3bb, 0xa232,
    0x5ac5, 0x4b4c, 0x79d7, 0x685e, 0x1ce1, 0x0d68, 0x3ff3, 0x2e7a,
    0xe70e, 0xf687, 0xc41c, 0xd595, 0xa12a, 0xb0a3, 0x8238, 0x93b1,
    0x6b46, 0x7acf, 0x4854, 0x59dd, 0x2d62, 0x3ceb, 0x0e70, 0x1ff9,
    0xf78f, 0xe606, 0xd49d, 0xc514, 0xb1ab, 0xa022, 0x92b9, 0x8330,
    0x7bc7, 0x6a4e, 0x58d5, 0x495c, 0x3de3, 0x2c6a, 0x1ef1, 0x0f78]"

section \<open>Frame check sequence and encoder\<close>

definition PPP_FCS :: "u16 \<Rightarrow> byte \<Rightarrow> u16" where
  "PPP_FCS fcs c = drop_bit 8 fcs XOR ppp_crc16_table ! unat ((fcs XOR ucast c) AND 0xff)"

definition pppd_rfc1662_checksum :: "byte list \<Rightarrow> u16" where
  "pppd_rfc1662_checksum buf = foldl PPP_FCS PPP_INITFCS buf XOR 0xffff"

text \<open>The bytes stored to \<open>hdlc_out\<close>, in order; the result of the C function is their number.\<close>

definition pppd_rfc1662_encode :: "byte list \<Rightarrow> byte list" where
  "pppd_rfc1662_encode raw_in =
     (let raw_len = length raw_in;
          fcs = pppd_rfc1662_checksum raw_in;
          out = [PPP_FLAG];
          out = foldl (\<lambda>out x.
            let e = (if x < raw_len then raw_in ! x
                     else if x = raw_len then ucast (fcs AND 0xff)
                     else ucast (drop_bit 8 fcs AND 0xff)) in
            if e < 0x20 \<or> e = PPP_ESCAPE \<or> e = PPP_FLAG
            then out @ [PPP_ESCAPE, e XOR 0x20]
            else out @ [e]) out [0..<raw_len + 2]
      in out @ [PPP_FLAG])"

section \<open>Decoder\<close>

record rfc1662_vars =
  deframed_bytes :: nat
  escape :: byte

text \<open>
  The loop of \<open>pppd_rfc1662_decode\<close> from index \<open>i\<close> on: return value, \<open>*count\<close>, decoder state
  and destination buffer. \<open>count\<close> is only stored once a byte is looked at.
\<close>

fun rfc1662_decode_loop :: "nat \<Rightarrow> nat \<Rightarrow> byte list \<Rightarrow> nat \<Rightarrow> rfc1662_vars \<Rightarrow> byte list
    \<Rightarrow> int \<times> nat \<times> rfc1662_vars \<times> byte list" where
  "rfc1662_decode_loop dsize i [] count st dst = (0, count, st, dst)"
| "rfc1662_decode_loop dsize i (ch # src) count st dst =
     (if ch = PPP_FLAG then
        if escape st \<noteq> 0 then rfc1662_decode_loop dsize (Suc i) src i st dst
        else if 2 \<le> deframed_bytes st then
          (int (deframed_bytes st - 2), i, st\<lparr>deframed_bytes := 0, escape := 0\<rparr>, dst)
        else if deframed_bytes st = 1 then
          rfc1662_decode_loop dsize (Suc i) src i (st\<lparr>deframed_bytes := 0\<rparr>) dst
        else rfc1662_decode_loop dsize (Suc i) src i st dst
      else if ch = PPP_ESCAPE then
        rfc1662_decode_loop dsize (Suc i) src i (st\<lparr>escape := PPP_TRANS\<rparr>) dst
      else
        let ch = ch XOR escape st; st = st\<lparr>escape := 0\<rparr> in
        if deframed_bytes st < dsize then
          rfc1662_decode_loop dsize (Suc i) src i (st\<lparr>deframed_bytes := Suc (deframed_bytes st)\<rparr>)
            (dst[deframed_bytes st := ch])
        else (- EINVAL, i, st, dst))"

definition pppd_rfc1662_decode :: "rfc1662_vars \<Rightarrow> byte list \<Rightarrow> nat \<Rightarrow> byte list \<Rightarrow> nat
    \<Rightarrow> int \<times> nat \<times> rfc1662_vars \<times> byte list" where
  "pppd_rfc1662_decode st src count dst dsize = rfc1662_decode_loop dsize 0 src count st dst"

section \<open>Bytes from and to the pppd process\<close>

text \<open>
  The globals \<open>ppp_rfc1662_state\<close> and \<open>temp_pack_buf\<close>, and the state \<open>'s\<close> that the registered
  packet handler works on.
\<close>

record 's ppp_rx =
  ppp_rfc1662_state :: rfc1662_vars
  temp_pack_buf :: "byte list"
  ppp_user :: 's

text \<open>One pass of the loop of \<open>pppd_input_cb\<close>, over \<open>bytes_read\<close>, \<open>count\<close> and the globals.\<close>

definition pppd_input_pass :: "('s \<Rightarrow> byte list \<Rightarrow> 's) \<Rightarrow> byte list \<Rightarrow> nat \<times> nat \<times> 's ppp_rx
    \<Rightarrow> nat \<times> nat \<times> 's ppp_rx" where
  "pppd_input_pass queue_packet pppd_rx_buf = (\<lambda>(bytes_read, count, p).
     let (rv, count, st, dst) = pppd_rfc1662_decode (ppp_rfc1662_state p)
           (drop bytes_read pppd_rx_buf) count (temp_pack_buf p) 2048;
         p = p\<lparr>ppp_rfc1662_state := st, temp_pack_buf := dst\<rparr>;
         p = (if 0 < rv then p\<lparr>ppp_user := queue_packet (ppp_user p) (take (nat rv) dst)\<rparr> else p)
     in (bytes_read + count, count, p))"

text \<open>
  \<open>pppd_input_cb\<close>: \<open>rd\<close> are the bytes the descriptor has, of which \<open>read\<close> delivers what the buffer
  \<open>pppd_rx_buf\<close> holds, or \<open>None\<close> when \<open>read\<close> fails.
\<close>

definition pppd_input_cb :: "('s \<Rightarrow> byte list \<Rightarrow> 's) \<Rightarrow> byte list option \<Rightarrow> 's ppp_rx
    \<Rightarrow> fault + int \<times> 's ppp_rx" where
  "pppd_input_cb queue_packet rd p =
     (case rd of
        None \<Rightarrow> Inr (-1, p)
      | Some bs \<Rightarrow>
          let pppd_rx_buf = take MAX_MTU bs in
          if pppd_rx_buf = [] then Inr (-1, p)
          else (case while_option (\<lambda>(bytes_read, count, p). bytes_read \<noteq> length pppd_rx_buf - 1)
                  (pppd_input_pass queue_packet pppd_rx_buf) (0, 0, p) of
              None \<Rightarrow> Inl Hang
            | Some (bytes_read, count, p) \<Rightarrow> Inr (0, p)))"

text \<open>
  The frame is built in \<open>pppd_tx_buf\<close> of \<open>MAX_MTU\<close> bytes, then written; \<open>rc\<close> is what \<open>write\<close>
  returns. The result is what \<open>write\<close> was given and what it took: after a short or failed write
  the rest of the frame is dropped, with a message on the standard error.
\<close>

definition pppd_input_raw_packet :: "int \<Rightarrow> byte list \<Rightarrow> fault + byte list \<times> byte list" where
  "pppd_input_raw_packet rc buf =
     (let out = pppd_rfc1662_encode buf
      in if length out \<le> MAX_MTU then Inr (out, took rc out) else Inl ArrayOverrun)"

end
