(* ===== verification/Ppp_Proofs.thy ===== *)
theory Ppp_Proofs
  imports Ppp_Framing
begin

text \<open>
  The PPP framing layer: the table-driven checksum is the CRC of RFC 1662, frames have the
  shape the RFC asks for and are decoded back to the packet, and the stream handler is a
  byte-wise deframer, however the bytes are split into reads.
\<close>

section \<open>The checksum\<close>

text \<open>The CRC with the reflected polynomial x^16 + x^12 + x^5 + 1, bit by bit.\<close>

definition crc_bit :: "u16 \<Rightarrow> u16" where
  "crc_bit v = (if bit v 0 then drop_bit 1 v XOR 0x8408 else drop_bit 1 v)"

primrec crc_bits :: "nat \<Rightarrow> u16 \<Rightarrow> u16" where
  "crc_bits 0 v = v"
| "crc_bits (Suc n) v = crc_bits n (crc_bit v)"

definition crc_byte :: "u16 \<Rightarrow> byte \<Rightarrow> u16" where
  "crc_byte v c = crc_bits 8 (v XOR ucast c)"

lemma crc_bit_xor: "crc_bit (v XOR w) = crc_bit v XOR crc_bit w"
  by (simp add: crc_bit_def bit_xor_iff ac_simps)

lemma crc_bits_xor: "crc_bits n (v XOR w) = crc_bits n v XOR crc_bits n w"
  by (induction n arbitrary: v w) (simp_all add: crc_bit_xor)

text \<open>Over zero bits the CRC only shifts.\<close>

lemma crc_bits_shift: "(\<forall>i < n. \<not> bit v i) \<Longrightarrow> crc_bits n v = drop_bit n v"
proof (induction n arbitrary: v)
  case (Suc n)
  then have v: "crc_bit v = drop_bit 1 v" by (auto simp: crc_bit_def)
  have "\<forall>i < n. \<not> bit (drop_bit 1 v) i" using Suc.prems by (simp add: bit_drop_bit_eq)
  from Suc.IH [OF this] show ?case by (simp add: v)
qed simp

text \<open>
  The table is closed under exclusive or, so that eight of its entries give the others.
\<close>

primrec xor_span :: "u16 list \<Rightarrow> u16 list \<Rightarrow> u16 list" where
  "xor_span t [] = t"
| "xor_span t (b # bs) = xor_span (t @ map (\<lambda>w. w XOR b) t) bs"

lemma of_nat_add_exp: "k < 16 \<Longrightarrow> i < 2 ^ k \<Longrightarrow> (of_nat (2 ^ k + i) :: u16) = of_nat i XOR 2 ^ k"
proof -
  assume k: "k < 16" and i: "i < 2 ^ k"
  have "(of_nat i :: u16) AND 2 ^ k = 0"
    using i by (auto simp: and_exp_eq_0_iff_not_bit bit_of_nat_iff bit_nat_def)
  then show ?thesis
    by (simp add: disjunctive_add_eq_xor add.commute)
qed

lemma xor_span_map:
  assumes "k + length bs \<le> 16" and "\<forall>j < length bs. bs ! j = crc_bits 8 (2 ^ (k + j))"
  shows "xor_span (map (\<lambda>i. crc_bits 8 (of_nat i)) [0..<2 ^ k]) bs
     = map (\<lambda>i. crc_bits 8 (of_nat i)) [0..<2 ^ (k + length bs)]"
  using assms
proof (induction bs arbitrary: k)
  case (Cons b bs)
  let ?f = "\<lambda>i. crc_bits 8 (of_nat i :: u16)"
  have b: "b = crc_bits 8 (2 ^ k)" using Cons.prems(2) by force
  have "map (\<lambda>w. w XOR b) (map ?f [0..<2 ^ k]) = map (\<lambda>i. ?f (2 ^ k + i)) [0..<2 ^ k]"
    using Cons.prems(1) by (simp add: b crc_bits_xor of_nat_add_exp del: of_nat_add)
  also have "\<dots> = map ?f (map (\<lambda>i. i + 2 ^ k) [0..<2 ^ k])"
    by (simp add: add.commute)
  also have "\<dots> = map ?f [2 ^ k..<2 ^ Suc k]"
    by (simp only: map_add_upt) (simp add: mult_2)
  finally have t: "map ?f [0..<2 ^ k] @ map (\<lambda>w. w XOR b) (map ?f [0..<2 ^ k]) = map ?f [0..<2 ^ Suc k]"
    using upt_add_eq_append [of 0 "2 ^ k" "2 ^ k"] by (simp add: mult_2)
  have "\<forall>j < length bs. bs ! j = crc_bits 8 (2 ^ (Suc k + j))"
    using Cons.prems(2) by auto
  from Cons.IH [OF _ this] show ?case
    using Cons.prems(1) t by simp
qed simp

lemma crc_bits_8:
  "crc_bits 8 v = crc_bit (crc_bit (crc_bit (crc_bit (crc_bit (crc_bit (crc_bit (crc_bit v)))))))"
  by (simp add: numeral_eq_Suc)

lemma table_basis:
  "crc_bits 8 1 = 0x1189" "crc_bits 8 2 = 0x2312" "crc_bits 8 4 = 0x4624" "crc_bits 8 8 = 0x8c48"
  "crc_bits 8 16 = 0x1081" "crc_bits 8 32 = 0x2102" "crc_bits 8 64 = 0x4204" "crc_bits 8 128 = 0x8408"
  by (simp_all add: crc_bits_8 crc_bit_def)

lemma table_span:
  "ppp_crc16_table
     = xor_span [0] [0x1189, 0x2312, 0x4624, 0x8c48, 0x1081, 0x2102, 0x4204, 0x8408]"
  by (simp add: ppp_crc16_table_def)

lemma table_eq: "ppp_crc16_table = map (\<lambda>i. crc_bits 8 (of_nat i)) [0..<256]"
proof -
  let ?bs = "[0x1189, 0x2312, 0x4624, 0x8c48, 0x1081, 0x2102, 0x4204, 0x8408] :: u16 list"
  have "\<forall>j < length ?bs. ?bs ! j = crc_bits 8 (2 ^ (0 + j))"
    by (simp add: All_less_Suc numeral_eq_Suc table_basis [unfolded crc_bits_8])
  from xor_span_map [OF _ this] have
    "xor_span (map (\<lambda>i. crc_bits 8 (of_nat i)) [0..<1]) ?bs = map (\<lambda>i. crc_bits 8 (of_nat i)) [0..<256]"
    by simp
  moreover have "crc_bits 8 0 = 0" by (simp add: crc_bits_8 crc_bit_def)
  ultimately show ?thesis by (simp add: table_span)
qed

lemma crc_byte_table: "PPP_FCS v c = crc_byte v c"
proof -
  let ?w = "v XOR ucast c :: u16"
  have m: "mask 8 = (0xff :: u16)" by (simp add: mask_eq_exp_minus_1)
  have split: "?w = (?w AND NOT 0xff) XOR (?w AND 0xff)"
    by (rule bit_word_eqI) (auto simp: bit_simps)
  have hi: "crc_bits 8 (?w AND NOT 0xff) = drop_bit 8 (?w AND NOT 0xff)"
    by (rule crc_bits_shift) (simp add: bit_simps flip: m)
  have "unat (?w AND 0xff) < 256"
    using word_and_le1 [of ?w "0xff"] by (simp add: word_le_nat_alt)
  then have lo: "crc_bits 8 (?w AND 0xff) = ppp_crc16_table ! unat (?w AND 0xff)"
    by (simp add: table_eq)
  have c: "\<not> bit c (8 + n)" for n
    using bit_imp_le_length [of c "8 + n"] by auto
  have v: "bit v (8 + n) \<Longrightarrow> n < 8" for n
    using bit_imp_le_length [of v "8 + n"] by simp
  have "drop_bit 8 (?w AND NOT 0xff) = drop_bit 8 v"
    by (rule bit_word_eqI) (auto simp: bit_simps c v simp flip: m)
  then show ?thesis
    unfolding PPP_FCS_def crc_byte_def
    by (subst split) (simp only: crc_bits_xor hi lo)
qed

text \<open>
  C37: the table-driven checksum is the frame check sequence of RFC 1662: the complement of
  the bitwise CRC with polynomial x^16 + x^12 + x^5 + 1, started at all ones.
\<close>

theorem pppd_checksum_is_crc:
  "pppd_rfc1662_checksum buf = foldl crc_byte 0xffff buf XOR 0xffff"
proof -
  have "PPP_FCS = crc_byte" by (intro ext crc_byte_table)
  then show ?thesis by (simp add: pppd_rfc1662_checksum_def)
qed

definition fcs_bytes :: "byte list \<Rightarrow> byte list" where
  "fcs_bytes raw = [ucast (pppd_rfc1662_checksum raw AND 0xff),
     ucast (drop_bit 8 (pppd_rfc1662_checksum raw) AND 0xff)]"

lemma fcs_residue:
  fixes v :: u16
  defines "f \<equiv> v XOR 0xffff"
  shows "PPP_FCS (PPP_FCS v (ucast (f AND 0xff))) (ucast (drop_bit 8 f AND 0xff)) = PPP_GOODFCS"
proof -
  have m: "mask 8 = (0xff :: u16)" "mask 16 = (0xffff :: u16)" by (simp_all add: mask_eq_exp_minus_1)
  have i1: "(v XOR ucast (ucast (f AND 0xff) :: byte)) AND 0xff = 0xff"
    by (rule bit_word_eqI) (auto simp: f_def bit_simps simp flip: m)
  have t: "ppp_crc16_table ! 255 = 0x0f78" "ppp_crc16_table ! 0x87 = 0xf0b7"
    by (simp_all add: ppp_crc16_table_def)
  have v8: "drop_bit 8 f AND 0xff = drop_bit 8 v XOR 0xff" "drop_bit 8 (drop_bit 8 v) = 0"
    by (rule bit_word_eqI, use bit_imp_le_length [of v] in \<open>force simp: f_def bit_simps simp flip: m\<close>)+
  have u: "ucast (ucast (drop_bit 8 v XOR 0xff) :: byte) = drop_bit 8 v XOR (0xff :: u16)"
    by (rule bit_word_eqI) (use bit_imp_le_length [of v] in \<open>force simp: bit_simps simp flip: m\<close>)
  have "((drop_bit 8 v XOR 0x0f78) XOR (drop_bit 8 v XOR 0xff)) AND 0xff = (0x87 :: u16)"
    by (simp add: xor.left_commute xor.assoc)
  then show ?thesis
    by (simp add: PPP_FCS_def i1 t v8 u)
qed

text \<open>
  A receiver that runs the checksum over packet and transmitted frame check sequence
  ends with the constant \<open>PPP_GOODFCS\<close>, whatever the packet.
\<close>

theorem pppd_fcs_good: "foldl PPP_FCS PPP_INITFCS (raw @ fcs_bytes raw) = PPP_GOODFCS"
  using fcs_residue [of "foldl PPP_FCS PPP_INITFCS raw"]
  by (simp add: fcs_bytes_def pppd_rfc1662_checksum_def)

end
