(* ===== verification/Ppp_Stream.thy ===== *)
theory Ppp_Stream
  imports Ppp_Proofs
begin

text \<open>
  Frames and byte streams: the encoder's output, the decoder as a refinement of a
  byte-wise deframer, and the handler for the bytes of one \<open>read\<close>.
\<close>

section \<open>Encoding\<close>

definition esc :: "byte \<Rightarrow> byte list" where
  "esc e = (if e < 0x20 \<or> e = PPP_ESCAPE \<or> e = PPP_FLAG then [PPP_ESCAPE, e XOR 0x20] else [e])"

lemma foldl_concat: "foldl (\<lambda>out x. out @ g x) out xs = out @ concat (map g xs)"
  by (induction xs arbitrary: out) simp_all

lemma encode_eq:
  "pppd_rfc1662_encode raw = PPP_FLAG # concat (map esc (raw @ fcs_bytes raw)) @ [PPP_FLAG]"
proof -
  let ?e = "\<lambda>x. if x < length raw then raw ! x
     else if x = length raw then ucast (pppd_rfc1662_checksum raw AND 0xff)
     else ucast (drop_bit 8 (pppd_rfc1662_checksum raw) AND 0xff)"
  have step: "(\<lambda>out x. let e = ?e x in if e < 0x20 \<or> e = PPP_ESCAPE \<or> e = PPP_FLAG
      then out @ [PPP_ESCAPE, e XOR 0x20] else out @ [e]) = (\<lambda>out x. out @ esc (?e x))"
    by (auto simp: fun_eq_iff esc_def Let_def)
  have "map ?e [0..<length raw] = raw" by (rule nth_equalityI) simp_all
  then have "map ?e [0..<length raw + 2] = raw @ fcs_bytes raw"
    by (simp add: fcs_bytes_def)
  then have "concat (map (\<lambda>x. esc (?e x)) [0..<length raw + 2]) = concat (map esc (raw @ fcs_bytes raw))"
    by (metis (no_types, lifting) map_map comp_def map_eq_conv)
  then show ?thesis
    unfolding pppd_rfc1662_encode_def Let_def [of "length raw"]
    by (simp only: Let_def [of "pppd_rfc1662_checksum raw"] Let_def [of "[PPP_FLAG]"] step foldl_concat)
       (simp add: Let_def)
qed

lemma esc_control_all:
  "\<forall>i\<in>set [0..<32]. of_nat i XOR 0x20 \<noteq> PPP_FLAG \<and> of_nat i XOR 0x20 \<noteq> PPP_ESCAPE \<and>
     0x20 \<le> (of_nat i XOR 0x20 :: byte)"
  by code_simp

lemma esc_control:
  assumes "e < 0x20 \<or> e = PPP_ESCAPE \<or> e = PPP_FLAG"
  shows "e XOR 0x20 \<noteq> PPP_FLAG \<and> e XOR 0x20 \<noteq> PPP_ESCAPE \<and> 0x20 \<le> e XOR 0x20"
proof (cases "e < 0x20")
  case True
  then have "unat e \<in> set [0..<32]" by (simp add: word_less_nat_alt)
  with esc_control_all have "of_nat (unat e) XOR 0x20 \<noteq> PPP_FLAG \<and> of_nat (unat e) XOR 0x20 \<noteq> PPP_ESCAPE \<and>
      0x20 \<le> (of_nat (unat e) XOR 0x20 :: byte)"
    by blast
  then show ?thesis by simp
qed (use assms in auto)

lemma esc_bytes: "x \<in> set (esc e) \<Longrightarrow> x \<noteq> PPP_FLAG \<and> 0x20 \<le> x"
  using esc_control [of e] by (auto simp: esc_def not_less split: if_splits)

lemma esc_length: "1 \<le> length (esc e)" "length (esc e) \<le> 2"
  by (simp_all add: esc_def)

lemma concat_esc_length:
  "length bs \<le> length (concat (map esc bs))" "length (concat (map esc bs)) \<le> 2 * length bs"
proof (induction bs)
  case (Cons b bs)
  { case 1 then show ?case using Cons.IH(1) esc_length(1) [of b] by simp }
  { case 2 then show ?case using Cons.IH(2) esc_length(2) [of b] by simp }
qed simp_all

text \<open>
  The shape of a frame. It starts and ends with the flag and has none in between; no
  control character is sent, so the line is transparent to the default control character
  map; and it is at most twice as long as packet and checksum, plus the two flags.
\<close>

theorem pppd_encode_shape:
  "\<exists>body. pppd_rfc1662_encode raw = PPP_FLAG # body @ [PPP_FLAG] \<and>
     (\<forall>b \<in> set body. b \<noteq> PPP_FLAG \<and> 0x20 \<le> b) \<and>
     length raw + 4 \<le> length (pppd_rfc1662_encode raw) \<and>
     length (pppd_rfc1662_encode raw) \<le> 2 * length raw + 6"
proof -
  have "\<forall>b \<in> set (concat (map esc (raw @ fcs_bytes raw))). b \<noteq> PPP_FLAG \<and> 0x20 \<le> b"
    using esc_bytes by auto
  moreover have "length (fcs_bytes raw) = 2" by (simp add: fcs_bytes_def)
  ultimately show ?thesis
    using concat_esc_length [of "raw @ fcs_bytes raw"]
    by (intro exI [of _ "concat (map esc (raw @ fcs_bytes raw))"]) (simp add: encode_eq del: map_append concat_append)
qed

theorem pppd_encode_shape_witness:
  "\<exists>body. pppd_rfc1662_encode [0x7e, 1] = PPP_FLAG # body @ [PPP_FLAG] \<and>
     (\<forall>b \<in> set body. b \<noteq> PPP_FLAG \<and> 0x20 \<le> b)"
  using pppd_encode_shape [of "[0x7e, 1]"] by blast

section \<open>A byte-wise deframer\<close>

text \<open>
  The specification of the decoder: the escape mask and the bytes collected so far, a
  packet for the flag that ends a frame of more than two bytes, no result when the frame
  is too long. As in the code, a flag after an escape is skipped and leaves the escape.
\<close>

type_synonym deframer = "byte \<times> byte list"

fun deframe :: "nat \<Rightarrow> byte \<Rightarrow> deframer \<Rightarrow> (byte list list \<times> deframer) option" where
  "deframe dsize ch (mk, acc) =
     (if ch = PPP_FLAG then
        if mk \<noteq> 0 then Some ([], mk, acc)
        else Some (if 2 < length acc then [take (length acc - 2) acc] else [], 0, [])
      else if ch = PPP_ESCAPE then Some ([], PPP_TRANS, acc)
      else if length acc < dsize then Some ([], 0, acc @ [ch XOR mk])
      else None)"

fun deframes :: "nat \<Rightarrow> byte list \<Rightarrow> deframer \<Rightarrow> (byte list list \<times> deframer) option" where
  "deframes dsize [] d = Some ([], d)"
| "deframes dsize (ch # chs) d =
     (case deframe dsize ch d of None \<Rightarrow> None
      | Some (out, d) \<Rightarrow> map_option (\<lambda>(out', d). (out @ out', d)) (deframes dsize chs d))"

lemma deframes_append:
  "deframes dsize (xs @ ys) d =
     (case deframes dsize xs d of None \<Rightarrow> None
      | Some (out, d) \<Rightarrow> map_option (\<lambda>(out', d). (out @ out', d)) (deframes dsize ys d))"
  by (induction xs arbitrary: d)
     (auto simp: map_option_case split: option.splits)

text \<open>The decoder's state and buffer represent a deframer state.\<close>

definition rx_rel :: "nat \<Rightarrow> rfc1662_vars \<Rightarrow> byte list \<Rightarrow> deframer \<Rightarrow> bool" where
  "rx_rel dsize st dst d \<longleftrightarrow> escape st = fst d \<and> deframed_bytes st = length (snd d) \<and>
     length dst = dsize \<and> length (snd d) \<le> dsize \<and> take (length (snd d)) dst = snd d"

text \<open>
  One call of the decoder: it runs to the byte that does not fit, to the end of the input,
  or to the flag that ends a frame.
\<close>

definition decode_post :: "nat \<Rightarrow> nat \<Rightarrow> byte list \<Rightarrow> nat \<Rightarrow> deframer
    \<Rightarrow> int \<times> nat \<times> rfc1662_vars \<times> byte list \<Rightarrow> bool" where
  "decode_post dsize i src count d r \<longleftrightarrow> (case r of (rv, count', st', dst') \<Rightarrow>
     (\<exists>pre ch post mk acc. src = pre @ ch # post \<and> deframes dsize pre d = Some ([], mk, acc) \<and>
        ch \<noteq> PPP_FLAG \<and> ch \<noteq> PPP_ESCAPE \<and> length acc = dsize \<and> rv < 0 \<and> count' = i + length pre \<and>
        rx_rel dsize st' dst' (0, acc)) \<or>
     (\<exists>d'. deframes dsize src d = Some ([], d') \<and> rv = 0 \<and>
        count' = (if src = [] then count else i + length src - 1) \<and> rx_rel dsize st' dst' d') \<or>
     (\<exists>pre post acc. src = pre @ PPP_FLAG # post \<and> deframes dsize pre d = Some ([], 0, acc) \<and>
        2 \<le> length acc \<and> rv = int (length acc - 2) \<and> count' = i + length pre \<and>
        take (length acc - 2) dst' = take (length acc - 2) acc \<and> rx_rel dsize st' dst' (0, [])))"

lemma decode_post_Cons:
  assumes "deframe dsize ch d = Some ([], d1)" and "decode_post dsize (Suc i) src i d1 r"
  shows "decode_post dsize i (ch # src) count d r"
proof -
  obtain rv count' st' dst' where r: "r = (rv, count', st', dst')" by (cases r)
  have d: "deframes dsize (ch # pre) d = deframes dsize pre d1" for pre
    using assms(1) by (simp add: option.map_id)
  from assms(2) show ?thesis
    unfolding decode_post_def r prod.case
  proof (elim disjE exE conjE, goal_cases)
    case (1 pre x post mk acc)
    then show ?case
      by (intro disjI1 exI [of _ "ch # pre"] exI [of _ x] exI [of _ post] exI [of _ mk] exI [of _ acc])
         (simp add: d del: deframes.simps)
  next
    case (2 d')
    then show ?case
      by (intro disjI2 [OF disjI1] exI [of _ d']) (simp add: d del: deframes.simps)
  next
    case (3 pre post acc)
    then show ?case
      by (intro disjI2 [OF disjI2] exI [of _ "ch # pre"] exI [of _ post] exI [of _ acc])
         (simp add: d del: deframes.simps)
  qed
qed

lemma decode_loop_post:
  "rx_rel dsize st dst d \<Longrightarrow>
   decode_post dsize i src count d (rfc1662_decode_loop dsize i src count st dst)"
proof (induction dsize i src count st dst arbitrary: d rule: rfc1662_decode_loop.induct)
  case (1 dsize i count st dst)
  then show ?case by (simp add: decode_post_def)
next
  case (2 dsize i ch src count st dst)
  obtain mk acc where d: "d = (mk, acc)" by (cases d)
  note rel = 2(6) [unfolded d rx_rel_def, simplified]
  consider (escaped) "ch = PPP_FLAG" "mk \<noteq> 0" | (frame) "ch = PPP_FLAG" "mk = 0" "2 \<le> length acc"
    | (one) "ch = PPP_FLAG" "mk = 0" "length acc = 1" | (start) "ch = PPP_FLAG" "mk = 0" "acc = []"
    | (escape) "ch = PPP_ESCAPE" | (data) "ch \<noteq> PPP_FLAG" "ch \<noteq> PPP_ESCAPE" "length acc < dsize"
    | (over) "ch \<noteq> PPP_FLAG" "ch \<noteq> PPP_ESCAPE" "length acc = dsize"
    using rel by (cases acc; cases "tl acc") force+
  then show ?case
  proof cases
    case escaped
    then have "decode_post dsize (Suc i) src i (mk, acc) (rfc1662_decode_loop dsize (Suc i) src i st dst)"
      using 2(1) [of "(mk, acc)"] 2(6) rel d by (simp add: rx_rel_def)
    from decode_post_Cons [OF _ this, of ch d count] show ?thesis
      using escaped rel d by simp
  next
    case frame
    then have r: "rfc1662_decode_loop dsize i (ch # src) count st dst
        = (int (length acc - 2), i, \<lparr>deframed_bytes = 0, escape = 0\<rparr>, dst)"
      using rel by simp
    have "take (length acc - 2) dst = take (length acc - 2) acc"
      using rel by (metis take_take min.absorb1 diff_le_self)
    then show ?thesis
      using frame rel d unfolding decode_post_def r prod.case
      by (intro disjI2 [OF disjI2] exI [of _ "[]"] exI [of _ src] exI [of _ acc])
         (simp add: rx_rel_def)
  next
    case one
    then have "decode_post dsize (Suc i) src i (0, []) (rfc1662_decode_loop dsize (Suc i) src i (st\<lparr>deframed_bytes := 0\<rparr>) dst)"
      using 2(2) [of "(0, [])"] 2(6) rel d by (simp add: rx_rel_def)
    from decode_post_Cons [OF _ this, of ch d count] show ?thesis
      using one rel d by simp
  next
    case start
    then have "decode_post dsize (Suc i) src i (0, []) (rfc1662_decode_loop dsize (Suc i) src i st dst)"
      using 2(3) [of "(0, [])"] 2(6) rel d by (simp add: rx_rel_def)
    from decode_post_Cons [OF _ this, of ch d count] show ?thesis
      using start rel d by simp
  next
    case escape
    then have "decode_post dsize (Suc i) src i (0x20, acc) (rfc1662_decode_loop dsize (Suc i) src i (st\<lparr>escape := 0x20\<rparr>) dst)"
      using 2(4) [of "(0x20, acc)"] 2(6) rel d by (simp add: rx_rel_def)
    from decode_post_Cons [OF _ this, of ch d count] show ?thesis
      using escape rel d by simp
  next
    case data
    then have "decode_post dsize (Suc i) src i (0, acc @ [ch XOR mk]) (rfc1662_decode_loop dsize (Suc i) src i (st\<lparr>escape := 0, deframed_bytes := Suc (length acc)\<rparr>) (dst[length acc := ch XOR mk]))"
      using 2(5) [OF _ _ refl refl, of "(0, acc @ [ch XOR mk])"] 2(6) rel d by (simp add: rx_rel_def take_Suc_conv_app_nth)
    from decode_post_Cons [OF _ this, of ch d count] show ?thesis
      using data rel d by simp
  next
    case over
    then have r: "rfc1662_decode_loop dsize i (ch # src) count st dst = (- EINVAL, i, st\<lparr>escape := 0\<rparr>, dst)"
      using rel by simp
    show ?thesis
      using over rel d unfolding decode_post_def r prod.case
      by (intro disjI1 exI [of _ "[]"] exI [of _ ch] exI [of _ src] exI [of _ mk] exI [of _ acc])
         (simp add: rx_rel_def)
  qed
qed

end
