(* ===== verification/Ppp_Input.thy ===== *)
theory Ppp_Input
  imports Ppp_Stream
begin

text \<open>
  The stream handler \<open>pppd_input_cb\<close> refines the byte-wise deframer, across any split of
  the stream into reads of at least two bytes, and at most the 2048 of the read buffer; encoding and deframing are inverse; and
  the two ways in which the handler loses data or never returns.
\<close>

abbreviation pass_guard :: "byte list \<Rightarrow> nat \<times> nat \<times> 's ppp_rx \<Rightarrow> bool" where
  "pass_guard buf \<equiv> \<lambda>(bytes_read, count, p). bytes_read \<noteq> length buf - 1"

definition rx_ok :: "'s ppp_rx \<Rightarrow> deframer \<Rightarrow> bool" where
  "rx_ok p d \<longleftrightarrow> rx_rel 2048 (ppp_rfc1662_state p) (temp_pack_buf p) d"

lemma deframes_flag: "deframes dsize (PPP_FLAG # post) (0, []) = deframes dsize post (0, [])"
  by (simp add: option.map_id)

text \<open>One pass of the loop, by what the decoder found.\<close>

lemma pass_cases:
  assumes "rx_ok p d" and rem: "drop br buf = rem"
  obtains (over) pre ch post mk acc p' where "rem = pre @ ch # post"
      "deframes 2048 pre d = Some ([], mk, acc)" "ch \<noteq> PPP_FLAG" "ch \<noteq> PPP_ESCAPE"
      "length acc = 2048" "rx_ok p' (0, acc)"
      "pppd_input_pass q buf (br, cnt, p) = (br + length pre, length pre, p')"
  | (fin) d' p' where "deframes 2048 rem d = Some ([], d')" "rx_ok p' d'" "ppp_user p' = ppp_user p"
      "rem \<noteq> [] \<Longrightarrow> pppd_input_pass q buf (br, cnt, p) = (br + (length rem - 1), length rem - 1, p')"
  | (frame) pre post acc p' where "rem = pre @ PPP_FLAG # post"
      "deframes 2048 pre d = Some ([], 0, acc)" "2 \<le> length acc" "rx_ok p' (0, [])"
      "ppp_user p' = foldl q (ppp_user p) (if 2 < length acc then [take (length acc - 2) acc] else [])"
      "pppd_input_pass q buf (br, cnt, p) = (br + length pre, length pre, p')"
proof -
  obtain rv count' st' dst' where r: "pppd_rfc1662_decode (ppp_rfc1662_state p) rem cnt (temp_pack_buf p) 2048
      = (rv, count', st', dst')"
    by (cases "pppd_rfc1662_decode (ppp_rfc1662_state p) rem cnt (temp_pack_buf p) 2048")
  let ?p = "p\<lparr>ppp_rfc1662_state := st', temp_pack_buf := dst'\<rparr>"
  let ?q = "if 0 < rv then ?p\<lparr>ppp_user := q (ppp_user p) (take (nat rv) dst')\<rparr> else ?p"
  have pass: "pppd_input_pass q buf (br, cnt, p) = (br + count', count', ?q)"
    using r rem by (simp add: pppd_input_pass_def)
  have "decode_post 2048 0 rem cnt d (rv, count', st', dst')"
    using decode_loop_post [of 2048 "ppp_rfc1662_state p" "temp_pack_buf p" d 0 rem cnt] assms(1) r
    by (simp add: rx_ok_def pppd_rfc1662_decode_def)
  then show ?thesis
    unfolding decode_post_def prod.case
  proof (elim disjE exE conjE, goal_cases)
    case (1 pre ch post mk acc)
    then show ?thesis by (intro over [of pre ch post mk acc ?q]) (simp_all add: pass rx_ok_def)
  next
    case (2 d')
    then show ?thesis by (intro fin [of d' ?q]) (simp_all add: pass rx_ok_def)
  next
    case (3 pre post acc)
    have n: "nat rv = length acc - 2" and rv: "0 < rv \<longleftrightarrow> 2 < length acc"
      using 3(4) by (simp_all only: nat_int) auto
    show ?thesis
      using 3(1-3,5-7) by (intro frame [of pre post acc ?q]) (simp_all add: pass rx_ok_def n rv)
  qed
qed

text \<open>The loop, when every frame fits.\<close>

lemma input_loop:
  assumes "br + 2 \<le> length buf" and "rx_ok p d" and "deframes 2048 (drop br buf) d = Some (out, d')"
  shows "\<exists>br' cnt' p'. while_option (pass_guard buf) (pppd_input_pass q buf) (br, cnt, p) = Some (br', cnt', p') \<and>
    rx_ok p' d' \<and> ppp_user p' = foldl q (ppp_user p) out"
  using assms
proof (induction "2 * (length buf - br) + (if 2 \<le> length (snd d) then 1 else 0)"
    arbitrary: br cnt p d out rule: less_induct)
  case less
  let ?rem = "drop br buf"
  have g: "pass_guard buf (br, cnt, p)" using less.prems(1) by simp
  have len: "length ?rem = length buf - br" "2 \<le> length ?rem" using less.prems(1) by simp_all
  show ?case
  proof (rule pass_cases [OF less.prems(2) refl [of ?rem], of q cnt])
    fix pre ch post mk acc p'
    assume "?rem = pre @ ch # post" "deframes 2048 pre d = Some ([], mk, acc)" "ch \<noteq> PPP_FLAG"
      "ch \<noteq> PPP_ESCAPE" "length acc = 2048"
    then have "deframes 2048 ?rem d = None" by (simp add: deframes_append)
    with less.prems(3) show ?thesis by simp
  next
    fix d1 p'
    assume *: "deframes 2048 ?rem d = Some ([], d1)" "rx_ok p' d1" "ppp_user p' = ppp_user p"
      "?rem \<noteq> [] \<Longrightarrow> pppd_input_pass q buf (br, cnt, p) = (br + (length ?rem - 1), length ?rem - 1, p')"
    have "br + (length ?rem - 1) = length buf - 1" using less.prems(1) by simp
    then have "while_option (pass_guard buf) (pppd_input_pass q buf) (br, cnt, p)
        = Some (length buf - 1, length ?rem - 1, p')"
      using g * len by (subst while_option_unfold) (auto simp: while_option_unfold)
    with * less.prems(3) show ?thesis by auto
  next
    fix pre post acc p'
    assume *: "?rem = pre @ PPP_FLAG # post" "deframes 2048 pre d = Some ([], 0, acc)" "2 \<le> length acc"
      "rx_ok p' (0, [])"
      "ppp_user p' = foldl q (ppp_user p) (if 2 < length acc then [take (length acc - 2) acc] else [])"
      "pppd_input_pass q buf (br, cnt, p) = (br + length pre, length pre, p')"
    have w: "while_option (pass_guard buf) (pppd_input_pass q buf) (br, cnt, p)
        = while_option (pass_guard buf) (pppd_input_pass q buf) (br + length pre, length pre, p')"
      using g *(6) by (subst while_option_unfold) simp
    obtain out' where out': "deframes 2048 post (0, []) = Some (out', d')"
      and out: "out = (if 2 < length acc then [take (length acc - 2) acc] else []) @ out'"
      using less.prems(3) *(1,2) by (auto simp: deframes_append split: if_splits)
    have "drop (br + length pre) buf = drop (length pre) ?rem" by (simp add: add.commute)
    then have dr: "drop (br + length pre) buf = PPP_FLAG # post" unfolding *(1) by simp
    have "length ?rem = length (pre @ PPP_FLAG # post)" unfolding *(1) ..
    then have lb: "length buf = br + length pre + Suc (length post)"
      using less.prems(1) by simp
    show ?thesis
    proof (cases "post = []")
      case True
      then have "br + length pre = length buf - 1" using lb by simp
      with True w out out' *(4,5) show ?thesis
        by (auto simp: while_option_unfold)
    next
      case False
      have "2 * (length buf - (br + length pre)) + (if 2 \<le> length (snd (0 :: byte, [] :: byte list)) then 1 else 0)
          < 2 * (length buf - br) + (if 2 \<le> length (snd d) then 1 else 0)"
        using *(2,3) lb by (cases pre) auto
      from less.hyps [OF this _ *(4), of out'] False lb dr out' show ?thesis
        unfolding w out using *(5) by (simp add: deframes_flag del: deframes.simps) (cases post; force)
    qed
  qed
qed

text \<open>The loop, when a frame does not fit and this shows before the last byte.\<close>

lemma while_stuck: "b s \<Longrightarrow> c s = s \<Longrightarrow> while_option b c s = None"
proof -
  assume "b s" and "c s = s"
  then have "(c ^^ k) s = s" for k by (induction k) simp_all
  with \<open>b s\<close> show ?thesis by (simp add: while_option_def)
qed

lemma pass_over:
  assumes "rx_ok p (0, acc)" and "length acc = 2048" and "drop br buf = ch # post"
    and "ch \<noteq> PPP_FLAG" and "ch \<noteq> PPP_ESCAPE"
  shows "pppd_input_pass q buf (br, cnt, p) = (br, 0, p)"
proof -
  have "ppp_rfc1662_state p = \<lparr>deframed_bytes = 2048, escape = 0\<rparr>"
    using assms(1,2) by (simp add: rx_ok_def rx_rel_def)
  with assms(3-5) show ?thesis
    by (simp add: pppd_input_pass_def pppd_rfc1662_decode_def)
qed

lemma input_loop_hang:
  assumes "br + 2 \<le> length buf" and "rx_ok p d" and "deframes 2048 (butlast (drop br buf)) d = None"
  shows "while_option (pass_guard buf) (pppd_input_pass q buf) (br, cnt, p) = None"
  using assms
proof (induction "2 * (length buf - br) + (if 2 \<le> length (snd d) then 1 else 0)"
    arbitrary: br cnt p d rule: less_induct)
  case less
  let ?rem = "drop br buf"
  have g: "pass_guard buf (br, cnt, p)" using less.prems(1) by simp
  show ?case
  proof (rule pass_cases [OF less.prems(2) refl [of ?rem], of q cnt])
    fix pre ch post mk acc p'
    assume *: "?rem = pre @ ch # post" "deframes 2048 pre d = Some ([], mk, acc)" "ch \<noteq> PPP_FLAG"
      "ch \<noteq> PPP_ESCAPE" "length acc = 2048" "rx_ok p' (0, acc)"
      "pppd_input_pass q buf (br, cnt, p) = (br + length pre, length pre, p')"
    have "post \<noteq> []" using less.prems(3) *(1,2) by (auto simp: butlast_append)
    have "length ?rem = length (pre @ ch # post)" unfolding *(1) ..
    then have lb: "br + length pre \<noteq> length buf - 1"
      using less.prems(1) \<open>post \<noteq> []\<close> by (cases post) auto
    have "drop (br + length pre) buf = drop (length pre) ?rem" by (simp add: add.commute)
    then have dr: "drop (br + length pre) buf = ch # post" unfolding *(1) by simp
    note over = pass_over [OF *(6,5) dr *(3,4)]
    have "while_option (pass_guard buf) (pppd_input_pass q buf) (br + length pre, 0, p') = None"
      using lb over by (intro while_stuck) simp_all
    moreover have "while_option (pass_guard buf) (pppd_input_pass q buf) (br + length pre, length pre, p')
        = while_option (pass_guard buf) (pppd_input_pass q buf) (br + length pre, 0, p')"
      using lb over by (subst while_option_unfold) simp
    ultimately show ?thesis
      using g *(7) by (subst while_option_unfold) simp
  next
    fix d1 p'
    assume "deframes 2048 ?rem d = Some ([], d1)"
    moreover have "?rem \<noteq> []" using less.prems(1) by simp
    ultimately have "deframes 2048 (butlast ?rem @ [last ?rem]) d = Some ([], d1)"
      by (metis append_butlast_last_id)
    then show ?thesis
      unfolding deframes_append less.prems(3) by simp
  next
    fix pre post acc p'
    assume *: "?rem = pre @ PPP_FLAG # post" "deframes 2048 pre d = Some ([], 0, acc)" "2 \<le> length acc"
      "rx_ok p' (0, [])" "pppd_input_pass q buf (br, cnt, p) = (br + length pre, length pre, p')"
    have w: "while_option (pass_guard buf) (pppd_input_pass q buf) (br, cnt, p)
        = while_option (pass_guard buf) (pppd_input_pass q buf) (br + length pre, length pre, p')"
      using g *(5) by (subst while_option_unfold) simp
    have "drop (br + length pre) buf = drop (length pre) ?rem" by (simp add: add.commute)
    then have dr: "drop (br + length pre) buf = PPP_FLAG # post" unfolding *(1) by simp
    have "length ?rem = length (pre @ PPP_FLAG # post)" unfolding *(1) ..
    then have lb: "length buf = br + length pre + Suc (length post)"
      using less.prems(1) by simp
    have ne: "post \<noteq> []" using less.prems(3) *(1,2) by (auto simp: butlast_append)
    then have "deframes 2048 (butlast post) (0, []) = None"
      using less.prems(3) *(1,2) by (auto simp: butlast_append deframes_append option.map_id split: if_splits)
    then have "deframes 2048 (butlast (drop (br + length pre) buf)) (0, []) = None"
      using ne unfolding dr by (simp add: deframes_flag del: deframes.simps)
    moreover have "2 * (length buf - (br + length pre)) + (if 2 \<le> length (snd (0 :: byte, [] :: byte list)) then 1 else 0)
        < 2 * (length buf - br) + (if 2 \<le> length (snd d) then 1 else 0)"
      using *(2,3) lb by (cases pre) auto
    moreover have "br + length pre + 2 \<le> length buf" using lb ne by (cases post) auto
    ultimately show ?thesis
      unfolding w using less.hyps [OF _ _ *(4)] by blast
  qed
qed

section \<open>Reads\<close>

lemma input_deframes:
  "rx_ok p d \<Longrightarrow> 2 \<le> length buf \<Longrightarrow> length buf \<le> MAX_MTU \<Longrightarrow> deframes 2048 buf d = Some (out, d') \<Longrightarrow>
   \<exists>p'. pppd_input_cb q (Some buf) p = Inr (0, p') \<and> rx_ok p' d' \<and> ppp_user p' = foldl q (ppp_user p) out"
proof -
  assume a: "rx_ok p d" "2 \<le> length buf" "length buf \<le> MAX_MTU" "deframes 2048 buf d = Some (out, d')"
  obtain br' cnt' p' where
    "while_option (pass_guard buf) (pppd_input_pass q buf) (0, 0, p) = Some (br', cnt', p')"
    "rx_ok p' d'" "ppp_user p' = foldl q (ppp_user p) out"
    using input_loop [of 0 buf p d out d' q 0] a by auto
  moreover have "buf \<noteq> []" using a(2) by auto
  ultimately show ?thesis using a(3) by (simp add: pppd_input_cb_def)
qed

text \<open>
  C15: the stream handler is a deframer. When a read delivers at least two bytes, and at most the
  2048 of its buffer, and they contain no frame longer than the packet buffer, \<open>pppd_input_cb\<close> returns, has handed to the packet
  handler exactly the packets of the frames completed in them, in order, and represents
  the deframer's state after the last byte.
\<close>

theorem pppd_input_deframes:
  assumes "rx_ok p d" and "2 \<le> length buf" and "length buf \<le> MAX_MTU"
    and "deframes 2048 buf d = Some (out, d')"
  shows "\<exists>p'. pppd_input_cb q (Some buf) p = Inr (0, p') \<and> rx_ok p' d' \<and>
    ppp_user p' = foldl q (ppp_user p) out"
  using assms by (rule input_deframes)

definition lab_rx0 :: "byte list list ppp_rx" where
  "lab_rx0 = \<lparr>ppp_rfc1662_state = \<lparr>deframed_bytes = 0, escape = 0\<rparr>,
     temp_pack_buf = replicate 2048 0, ppp_user = []\<rparr>"

lemma lab_rx0_ok: "rx_ok lab_rx0 (0, [])"
  by (simp add: rx_ok_def rx_rel_def lab_rx0_def)

theorem pppd_input_deframes_witness:
  "\<exists>p'. pppd_input_cb (\<lambda>ps x. ps @ [x]) (Some [0x7e, 0x41, 0x7d, 0x5e, 9, 9, 0x7e]) lab_rx0 = Inr (0, p') \<and>
     rx_ok p' (0, []) \<and> ppp_user p' = [[0x41, 0x7e]]"
proof -
  have "deframes 2048 [0x7e, 0x41, 0x7d, 0x5e, 9, 9, 0x7e] (0, []) = Some ([[0x41, 0x7e]], (0, []))"
    by code_simp
  from pppd_input_deframes [OF lab_rx0_ok _ _ this, of "\<lambda>ps x. ps @ [x]"] show ?thesis
    by (simp add: lab_rx0_def)
qed

text \<open>
  C39: the handler never returns when a frame outgrows the packet buffer before the last
  byte of a read: the decoder reports the error without consuming the byte, and the loop
  hands it the same byte again.
\<close>

theorem pppd_input_overlong_hangs:
  assumes "rx_ok p d" and "2 \<le> length buf" and "length buf \<le> MAX_MTU"
    and "deframes 2048 (butlast buf) d = None"
  shows "pppd_input_cb q (Some buf) p = Inl Hang"
proof -
  have "buf \<noteq> []" using assms(2) by auto
  then show ?thesis
    using input_loop_hang [of 0 buf p d q 0] assms by (simp add: pppd_input_cb_def)
qed

lemma deframes_data:
  "\<forall>b\<in>set bs. b \<noteq> PPP_FLAG \<and> b \<noteq> PPP_ESCAPE \<Longrightarrow>
   deframes dsize bs (0, acc) = (if length acc + length bs \<le> dsize \<or> bs = [] then Some ([], 0, acc @ bs) else None)"
  by (induction bs arbitrary: acc) (auto simp: option.map_id)

theorem pppd_input_overlong_hangs_witness:
  "\<exists>p. pppd_input_cb (\<lambda>ps x. ps @ [x]) (Some (replicate 2048 0x41)) lab_rx0 = Inr (0, p) \<and>
     pppd_input_cb (\<lambda>ps x. ps @ [x]) (Some [0x41, 0x41]) p = Inl Hang"
proof -
  have "deframes 2048 (replicate 2048 0x41) (0, []) = Some ([], 0, replicate 2048 0x41)"
    by (simp add: deframes_data del: deframes.simps)
  from input_deframes [OF lab_rx0_ok _ _ this, of "\<lambda>ps x. ps @ [x]"]
  obtain p where p: "pppd_input_cb (\<lambda>ps x. ps @ [x]) (Some (replicate 2048 0x41)) lab_rx0 = Inr (0, p)"
    "rx_ok p (0, replicate 2048 0x41)" by auto
  have "deframes 2048 (butlast [0x41, 0x41]) (0, replicate 2048 0x41) = None" by simp
  from pppd_input_overlong_hangs [OF p(2) _ _ this, of "\<lambda>ps x. ps @ [x]"] p(1) show ?thesis by simp
qed

section \<open>Round trip\<close>

lemma deframes_esc:
  assumes "length acc < dsize"
  shows "deframes dsize (esc e) (0, acc) = Some ([], 0, acc @ [e])"
proof (cases "e < 0x20 \<or> e = PPP_ESCAPE \<or> e = PPP_FLAG")
  case True
  then have "esc e = [PPP_ESCAPE, e XOR 0x20]" by (auto simp: esc_def)
  with esc_control [OF True] assms show ?thesis by (simp add: xor.assoc)
qed (use assms in \<open>simp add: esc_def\<close>)

lemma deframes_escs:
  "length acc + length bs \<le> dsize \<Longrightarrow>
   deframes dsize (concat (map esc bs)) (0, acc) = Some ([], 0, acc @ bs)"
  by (induction bs arbitrary: acc) (simp_all add: deframes_append deframes_esc option.map_id del: deframe.simps)

lemma deframes_encode:
  assumes "length raw + 2 \<le> dsize"
  shows "deframes dsize (pppd_rfc1662_encode raw) (0, []) = Some (if raw = [] then [] else [raw], 0, [])"
proof -
  have f: "length (fcs_bytes raw) = 2" by (simp add: fcs_bytes_def)
  then have "deframes dsize (concat (map esc (raw @ fcs_bytes raw))) (0, []) = Some ([], 0, raw @ fcs_bytes raw)"
    using assms deframes_escs [of "[]" "raw @ fcs_bytes raw" dsize] by simp
  with f show ?thesis
    unfolding encode_eq by (simp add: deframes_append option.map_id del: map_append concat_append)
qed

lemma deframes_encodes:
  "\<forall>raw\<in>set raws. raw \<noteq> [] \<and> length raw + 2 \<le> dsize \<Longrightarrow>
   deframes dsize (concat (map pppd_rfc1662_encode raws)) (0, []) = Some (raws, 0, [])"
  by (induction raws) (simp_all add: deframes_append deframes_encode del: deframe.simps)

text \<open>The bytes of a stream as a sequence of reads.\<close>

primrec pppd_reads :: "('s \<Rightarrow> byte list \<Rightarrow> 's) \<Rightarrow> byte list list \<Rightarrow> 's ppp_rx \<Rightarrow> fault + 's ppp_rx" where
  "pppd_reads q [] p = Inr p"
| "pppd_reads q (buf # bufs) p =
     (case pppd_input_cb q (Some buf) p of Inl e \<Rightarrow> Inl e | Inr (rc, p) \<Rightarrow> pppd_reads q bufs p)"

lemma reads_deframe:
  assumes "rx_ok p d" and "\<forall>buf\<in>set bufs. 2 \<le> length buf \<and> length buf \<le> MAX_MTU"
    and "deframes 2048 (concat bufs) d = Some (out, d')"
  shows "\<exists>p'. pppd_reads q bufs p = Inr p' \<and> rx_ok p' d' \<and> ppp_user p' = foldl q (ppp_user p) out"
  using assms
proof (induction bufs arbitrary: p d out)
  case (Cons buf bufs)
  from Cons.prems(3) obtain o1 d1 o2 where d1: "deframes 2048 buf d = Some (o1, d1)"
    "deframes 2048 (concat bufs) d1 = Some (o2, d')" and out: "out = o1 @ o2"
    by (auto simp: deframes_append split: option.splits)
  have "2 \<le> length buf" "length buf \<le> MAX_MTU" using Cons.prems(2) by simp_all
  from input_deframes [OF Cons.prems(1) this d1(1), of q] obtain p1 where
    "pppd_input_cb q (Some buf) p = Inr (0, p1)" "rx_ok p1 d1" "ppp_user p1 = foldl q (ppp_user p) o1"
    by blast
  with Cons.IH [OF _ _ d1(2), of p1] Cons.prems(2) out show ?case by auto
qed simp

text \<open>
  C4: packets survive the line. The frames that \<open>pppd_rfc1662_encode\<close> makes of a list of
  packets, none empty and none longer than the packet buffer less the checksum, arriving
  in any reads of two to 2048 bytes, the size of the read buffer, are handed to the packet
  handler as exactly these packets, in order.
\<close>

theorem pppd_roundtrip:
  assumes "rx_ok p (0, [])" and "\<forall>raw\<in>set raws. raw \<noteq> [] \<and> length raw \<le> 2046"
    and "concat bufs = concat (map pppd_rfc1662_encode raws)"
    and "\<forall>buf\<in>set bufs. 2 \<le> length buf \<and> length buf \<le> MAX_MTU"
  shows "\<exists>p'. pppd_reads q bufs p = Inr p' \<and> rx_ok p' (0, []) \<and> ppp_user p' = foldl q (ppp_user p) raws"
proof -
  have "deframes 2048 (concat bufs) (0, []) = Some (raws, 0, [])"
    unfolding assms(3) using assms(2) by (intro deframes_encodes) auto
  from reads_deframe [OF assms(1,4) this] show ?thesis .
qed

theorem pppd_roundtrip_witness:
  "\<exists>p'. pppd_reads (\<lambda>ps x. ps @ [x])
        [take 3 (pppd_rfc1662_encode [0x7e, 1]), drop 3 (pppd_rfc1662_encode [0x7e, 1])] lab_rx0 = Inr p' \<and>
     rx_ok p' (0, []) \<and> ppp_user p' = [[0x7e, 1]]"
proof -
  let ?e = "pppd_rfc1662_encode [0x7e, 1]"
  have l: "6 \<le> length ?e" "length ?e \<le> 10"
    unfolding encode_eq using concat_esc_length [of "[0x7e, 1] @ fcs_bytes [0x7e, 1]"]
    by (simp_all add: fcs_bytes_def del: map_append concat_append)
  have "2 \<le> length ?e - 3" using l(1) by linarith
  with l have "\<forall>buf\<in>set [take 3 ?e, drop 3 ?e]. 2 \<le> length buf \<and> length buf \<le> MAX_MTU" by simp
  from pppd_roundtrip [OF lab_rx0_ok _ _ this, of "[[0x7e, 1]]" "\<lambda>ps x. ps @ [x]"] show ?thesis
    by (simp add: lab_rx0_def)
qed

text \<open>
  A read of a single byte is lost. The loop condition compares with the index of the
  last byte, so that the decoder never sees the byte of a one-byte read.
\<close>

theorem pppd_single_byte_lost: "pppd_input_cb q (Some [b]) p = Inr (0, p)"
  by (simp add: pppd_input_cb_def while_option_unfold)

text \<open>An encoded packet against the size of the transmit buffer.\<close>

lemma encode_length:
  "length (pppd_rfc1662_encode raw)
     = length (concat (map esc raw)) + length (concat (map esc (fcs_bytes raw))) + 2"
  by (simp add: encode_eq)

lemma raw_packet_fits:
  "length raw \<le> 1021 \<Longrightarrow> pppd_input_raw_packet rc raw = Inr (pppd_rfc1662_encode raw, took rc (pppd_rfc1662_encode raw))"
  using encode_length [of raw] concat_esc_length(2) [of raw] concat_esc_length(2) [of "fcs_bytes raw"]
  by (simp add: pppd_input_raw_packet_def Let_def fcs_bytes_def)

text \<open>
  The transmit buffer. A packet of at most 1021 bytes always fits it after encoding; a
  packet of 1023 or more control characters, each of which takes two bytes, is written
  past its end, although packets of up to 4091 bytes reach the routine.
\<close>

theorem pppd_tx_bound:
  "(length raw \<le> 1021 \<longrightarrow>
      pppd_input_raw_packet rc raw = Inr (pppd_rfc1662_encode raw, took rc (pppd_rfc1662_encode raw))) \<and>
   (1023 \<le> length raw \<and> (\<forall>b\<in>set raw. b < 0x20) \<longrightarrow> pppd_input_raw_packet rc raw = Inl ArrayOverrun)"
proof -
  have "2048 < length (pppd_rfc1662_encode raw)" if "1023 \<le> length raw" "\<forall>b\<in>set raw. b < 0x20"
  proof -
    have "length (concat (map esc raw)) = 2 * length raw"
      using that(2) by (induction raw) (simp_all add: esc_def)
    then show ?thesis
      using that(1) encode_length [of raw] concat_esc_length(1) [of "fcs_bytes raw"]
      by (simp add: fcs_bytes_def)
  qed
  then show ?thesis
    using raw_packet_fits [of raw rc] by (simp add: pppd_input_raw_packet_def Let_def not_le [symmetric])
qed

theorem pppd_tx_bound_witness:
  "pppd_input_raw_packet 3002 (replicate 1500 0) = Inl ArrayOverrun"
  using pppd_tx_bound [of "replicate 1500 0" 3002] by simp

end
