(* ===== verification/Ppp_Call.thy ===== *)
theory Ppp_Call
  imports Ppp_Input Isdn_Line Gsmtap
begin

text \<open>
  The HDLC PPP call handler, \<open>src/yate_hdlc_ppp.c\<close>: packets from the pppd process are queued
  for the ISDN channel, and every buffer of samples is decoded into frames for pppd and
  filled with the packets of the queue. Copies of the packets go to the packet capture. What
  the writes to pppd returned is a parameter: \<open>W n\<close> is the result of the write number \<open>n\<close>.
\<close>

section \<open>State\<close>

text \<open>
  The globals of the handler. \<open>pppd_writes\<close> is the history of what was handed to \<open>write\<close> for pppd,
  and \<open>pppd_written\<close> that of the bytes it took.
\<close>

record ('m, 'q, 'h) ppp_call =
  ppp_line :: "('m, 'q, 'h) hdlc_line"
  ppp_hdlc_rx :: 'h
  ppp_hdlc_rx_buf :: "byte list"
  pppd_writes :: "byte list list"
  pppd_written :: "byte list"
  ppp_gsmtap :: gsmtap

section \<open>From pppd to the line\<close>

text \<open>
  \<open>junk\<close> is the byte behind a packet of a single byte in the packet buffer, which the check
  for the address and control header reads.
\<close>

definition handle_incoming_ppp_packet ::
    "('m, 'q, 't) osmo_api \<Rightarrow> gsmtap_api \<Rightarrow> byte \<Rightarrow> byte list \<Rightarrow> ('m, 'q, 'h) ppp_call
     \<Rightarrow> fault + ('m, 'q, 'h) ppp_call" where
  "handle_incoming_ppp_packet L G junk buf c =
     (let len = length buf;
          msg = msgb_alloc L (len mod 65536);
          buf1 = (if 2 \<le> len then buf ! 1 else junk);
          sent = (if buf ! 0 = 0xFF \<and> buf1 = 0x03
                  then gsmtap_send_packet G GSMTAP_E1T1_PPP True (drop 2 buf) (of_nat len - 2) (ppp_gsmtap c)
                  else gsmtap_send_packet G GSMTAP_E1T1_PPP True buf (of_nat len) (ppp_gsmtap c))
      in case sent of
           Inl e \<Rightarrow> Inl e
         | Inr (rc, g) \<Rightarrow>
             let c = c\<lparr>ppp_gsmtap := g\<rparr> in
             (case msg of
                None \<Rightarrow> Inl NullDeref
              | Some msg \<Rightarrow>
                  (case msgb_put L msg len of
                     None \<Rightarrow> Inl MsgbAbort
                   | Some msg \<Rightarrow>
                       let msg = msgb_wrs L msg 0 buf; t = ppp_line c
                       in Inr (c\<lparr>ppp_line :=
                            t\<lparr>isdn_hdlc_tx_queue := msgb_enqueue L (isdn_hdlc_tx_queue t) msg\<rparr>\<rparr>))))"

text \<open>As the packet handler of \<open>pppd_input_cb\<close>: once the process has died nothing follows.\<close>

definition ppp_queue_packet ::
    "('m, 'q, 't) osmo_api \<Rightarrow> gsmtap_api \<Rightarrow> byte \<Rightarrow> fault + ('m, 'q, 'h) ppp_call \<Rightarrow> byte list
     \<Rightarrow> fault + ('m, 'q, 'h) ppp_call" where
  "ppp_queue_packet L G junk r buf =
     (case r of Inl e \<Rightarrow> Inl e | Inr c \<Rightarrow> handle_incoming_ppp_packet L G junk buf c)"

section \<open>Samples\<close>

text \<open>One pass of the receiving loop, over \<open>samplesProcessed\<close> and the globals.\<close>

definition ppp_rx_pass ::
    "'h hdlc_api \<Rightarrow> gsmtap_api \<Rightarrow> (nat \<Rightarrow> int) \<Rightarrow> byte list \<Rightarrow> nat \<times> ('m, 'q, 'h) ppp_call
     \<Rightarrow> fault + nat \<times> ('m, 'q, 'h) ppp_call" where
  "ppp_rx_pass H G W in_buf = (\<lambda>(samplesProcessed, c).
     let (rv, count, h, dst) = hdlc_decode H (ppp_hdlc_rx c) (drop samplesProcessed in_buf)
            (ppp_hdlc_rx_buf c) (length (ppp_hdlc_rx_buf c) - 5);
         c = c\<lparr>ppp_hdlc_rx := h, ppp_hdlc_rx_buf := dst\<rparr>
     in if 0 < rv then
          let p = take (nat rv) dst;
              sent = (if 2 \<le> rv \<and> p ! 0 = 0xFF \<and> p ! 1 = 0x03
                      then gsmtap_send_packet G GSMTAP_E1T1_PPP False (drop 2 p) (of_int (rv - 2)) (ppp_gsmtap c)
                      else gsmtap_send_packet G GSMTAP_E1T1_PPP False p (of_int rv) (ppp_gsmtap c))
          in (case sent of
                Inl e \<Rightarrow> Inl e
              | Inr (rc, g) \<Rightarrow>
                  let c = c\<lparr>ppp_gsmtap := g\<rparr> in
                  (case pppd_input_raw_packet (W (length (pppd_writes c))) p of
                     Inl e \<Rightarrow> Inl e
                   | Inr (bs, bs') \<Rightarrow>
                       Inr (samplesProcessed + count,
                            c\<lparr>pppd_writes := pppd_writes c @ [bs], pppd_written := pppd_written c @ bs'\<rparr>)))
        else Inr (samplesProcessed + count, c))"

definition ppp_rx_loop ::
    "'h hdlc_api \<Rightarrow> gsmtap_api \<Rightarrow> (nat \<Rightarrow> int) \<Rightarrow> byte list \<Rightarrow> ('m, 'q, 'h) ppp_call
     \<Rightarrow> fault + ('m, 'q, 'h) ppp_call" where
  "ppp_rx_loop H G W in_buf c =
     (case while_option
         (\<lambda>r. case r of Inl e \<Rightarrow> False | Inr (samplesProcessed, c) \<Rightarrow> samplesProcessed < length in_buf)
         (\<lambda>r. case r of Inl e \<Rightarrow> r | Inr s \<Rightarrow> ppp_rx_pass H G W in_buf s) (Inr (0, c)) of
        None \<Rightarrow> Inl Hang
      | Some (Inl e) \<Rightarrow> Inl e
      | Some (Inr (samplesProcessed, c)) \<Rightarrow> Inr c)"

definition ppp_handle_sample_buffer ::
    "('m, 'q, 't) osmo_api \<Rightarrow> 'h hdlc_api \<Rightarrow> gsmtap_api \<Rightarrow> (nat \<Rightarrow> int) \<Rightarrow> byte list \<Rightarrow> byte list
     \<Rightarrow> ('m, 'q, 'h) ppp_call \<Rightarrow> fault + byte list \<times> ('m, 'q, 'h) ppp_call" where
  "ppp_handle_sample_buffer L H G W out_buf in_buf c =
     (case ppp_rx_loop H G W in_buf c of
        Inl e \<Rightarrow> Inl e
      | Inr c \<Rightarrow>
          (case hdlc_tx_loop L H (length in_buf) out_buf (ppp_line c) of
             Inl e \<Rightarrow> Inl e
           | Inr (out_buf, t) \<Rightarrow> Inr (out_buf, c\<lparr>ppp_line := t\<rparr>)))"

section \<open>Receiving\<close>

text \<open>What the capture gets of a packet: an address and control field in front is skipped.\<close>

definition ppp_capture :: "gsmtap_api \<Rightarrow> bool \<Rightarrow> byte list \<Rightarrow> gsmtap_hdr \<times> byte list" where
  "ppp_capture G dir p =
     (packet_hdr G GSMTAP_E1T1_PPP dir, if 2 \<le> length p \<and> p ! 0 = 0xFF \<and> p ! 1 = 0x03 then drop 2 p else p)"

text \<open>
  \<open>ppp_received G W frames c d\<close>: from \<open>c\<close> to \<open>d\<close> the decoder reported these frames; each was handed
  to the capture, encoded for pppd and handed to \<open>write\<close>, and pppd has what the writes took.
\<close>

definition ppp_received ::
    "gsmtap_api \<Rightarrow> (nat \<Rightarrow> int) \<Rightarrow> ('h \<Rightarrow> byte list list) \<Rightarrow> byte list list
     \<Rightarrow> ('m, 'q, 'h) ppp_call \<Rightarrow> ('m, 'q, 'h) ppp_call \<Rightarrow> bool" where
  "ppp_received G W dec_frames frames c d \<longleftrightarrow>
     dec_frames (ppp_hdlc_rx d) = dec_frames (ppp_hdlc_rx c) @ frames \<and>
     pppd_writes d = pppd_writes c @ map pppd_rfc1662_encode frames \<and>
     pppd_written d = pppd_written c @ written W (length (pppd_writes c)) (map pppd_rfc1662_encode frames) \<and>
     gsmtap_log (ppp_gsmtap d) = gsmtap_log (ppp_gsmtap c) @ map (ppp_capture G False) frames \<and>
     g_gti (ppp_gsmtap d) = g_gti (ppp_gsmtap c) \<and>
     ppp_line d = ppp_line c \<and> length (ppp_hdlc_rx_buf d) = length (ppp_hdlc_rx_buf c)"

lemma received_trans:
  "ppp_received G W dec_frames fs c d \<Longrightarrow> ppp_received G W dec_frames gs d e \<Longrightarrow>
   ppp_received G W dec_frames (fs @ gs) c e"
  by (simp add: ppp_received_def written_append)

context gsmtap_lib
begin

lemma capture_sent:
  assumes "g_gti g" and "length p < 2 ^ 31" and "b \<Longrightarrow> 2 \<le> length p"
  obtains rc g' where "(if b then gsmtap_send_packet G st dir (drop 2 p) (of_nat (length p) - 2) g
      else gsmtap_send_packet G st dir p (of_nat (length p)) g) = Inr (rc, g')"
    and "gsmtap_next G (packet_hdr G st dir, if b then drop 2 p else p) g g'"
proof -
  define q where "q = (if b then drop 2 p else p)"
  have "(if b then of_nat (length p) - 2 else of_nat (length p) :: u32) = of_nat (length q)"
    using assms(3) by (simp add: q_def of_nat_diff)
  then have "(if b then gsmtap_send_packet G st dir (drop 2 p) (of_nat (length p) - 2) g
      else gsmtap_send_packet G st dir p (of_nat (length p)) g) = gsmtap_send_packet G st dir q (of_nat (length q)) g"
    by (simp add: q_def split: if_splits)
  moreover have "length q < 2 ^ 31" using assms(2) by (auto simp: q_def)
  ultimately show ?thesis
    using packet_next [of q g st dir] assms(1) that by (auto simp: ends_def q_def split: sum.splits)
qed

end

text \<open>What a call handler relies on: the channel and the capture.\<close>

locale ppp_channel = hdlc_channel L H enc_frames enc_part dec_frames dec_left + gsmtap_lib G
  for L :: "('m, 'q, 't) osmo_api" and H :: "'h hdlc_api"
    and enc_frames enc_part dec_frames dec_left and G :: gsmtap_api
begin

lemma ppp_pass:
  assumes "frames_bounded H 1021 in_buf h0 dst0" and "hdlc_reads H in_buf h0 dst0 sp (ppp_hdlc_rx c) (ppp_hdlc_rx_buf c)"
    and "sp < length in_buf" and "g_gti (ppp_gsmtap c)"
  obtains sp' d fs where "ppp_rx_pass H G W in_buf (sp, c) = Inr (sp', d)" and "ppp_received G W dec_frames fs c d"
    and "hdlc_reads H in_buf h0 dst0 sp' (ppp_hdlc_rx d) (ppp_hdlc_rx_buf d)"
    and "sp \<le> sp'" and "sp' \<le> length in_buf" and "sp' = sp \<Longrightarrow> dec_left (ppp_hdlc_rx d) < dec_left (ppp_hdlc_rx c)"
proof -
  obtain rv k h dst where dec: "hdlc_decode H (ppp_hdlc_rx c) (drop sp in_buf) (ppp_hdlc_rx_buf c)
      (length (ppp_hdlc_rx_buf c) - 5) = (rv, k, h, dst)"
    by (metis prod_cases4)
  note r = decode_rest [OF assms(1-3) dec]
  define p where "p = take (nat rv) dst"
  note raw = raw_packet_fits [OF r(5) [folded p_def]]
  show ?thesis
  proof (cases "0 < rv")
    case True
    have len: "int (length p) = rv" "length p < 2 ^ 31"
      using decode_frame [OF dec] True r(5) by (auto simp: p_def)
    then have of_rv: "(of_int rv :: u32) = of_nat (length p)" by auto
    define b where "b \<longleftrightarrow> 2 \<le> rv \<and> p ! 0 = 0xFF \<and> p ! 1 = 0x03"
    then have two: "2 \<le> length p" if b using that len(1) by auto
    obtain rc g where g: "(if b then gsmtap_send_packet G GSMTAP_E1T1_PPP False (drop 2 p) (of_nat (length p) - 2) (ppp_gsmtap c)
        else gsmtap_send_packet G GSMTAP_E1T1_PPP False p (of_nat (length p)) (ppp_gsmtap c)) = Inr (rc, g)"
      and next_g: "gsmtap_next G (packet_hdr G GSMTAP_E1T1_PPP False, if b then drop 2 p else p) (ppp_gsmtap c) g"
      using capture_sent [OF assms(4) len(2) two] by blast
    have "(if b then drop 2 p else p) = snd (ppp_capture G False p)"
      using len(1) by (auto simp: b_def ppp_capture_def)
    then have log: "gsmtap_log g = gsmtap_log (ppp_gsmtap c) @ [ppp_capture G False p]" "g_gti g = g_gti (ppp_gsmtap c)"
      using next_g by (simp_all add: gsmtap_next_def ppp_capture_def)
    have pass: "ppp_rx_pass H G W in_buf (sp, c) = Inr (sp + k, c\<lparr>ppp_hdlc_rx := h, ppp_hdlc_rx_buf := dst, ppp_gsmtap := g,
            pppd_writes := pppd_writes c @ [pppd_rfc1662_encode p],
            pppd_written := pppd_written c @ took (W (length (pppd_writes c))) (pppd_rfc1662_encode p)\<rparr>)"
      using g raw True unfolding ppp_rx_pass_def prod.case dec Let_def p_def [symmetric] b_def [symmetric]
      by (cases b) (simp_all add: of_rv)
    show ?thesis
      using r(1-4,6) True log by (intro that [OF pass, of "[p]"]) (simp_all add: ppp_received_def p_def)
  next
    case False
    then show ?thesis
      using r by (intro that [of "sp + k" "c\<lparr>ppp_hdlc_rx := h, ppp_hdlc_rx_buf := dst\<rparr>" "[]"])
        (simp_all add: ppp_rx_pass_def dec Let_def ppp_received_def)
  qed
qed

lemma ppp_loop:
  assumes "frames_bounded H 1021 in_buf (ppp_hdlc_rx c) (ppp_hdlc_rx_buf c)" and "g_gti (ppp_gsmtap c)"
  shows "\<exists>d fs. ppp_rx_loop H G W in_buf c = Inr d \<and> ppp_received G W dec_frames fs c d"
proof -
  let ?b = "\<lambda>r :: fault + nat \<times> ('a, 'b, 'h) ppp_call.
    case r of Inl e \<Rightarrow> False | Inr (sp, d) \<Rightarrow> sp < length in_buf"
  let ?c = "\<lambda>r. case r of Inl e \<Rightarrow> r | Inr s \<Rightarrow> ppp_rx_pass H G W in_buf s"
  let ?P = "\<lambda>r. \<exists>sp d fs. r = Inr (sp, d) \<and> sp \<le> length in_buf \<and> ppp_received G W dec_frames fs c d \<and>
    hdlc_reads H in_buf (ppp_hdlc_rx c) (ppp_hdlc_rx_buf c) sp (ppp_hdlc_rx d) (ppp_hdlc_rx_buf d)"
  let ?r = "measures [\<lambda>r. case r of Inl e \<Rightarrow> 0 | Inr (sp, d) \<Rightarrow> length in_buf - sp,
    \<lambda>r. case r of Inl e \<Rightarrow> 0 | Inr (sp, d) \<Rightarrow> dec_left (ppp_hdlc_rx d)]"
  have "\<exists>r. while_option ?b ?c (Inr (0, c)) = Some r \<and> ?P r \<and> \<not> ?b r"
  proof (rule while_option_ends_wf [of ?r])
    show "?P (Inr (0, c))"
      by (auto simp: ppp_received_def intro: exI [of _ "[]"] hdlc_reads.start)
  next
    fix r assume "?P r" and "?b r"
    then obtain sp d fs where r: "r = Inr (sp, d)" "sp < length in_buf" "ppp_received G W dec_frames fs c d"
      and reads: "hdlc_reads H in_buf (ppp_hdlc_rx c) (ppp_hdlc_rx_buf c) sp (ppp_hdlc_rx d) (ppp_hdlc_rx_buf d)"
      by auto
    have "g_gti (ppp_gsmtap d)" using r(3) assms(2) by (simp add: ppp_received_def)
    then obtain sp' e gs where p: "ppp_rx_pass H G W in_buf (sp, d) = Inr (sp', e)" "ppp_received G W dec_frames gs d e"
      "sp \<le> sp'" "sp' \<le> length in_buf" "sp' = sp \<longrightarrow> dec_left (ppp_hdlc_rx e) < dec_left (ppp_hdlc_rx d)"
      "hdlc_reads H in_buf (ppp_hdlc_rx c) (ppp_hdlc_rx_buf c) sp' (ppp_hdlc_rx e) (ppp_hdlc_rx_buf e)"
      using ppp_pass [OF assms(1) reads r(2)] by metis
    have "?P (?c r)"
      using p received_trans [OF r(3) p(2)] by (auto simp: r(1))
    moreover have "(?c r, r) \<in> ?r"
      using p r(2) by (auto simp: r(1))
    ultimately show "?P (?c r) \<and> (?c r, r) \<in> ?r" ..
  qed simp
  then show ?thesis
    by (auto simp: ppp_rx_loop_def)
qed

text \<open>Both directions. \<open>t\<close> is the line after the sending loop.\<close>

lemma ppp_samples:
  assumes "frames_bounded H 1021 in_buf (ppp_hdlc_rx c) (ppp_hdlc_rx_buf c)" and "g_gti (ppp_gsmtap c)"
    and "tx_ok enc_part (ppp_line c)" and "length in_buf \<le> length out_buf"
  shows "\<exists>out' d fs t. ppp_handle_sample_buffer L H G W out_buf in_buf c = Inr (out', d\<lparr>ppp_line := t\<rparr>) \<and>
    length out' = length out_buf \<and> ppp_received G W dec_frames fs c d \<and>
    hdlc_tx_loop L H (length in_buf) out_buf (ppp_line c) = Inr (out', t) \<and> tx_ok enc_part t \<and>
    enc_frames (hdlc_tx t) @ tx_waiting L t = enc_frames (hdlc_tx (ppp_line c)) @ tx_waiting L (ppp_line c)"
proof -
  obtain d fs where d: "ppp_rx_loop H G W in_buf c = Inr d" "ppp_received G W dec_frames fs c d"
    using ppp_loop [OF assms(1,2)] by blast
  then have line: "ppp_line d = ppp_line c"
    by (simp add: ppp_received_def)
  obtain out' t where "hdlc_tx_loop L H (length in_buf) out_buf (ppp_line c) = Inr (out', t)"
    "length out' = length out_buf" "tx_ok enc_part t"
    "enc_frames (hdlc_tx t) @ tx_waiting L t =
      enc_frames (hdlc_tx (ppp_line c)) @ tx_waiting L (ppp_line c)"
    using tx_loop [OF assms(3,4)] by blast
  with d line show ?thesis
    by (intro exI [of _ out'] exI [of _ d] exI [of _ fs] exI [of _ t]) (simp add: ppp_handle_sample_buffer_def)
qed

end

interpretation lab_ppp: ppp_channel list_osmo lab_hdlc lab_sent lab_part lab_decoded "\<lambda>h. 0" lab_gsmtap
  by unfold_locales

section \<open>From pppd to the encoder\<close>

text \<open>
  A packet the handler can take: not empty, of at most 2046 bytes, and not the single byte
  whose successor the header check reads.
\<close>

definition ppp_packet_ok :: "byte list \<Rightarrow> bool" where
  "ppp_packet_ok p \<longleftrightarrow> p \<noteq> [] \<and> length p \<le> 2046 \<and> (length p = 1 \<longrightarrow> p ! 0 \<noteq> 0xFF)"

text \<open>From \<open>c\<close> to \<open>d\<close> these packets were queued and handed to the capture.\<close>

definition ppp_queued ::
    "('m, 'q, 't) osmo_api \<Rightarrow> gsmtap_api \<Rightarrow> byte list list \<Rightarrow> ('m, 'q, 'h) ppp_call \<Rightarrow> ('m, 'q, 'h) ppp_call \<Rightarrow> bool" where
  "ppp_queued L G ps c d \<longleftrightarrow>
     tx_waiting L (ppp_line d) = tx_waiting L (ppp_line c) @ ps \<and>
     hdlc_tx (ppp_line d) = hdlc_tx (ppp_line c) \<and> (\<forall>part. tx_ok part (ppp_line d) = tx_ok part (ppp_line c)) \<and>
     ppp_hdlc_rx d = ppp_hdlc_rx c \<and> ppp_hdlc_rx_buf d = ppp_hdlc_rx_buf c \<and>
     pppd_writes d = pppd_writes c \<and> pppd_written d = pppd_written c \<and>
     gsmtap_log (ppp_gsmtap d) = gsmtap_log (ppp_gsmtap c) @ map (ppp_capture G True) ps \<and>
     g_gti (ppp_gsmtap d) = g_gti (ppp_gsmtap c)"

text \<open>What the handler of pppd's packets relies on: message buffers and the capture.\<close>

locale ppp_queue = osmo_mem L + gsmtap_lib G
  for L :: "('m, 'q, 't) osmo_api" and G :: gsmtap_api
begin

lemma incoming_packet:
  assumes "ppp_packet_ok buf" and "g_gti (ppp_gsmtap c)"
  shows "\<exists>d. handle_incoming_ppp_packet L G junk buf c = Inr d \<and> ppp_queued L G [buf] c d"
proof -
  have ok: "buf \<noteq> []" "length buf mod 65536 = length buf" "length buf < 2 ^ 31"
    and hd: "buf ! 0 = 0xFF \<and> (if 2 \<le> length buf then buf ! 1 else junk) = 0x03 \<longleftrightarrow>
      2 \<le> length buf \<and> buf ! 0 = 0xFF \<and> buf ! 1 = 0x03"
    using assms(1) by (auto simp: ppp_packet_ok_def length_Suc_conv less_2_cases_iff not_le)
  define b where "b \<longleftrightarrow> buf ! 0 = 0xFF \<and> (if 2 \<le> length buf then buf ! 1 else junk) = 0x03"
  have b: "b \<longleftrightarrow> 2 \<le> length buf \<and> buf ! 0 = 0xFF \<and> buf ! 1 = 0x03" unfolding b_def by (rule hd)
  have two: "2 \<le> length buf" if b using that b by simp
  obtain rc g where g: "(if b then gsmtap_send_packet G GSMTAP_E1T1_PPP True (drop 2 buf) (of_nat (length buf) - 2) (ppp_gsmtap c)
      else gsmtap_send_packet G GSMTAP_E1T1_PPP True buf (of_nat (length buf)) (ppp_gsmtap c)) = Inr (rc, g)"
    and next_g: "gsmtap_next G (packet_hdr G GSMTAP_E1T1_PPP True, if b then drop 2 buf else buf) (ppp_gsmtap c) g"
    using capture_sent [OF assms(2) ok(3) two] by blast
  have log: "gsmtap_log g = gsmtap_log (ppp_gsmtap c) @ [ppp_capture G True buf]" "g_gti g = g_gti (ppp_gsmtap c)"
    using next_g by (simp_all add: gsmtap_next_def ppp_capture_def b)
  obtain m where m: "msgb_alloc L (length buf) = Some m"
    using alloc_some by blast
  obtain m' where m': "msgb_put L m (length buf) = Some m'" "msgb_data L (msgb_wrs L m' 0 buf) = buf"
    using put_all [of m buf] alloc [OF m] assms(1) by (auto simp: ppp_packet_ok_def)
  have "handle_incoming_ppp_packet L G junk buf c = Inr (c\<lparr>ppp_gsmtap := g, ppp_line := (ppp_line c)
      \<lparr>isdn_hdlc_tx_queue := msgb_enqueue L (isdn_hdlc_tx_queue (ppp_line c)) (msgb_wrs L m' 0 buf)\<rparr>\<rparr>)"
    using g m m'(1) unfolding handle_incoming_ppp_packet_def Let_def b_def [symmetric] by (simp add: ok(2))
  then show ?thesis
    using ok(1) m'(2) log enqueue_plain by (simp add: tx_waiting_def tx_ok_def ppp_queued_def)
qed

lemma incoming_packets:
  assumes "\<forall>p \<in> set ps. ppp_packet_ok p" and "g_gti (ppp_gsmtap c)"
  shows "\<exists>d. foldl (ppp_queue_packet L G junk) (Inr c) ps = Inr d \<and> ppp_queued L G ps c d"
  using assms
proof (induction ps arbitrary: c)
  case (Cons p ps)
  obtain d where d: "handle_incoming_ppp_packet L G junk p c = Inr d" "ppp_queued L G [p] c d"
    using incoming_packet [of p c junk] Cons.prems by auto
  moreover have "g_gti (ppp_gsmtap d)" using d(2) Cons.prems(2) by (simp add: ppp_queued_def)
  ultimately show ?case
    using Cons.IH [of d] Cons.prems(1) by (auto simp: ppp_queue_packet_def ppp_queued_def)
qed (simp add: ppp_queued_def)

end

interpretation lab_queue: ppp_queue list_osmo lab_gsmtap
  by unfold_locales

text \<open>
  A packet of the single byte 0xFF that follows one starting with address and control field: the
  header check reads the old second byte and the capture is asked for a packet of minus one
  bytes, which overruns the buffer it got for it.
\<close>

lemma ppp_short_packet_overrun:
  assumes "gsmtap_lib G" and "0 < sizeof_hdr G" and "gsmtap_malloc G (length (gsmtap_log (ppp_gsmtap c)))"
  shows "handle_incoming_ppp_packet L G 0x03 [0xFF] c = Inl ArrayOverrun"
  using gsmtap_lib.send_negative [OF assms]
  by (simp add: handle_incoming_ppp_packet_def gsmtap_send_packet_def Let_def)

section \<open>A state to run the theorems on\<close>

definition lab_call_ppp :: "byte list list \<Rightarrow> (buf, buf list, lab_coder) ppp_call" where
  "lab_call_ppp queued =
     \<lparr>ppp_line = \<lparr>hdlc_tx = \<lparr>lab_pos = 0, lab_decoded = [], lab_sent = [], lab_part = []\<rparr>,
        isdn_hdlc_tx_queue = map (\<lambda>p. \<lparr>buf_head = 0, buf_data = p, buf_tail = 0\<rparr>) queued,
        hdlc_tx_msgb = None, hdlc_tx_buf = [], hdlc_tx_buf_pos = 0, hdlc_tx_buf_len = 0\<rparr>,
      ppp_hdlc_rx = \<lparr>lab_pos = 0, lab_decoded = [], lab_sent = [], lab_part = []\<rparr>,
      ppp_hdlc_rx_buf = replicate 4096 0, pppd_writes = [], pppd_written = [],
      ppp_gsmtap = snd (gsmtap_init True gsmtap_statics)\<rparr>"

lemma lab_call_ppp_ok:
  "tx_ok lab_part (ppp_line (lab_call_ppp queued))"
  "tx_waiting list_osmo (ppp_line (lab_call_ppp queued)) = filter (\<lambda>p. p \<noteq> []) queued"
  "g_gti (ppp_gsmtap (lab_call_ppp queued))"
  by (simp_all add: lab_call_ppp_def tx_ok_def tx_waiting_def list_osmo_def comp_def)

end
