(* ===== verification/Ppp_Bridge.thy ===== *)
theory Ppp_Bridge
  imports Ppp_Call Ppp_Start
begin

text \<open>
  The whole process of a PPP call, \<open>src/yate_hdlc_ppp.c\<close>: the start of \<open>main\<close> and every sequence
  of the events its loop dispatches. The handler is a bridge between the frames of the line
  and the byte stream of pppd.
\<close>

section \<open>The start\<close>

text \<open>\<open>ctx\<close> tells whether the memory context can be had, \<open>ptyconf\<close> is what is on the stack; the result of \<open>start_pppd\<close> is not looked at.\<close>

definition ppp_main_start :: "bool \<Rightarrow> os_env \<Rightarrow> termios \<Rightarrow> proc_os \<Rightarrow> fault + started" where
  "ppp_main_start ctx env ptyconf st = (if \<not> ctx then Inl ExitFailure else start_pppd env ptyconf (-1) 0 st)"

text \<open>
  The globals before the loop: the queue is empty, \<open>source\<close> tells whether the capture's socket
  could be opened, \<open>rx\<close> and \<open>tx\<close> are coders as the library initialises them, and the static data
  is zero.
\<close>

definition ppp_main_init ::
    "('m, 'q, 't) osmo_api \<Rightarrow> bool \<Rightarrow> 'h \<Rightarrow> 'h \<Rightarrow> (fault + ('m, 'q, 'h) ppp_call) ppp_rx" where
  "ppp_main_init L source rx tx =
     \<lparr>ppp_rfc1662_state = \<lparr>deframed_bytes = 0, escape = 0\<rparr>, temp_pack_buf = replicate 2048 0,
      ppp_user = Inr
        \<lparr>ppp_line = \<lparr>hdlc_tx = tx, isdn_hdlc_tx_queue = msgb_queue_init L, hdlc_tx_msgb = None,
           hdlc_tx_buf = [], hdlc_tx_buf_pos = 0, hdlc_tx_buf_len = 0\<rparr>,
         ppp_hdlc_rx = rx, ppp_hdlc_rx_buf = replicate 4096 0, pppd_writes = [], pppd_written = [],
         ppp_gsmtap = snd (gsmtap_init source gsmtap_statics)\<rparr>\<rparr>"

section \<open>Events\<close>

text \<open>
  The handler of the samples with its buffers, and the handler of pppd with what \<open>read\<close>
  returned and the byte behind a packet of a single byte.
\<close>

datatype ppp_event = Ppp_line "byte list" "byte list" | Pppd_read byte "byte list option"

definition ppp_dispatch ::
    "('m, 'q, 't) osmo_api \<Rightarrow> 'h hdlc_api \<Rightarrow> gsmtap_api \<Rightarrow> (nat \<Rightarrow> int) \<Rightarrow> ppp_event
     \<Rightarrow> (fault + ('m, 'q, 'h) ppp_call) ppp_rx \<Rightarrow> fault + (fault + ('m, 'q, 'h) ppp_call) ppp_rx" where
  "ppp_dispatch L H G W ev p =
     (case ev of
        Ppp_line out_buf in_buf \<Rightarrow>
          (case ppp_user p of
             Inl e \<Rightarrow> Inl e
           | Inr c \<Rightarrow>
               (case ppp_handle_sample_buffer L H G W out_buf in_buf c of
                  Inl e \<Rightarrow> Inl e
                | Inr (out', d) \<Rightarrow> Inr (p\<lparr>ppp_user := Inr d\<rparr>)))
      | Pppd_read junk rd \<Rightarrow>
          (case pppd_input_cb (ppp_queue_packet L G junk) rd p of
             Inl e \<Rightarrow> Inl e
           | Inr (rc, p) \<Rightarrow> (case ppp_user p of Inl e \<Rightarrow> Inl e | Inr c \<Rightarrow> Inr p)))"

definition event_bytes :: "ppp_event \<Rightarrow> byte list" where
  "event_bytes ev = (case ev of Pppd_read junk (Some buf) \<Rightarrow> buf | _ \<Rightarrow> [])"

text \<open>
  Events the bounds of the code allow, after \<open>reads\<close> bytes from pppd: the engine's buffers are of
  one size, frames of the line have at most 1021 bytes, a read gives at least two bytes and no
  more than its buffer holds, and the packets in the stream are such that the handler can take
  them.
\<close>

definition ppp_fits ::
    "'h hdlc_api \<Rightarrow> ppp_event \<Rightarrow> byte list \<Rightarrow> (fault + ('m, 'q, 'h) ppp_call) ppp_rx \<Rightarrow> bool" where
  "ppp_fits H ev reads p \<longleftrightarrow>
     (case ev of
        Ppp_line out_buf in_buf \<Rightarrow> length in_buf \<le> length out_buf \<and>
          (case ppp_user p of Inl e \<Rightarrow> True
           | Inr c \<Rightarrow> frames_bounded H 1021 in_buf (ppp_hdlc_rx c) (ppp_hdlc_rx_buf c))
      | Pppd_read junk (Some buf) \<Rightarrow> 2 \<le> length buf \<and> length buf \<le> MAX_MTU \<and>
          (case deframes 2048 (reads @ buf) (0, []) of None \<Rightarrow> False | Some (raws, d) \<Rightarrow> list_all ppp_packet_ok raws)
      | _ \<Rightarrow> True)"

inductive ppp_reach ::
    "('m, 'q, 't) osmo_api \<Rightarrow> 'h hdlc_api \<Rightarrow> gsmtap_api \<Rightarrow> (nat \<Rightarrow> int) \<Rightarrow> (fault + ('m, 'q, 'h) ppp_call) ppp_rx
     \<Rightarrow> byte list \<Rightarrow> (fault + ('m, 'q, 'h) ppp_call) ppp_rx \<Rightarrow> bool"
    for L H G W p0 where
  start: "ppp_reach L H G W p0 [] p0"
| event: "ppp_reach L H G W p0 reads p \<Longrightarrow> ppp_fits H ev reads p \<Longrightarrow> ppp_dispatch L H G W ev p = Inr p' \<Longrightarrow>
    ppp_reach L H G W p0 (reads @ event_bytes ev) p'"

section \<open>The bridge\<close>

text \<open>
  After \<open>reads\<close>: the frames given to the encoder and those that wait for it are exactly the
  packets in the stream; the frames the decoder found were handed to \<open>write\<close> in PPP framing, one
  by one; and pppd has what these writes took, all of it when they were complete.
\<close>

definition ppp_bridged ::
    "('m, 'q, 't) osmo_api \<Rightarrow> (nat \<Rightarrow> int) \<Rightarrow> ('h \<Rightarrow> byte list list) \<Rightarrow> ('h \<Rightarrow> byte list) \<Rightarrow> ('h \<Rightarrow> byte list list)
     \<Rightarrow> 'h \<Rightarrow> 'h \<Rightarrow> byte list \<Rightarrow> (fault + ('m, 'q, 'h) ppp_call) ppp_rx \<Rightarrow> bool" where
  "ppp_bridged L W enc_frames enc_part dec_frames rx tx reads p \<longleftrightarrow>
     (\<exists>c raws d fs. ppp_user p = Inr c \<and> rx_ok p d \<and> tx_ok enc_part (ppp_line c) \<and> g_gti (ppp_gsmtap c) \<and>
        deframes 2048 reads (0, []) = Some (raws, d) \<and>
        enc_frames (hdlc_tx (ppp_line c)) @ tx_waiting L (ppp_line c) = enc_frames tx @ raws \<and>
        dec_frames (ppp_hdlc_rx c) = dec_frames rx @ fs \<and>
        pppd_writes c = map pppd_rfc1662_encode fs \<and> pppd_written c = written W 0 (pppd_writes c) \<and>
        ((\<forall>n < length (pppd_writes c). W n = int (length (pppd_writes c ! n))) \<longrightarrow>
           pppd_written c = concat (map pppd_rfc1662_encode fs)))"

lemma bridgedI:
  assumes "ppp_user p = Inr c" and "rx_ok p d" and "tx_ok enc_part (ppp_line c)" and "g_gti (ppp_gsmtap c)"
    and "deframes 2048 reads (0, []) = Some (raws, d)"
    and "enc_frames (hdlc_tx (ppp_line c)) @ tx_waiting L (ppp_line c) = enc_frames tx @ raws"
    and "dec_frames (ppp_hdlc_rx c) = dec_frames rx @ fs"
    and "pppd_writes c = map pppd_rfc1662_encode fs" and "pppd_written c = written W 0 (pppd_writes c)"
  shows "ppp_bridged L W enc_frames enc_part dec_frames rx tx reads p"
proof -
  have "pppd_written c = concat (pppd_writes c)" if "\<forall>n < length (pppd_writes c). W n = int (length (pppd_writes c ! n))"
    unfolding assms(9) by (rule written_all) (use that in simp)
  with assms show ?thesis
    unfolding ppp_bridged_def by metis
qed

lemma bridgedE:
  assumes "ppp_bridged L W enc_frames enc_part dec_frames rx tx reads p"
  obtains c raws d fs where "ppp_user p = Inr c" and "rx_ok p d" and "tx_ok enc_part (ppp_line c)"
    and "g_gti (ppp_gsmtap c)" and "deframes 2048 reads (0, []) = Some (raws, d)"
    and "enc_frames (hdlc_tx (ppp_line c)) @ tx_waiting L (ppp_line c) = enc_frames tx @ raws"
    and "dec_frames (ppp_hdlc_rx c) = dec_frames rx @ fs"
    and "pppd_writes c = map pppd_rfc1662_encode fs" and "pppd_written c = written W 0 (pppd_writes c)"
  using assms unfolding ppp_bridged_def by (elim exE conjE) (rule that)

text \<open>What the events of the bridge rely on.\<close>

locale ppp_bridge = osmo_mem L + ppp_channel L H enc_frames enc_part dec_frames dec_left G
  for L :: "('m, 'q, 't) osmo_api" and H :: "'h hdlc_api"
    and enc_frames enc_part dec_frames dec_left and G :: gsmtap_api

sublocale ppp_bridge \<subseteq> ppp_queue L G
  by unfold_locales

context ppp_bridge
begin

lemma main_init_bridged:
  assumes "enc_part tx = []"
  shows "ppp_bridged L W enc_frames enc_part dec_frames rx tx [] (ppp_main_init L True rx tx)"
  using queue_init assms
  by (simp add: ppp_bridged_def ppp_main_init_def rx_ok_def rx_rel_def tx_ok_def tx_waiting_def)

lemma line_bridged:
  assumes "ppp_bridged L W enc_frames enc_part dec_frames rx tx reads p"
    and "ppp_fits H (Ppp_line out_buf in_buf) reads p"
  shows "\<exists>p'. ppp_dispatch L H G W (Ppp_line out_buf in_buf) p = Inr p' \<and>
    ppp_bridged L W enc_frames enc_part dec_frames rx tx reads p'"
proof -
  obtain c raws d fs where p: "ppp_user p = Inr c" "rx_ok p d" "tx_ok enc_part (ppp_line c)" "g_gti (ppp_gsmtap c)"
    "deframes 2048 reads (0, []) = Some (raws, d)"
    "enc_frames (hdlc_tx (ppp_line c)) @ tx_waiting L (ppp_line c) = enc_frames tx @ raws"
    "dec_frames (ppp_hdlc_rx c) = dec_frames rx @ fs"
    "pppd_writes c = map pppd_rfc1662_encode fs" "pppd_written c = written W 0 (pppd_writes c)"
    using assms(1) by (rule bridgedE)
  have "frames_bounded H 1021 in_buf (ppp_hdlc_rx c) (ppp_hdlc_rx_buf c)" "length in_buf \<le> length out_buf"
    using assms(2) p(1) by (simp_all add: ppp_fits_def)
  then obtain out' e gs t where e: "ppp_handle_sample_buffer L H G W out_buf in_buf c = Inr (out', e\<lparr>ppp_line := t\<rparr>)"
    "ppp_received G W dec_frames gs c e" "tx_ok enc_part t"
    "enc_frames (hdlc_tx t) @ tx_waiting L t = enc_frames (hdlc_tx (ppp_line c)) @ tx_waiting L (ppp_line c)"
    using ppp_samples [OF _ p(4,3)] by metis
  have "ppp_bridged L W enc_frames enc_part dec_frames rx tx reads (p\<lparr>ppp_user := Inr (e\<lparr>ppp_line := t\<rparr>)\<rparr>)"
    using p e by (intro bridgedI [of _ "e\<lparr>ppp_line := t\<rparr>" d _ _ raws _ _ _ _ _ "fs @ gs"])
      (simp_all add: ppp_received_def rx_ok_def written_append)
  with e(1) p(1) show ?thesis
    by (simp add: ppp_dispatch_def)
qed

lemma read_bridged:
  assumes "ppp_bridged L W enc_frames enc_part dec_frames rx tx reads p"
    and "ppp_fits H (Pppd_read junk (Some buf)) reads p"
  shows "\<exists>p'. ppp_dispatch L H G W (Pppd_read junk (Some buf)) p = Inr p' \<and>
    ppp_bridged L W enc_frames enc_part dec_frames rx tx (reads @ buf) p'"
proof -
  obtain c raws d fs where p: "ppp_user p = Inr c" "rx_ok p d" "tx_ok enc_part (ppp_line c)" "g_gti (ppp_gsmtap c)"
    "deframes 2048 reads (0, []) = Some (raws, d)"
    "enc_frames (hdlc_tx (ppp_line c)) @ tx_waiting L (ppp_line c) = enc_frames tx @ raws"
    "dec_frames (ppp_hdlc_rx c) = dec_frames rx @ fs"
    "pppd_writes c = map pppd_rfc1662_encode fs" "pppd_written c = written W 0 (pppd_writes c)"
    using assms(1) by (rule bridgedE)
  obtain news d' where n: "deframes 2048 buf d = Some (news, d')" "\<forall>raw \<in> set news. ppp_packet_ok raw"
    and len: "2 \<le> length buf" "length buf \<le> MAX_MTU"
    using assms(2) p(5) by (auto simp: ppp_fits_def deframes_append list_all_iff split: option.splits)
  obtain p' where p': "pppd_input_cb (ppp_queue_packet L G junk) (Some buf) p = Inr (0, p')" "rx_ok p' d'"
    "ppp_user p' = foldl (ppp_queue_packet L G junk) (Inr c) news"
    using input_deframes [OF p(2) len n(1), of "ppp_queue_packet L G junk"] p(1) by auto
  obtain c' where c': "foldl (ppp_queue_packet L G junk) (Inr c) news = Inr c'" "ppp_queued L G news c c'"
    using incoming_packets [OF n(2) p(4), of junk] by blast
  have "ppp_bridged L W enc_frames enc_part dec_frames rx tx (reads @ buf) p'"
    using p p' n(1) c' by (intro bridgedI [of _ c' d' _ _ "raws @ news" _ _ _ _ _ fs])
      (simp_all add: ppp_queued_def deframes_append flip: append_assoc)
  with p' c' show ?thesis
    by (simp add: ppp_dispatch_def)
qed

lemma event_bridged:
  assumes "ppp_bridged L W enc_frames enc_part dec_frames rx tx reads p" and "ppp_fits H ev reads p"
  shows "\<exists>p'. ppp_dispatch L H G W ev p = Inr p' \<and>
    ppp_bridged L W enc_frames enc_part dec_frames rx tx (reads @ event_bytes ev) p'"
proof (cases ev)
  case (Ppp_line out_buf in_buf)
  with line_bridged assms show ?thesis by (simp add: event_bytes_def)
next
  case (Pppd_read junk rd)
  show ?thesis
  proof (cases rd)
    case None
    then show ?thesis
      using Pppd_read assms(1)
      by (auto simp: ppp_dispatch_def event_bytes_def pppd_input_cb_def ppp_bridged_def split: sum.splits)
  next
    case (Some buf)
    with Pppd_read read_bridged assms show ?thesis by (simp add: event_bytes_def)
  qed
qed

lemma reach_bridged:
  assumes "ppp_reach L H G W p0 reads p" and "ppp_bridged L W enc_frames enc_part dec_frames rx tx [] p0"
  shows "ppp_bridged L W enc_frames enc_part dec_frames rx tx reads p"
  using assms(1)
proof (induction rule: ppp_reach.induct)
  case start
  show ?case by (rule assms(2))
next
  case (event reads p ev p')
  from event_bridged [OF event.IH event.hyps(2)] event.hyps(3) show ?case by simp
qed

end

interpretation lab_bridge: ppp_bridge list_osmo lab_hdlc lab_sent lab_part lab_decoded "\<lambda>h. 0" lab_gsmtap
  by unfold_locales

section \<open>Property\<close>

text \<open>
  C9: a PPP call as a bridge. From the state in which \<open>main\<close> starts its loop with the capture's
  socket open, whatever the order of sample buffers and reads from pppd, however the stream is
  cut into reads of two to 2048 bytes, and whatever the writes to pppd and to the capture
  return: as long as the line's frames have at most 1021 bytes and the packets in the
  stream are such that the handler can take them, no event fails, hangs or overruns a buffer;
  at every moment the frames given to the encoder, followed by those that wait for it, are
  exactly the packets of the stream so far; the frames decoded so far were handed to \<open>write\<close>
  in PPP framing, in order; and pppd has what the writes took of them, all when no write was
  short.
\<close>

theorem ppp_call_bridged:
  assumes "osmo_mem L" and "hdlc_channel L H enc_frames enc_part dec_frames dec_left" and "gsmtap_lib G"
    and "enc_part tx = []" and "ppp_reach L H G W (ppp_main_init L True rx tx) reads p" and "ppp_fits H ev reads p"
  shows "\<exists>p'. ppp_dispatch L H G W ev p = Inr p' \<and>
    ppp_bridged L W enc_frames enc_part dec_frames rx tx (reads @ event_bytes ev) p'"
proof -
  have loc: "ppp_bridge L H enc_frames enc_part dec_frames dec_left G"
    using assms(1-3) by (intro ppp_bridge.intro ppp_channel.intro)
  have "ppp_bridged L W enc_frames enc_part dec_frames rx tx reads p"
    using loc assms(5) ppp_bridge.main_init_bridged [OF loc assms(4)] by (rule ppp_bridge.reach_bridged)
  with loc show ?thesis
    using assms(6) by (rule ppp_bridge.event_bridged)
qed

definition lab_ppp_start :: "(fault + (buf, buf list, lab_coder) ppp_call) ppp_rx" where
  "lab_ppp_start = ppp_main_init list_osmo True \<lparr>lab_pos = 0, lab_decoded = [], lab_sent = [], lab_part = []\<rparr>
     \<lparr>lab_pos = 0, lab_decoded = [], lab_sent = [], lab_part = []\<rparr>"

theorem ppp_call_bridged_witness:
  "\<exists>p c. ppp_dispatch list_osmo lab_hdlc lab_gsmtap (\<lambda>n. - 1)
       (Pppd_read 0 (Some (pppd_rfc1662_encode [0x21, 7]))) lab_ppp_start = Inr p \<and>
     ppp_user p = Inr c \<and> lab_sent (hdlc_tx (ppp_line c)) @ tx_waiting list_osmo (ppp_line c) = [[0x21, 7]]"
proof -
  let ?h = "\<lparr>lab_pos = 0, lab_decoded = [], lab_sent = [], lab_part = []\<rparr>"
  let ?ev = "Pppd_read 0 (Some (pppd_rfc1662_encode [0x21, 7]))"
  have d: "deframes 2048 (pppd_rfc1662_encode [0x21, 7]) (0, []) = Some ([[0x21, 7]], 0, [])"
    by (simp add: deframes_encode)
  have l: "length (pppd_rfc1662_encode [0x21, 7]) \<le> MAX_MTU"
    using encode_length [of "[0x21, 7]"] concat_esc_length(2) [of "[0x21, 7]"] concat_esc_length(2) [of "fcs_bytes [0x21, 7]"]
    by (simp add: fcs_bytes_def)
  from d l have "ppp_fits lab_hdlc ?ev [] (ppp_main_init list_osmo True ?h ?h)"
    by (simp add: ppp_fits_def encode_length ppp_packet_ok_def)
  from ppp_call_bridged [OF lo.osmo_mem_axioms lab.hdlc_channel_axioms lg.gsmtap_lib_axioms _ ppp_reach.start this]
  obtain p where "ppp_dispatch list_osmo lab_hdlc lab_gsmtap (\<lambda>n. - 1) ?ev lab_ppp_start = Inr p"
    "ppp_bridged list_osmo (\<lambda>n. - 1) lab_sent lab_part lab_decoded ?h ?h (pppd_rfc1662_encode [0x21, 7]) p"
    by (auto simp: lab_ppp_start_def event_bytes_def)
  then show ?thesis
    unfolding ppp_bridged_def d by auto
qed

end
