(* ===== verification/Tty_Call.thy ===== *)
theory Tty_Call
  imports Yate_Proofs Osmo_Core Telnet Complex_Main
begin

text \<open>
  The text telephone call handler, \<open>src/yate_tty.c\<close>, with the conversions between samples
  and floating point numbers of \<open>src/yate.c\<close>: the channel is handed to a modem process as
  floating point samples and filled with those the process returns, and text is copied
  between the modem and a telnet connection.

  Floating point numbers are rational numbers here. The conversions are exact in binary32:
  a 16 bit integer divided by 32768 is representable, and the multiplication by 32768
  changes the exponent only; an overflow of it lies beyond the bounds that are clipped.
\<close>

section \<open>Floating point samples\<close>

definition yate_codec_slin_to_f32 :: "u16 list \<Rightarrow> rat list" where
  "yate_codec_slin_to_f32 samples = map (\<lambda>s. of_int (sint s) / 32768) samples"

text \<open>\<open>lrintf\<close> rounds to the nearest integer, to the even one of two.\<close>

definition lrintf :: "rat \<Rightarrow> int" where
  "lrintf q =
     (let n = \<lfloor>q\<rfloor>; r = q - of_int n in
      if r < 1 / 2 then n else if 1 / 2 < r then n + 1 else if even n then n else n + 1)"

definition yate_codec_f32_to_slin :: "rat list \<Rightarrow> u16 list" where
  "yate_codec_f32_to_slin fs = map (\<lambda>f.
     let scaled_value = f * 32768 in
     if 32767 \<le> scaled_value then 32767
     else if scaled_value \<le> -32768 then -32768
     else of_int (lrintf scaled_value)) fs"

section \<open>State\<close>

record 't tty_call =
  tty_s2a :: "nat \<Rightarrow> byte"
  minimodem_samples :: "rat list"
  minimodem_data :: "byte list"
  tty_ofd :: bool
  tty_out :: "byte list"
  tty_read :: bool
  tcp_disconnected :: bool
  tty_exit_timer :: 't

section \<open>Samples\<close>

text \<open>
  \<open>rd\<close> are the samples \<open>read\<close> returned from the modem process, none when it failed; they are
  no more than asked for. The buffer for linear samples has 4096 bytes. The pipe to the receiving
  modem is a blocking one, so that as long as the modem lives the write ends with all samples taken.
\<close>

definition tty_handle_sample_buffer ::
    "rat list \<Rightarrow> byte list \<Rightarrow> 't tty_call \<Rightarrow> fault + byte list \<times> 't tty_call" where
  "tty_handle_sample_buffer rd in_buf c =
     (if 4096 < 2 * length in_buf then Inl ArrayOverrun
      else
        let num_samples = length in_buf;
            slin = yate_codec_alaw_to_slin in_buf;
            c = c\<lparr>minimodem_samples := minimodem_samples c @ yate_codec_slin_to_f32 slin\<rparr>;
            f32 = take num_samples (rd @ replicate num_samples 0);
            (out_buf, s2a) = yate_codec_slin_to_alaw (yate_codec_f32_to_slin f32) (tty_s2a c)
        in Inr (out_buf, c\<lparr>tty_s2a := s2a\<rparr>))"

section \<open>Text\<close>

text \<open>
  \<open>rd\<close> are the bytes a descriptor has, of which \<open>read\<close> delivers what \<open>text_buf\<close> holds, or \<open>None\<close> when \<open>read\<close>
  fails; without a byte both handlers stop. \<open>rc\<close> is what \<open>write\<close> then returns: there is no queue, and
  what it does not take is lost.
\<close>

definition text_read :: "byte list option \<Rightarrow> byte list" where
  "text_read rd = (case rd of None \<Rightarrow> [] | Some bs \<Rightarrow> take 8192 bs)"

definition tty_telnet_rx_cb :: "byte list option \<Rightarrow> int \<Rightarrow> 't tty_call \<Rightarrow> int \<times> 't tty_call" where
  "tty_telnet_rx_cb rd rc c =
     (let text_buf = text_read rd in
      if text_buf = [] then (-1, c\<lparr>tcp_disconnected := True, tty_read := False\<rparr>)
      else (0, c\<lparr>minimodem_data := minimodem_data c @ took rc text_buf\<rparr>))"

definition minimodem_rx_cb :: "byte list option \<Rightarrow> int \<Rightarrow> 't tty_call \<Rightarrow> int \<times> 't tty_call" where
  "minimodem_rx_cb rd rc c =
     (if \<not> tty_ofd c then (-1, c)
      else
        let text_buf = text_read rd in
        if text_buf = [] then (-1, c)
        else (0, c\<lparr>tty_out := tty_out c @ took rc text_buf\<rparr>))"

definition tty_call_initialize ::
    "sock_api \<Rightarrow> int \<Rightarrow> string \<Rightarrow> u16 \<Rightarrow> osmo_fd \<Rightarrow> 't tty_call \<Rightarrow> fault + 't tty_call" where
  "tty_call_initialize S on hostname port ofd c =
     (let (rc, ofd, set) = telnet_init S on hostname port ofd (tty_ofd c) in
      if rc < 0 then Inl ExitFailure else Inr (c\<lparr>tty_ofd := set, tty_read := ofd_reads ofd\<rparr>))"

definition tty_force_exit_cb :: "'t tty_call \<Rightarrow> fault + 't tty_call" where
  "tty_force_exit_cb c = Inl ExitFailure"

definition tty_main_step :: "('m, 'q, 't) osmo_api \<Rightarrow> 't tty_call \<Rightarrow> 't tty_call" where
  "tty_main_step L c =
     (if tcp_disconnected c
      then c\<lparr>tcp_disconnected := False,
             tty_exit_timer := timer_schedule L (timer_setup L (tty_exit_timer c) (Some Force_exit_cb)) 10 0\<rparr>
      else c)"

section \<open>The conversions\<close>

lemma lrintf_int [simp]: "lrintf (of_int n) = n"
  by (simp add: lrintf_def)

lemma sint_u16: "-32768 \<le> sint (s :: u16)" "sint (s :: u16) \<le> 32767"
  using sint_greater_eq [of s] sint_less [of s] by simp_all

lemma f32_to_slin_inverse: "yate_codec_f32_to_slin (yate_codec_slin_to_f32 ss) = ss"
proof -
  have one: "(let v = of_int (sint s) / 32768 * 32768 :: rat in if 32767 \<le> v then 32767
     else if v \<le> -32768 then -32768 else of_int (lrintf v)) = s" for s :: u16
  proof -
    have "of_int (sint s) / 32768 * 32768 = (of_int (sint s) :: rat)"
      by (rule nonzero_eq_divide_eq [THEN iffD1, OF _ refl]) simp
    moreover have "(32767 :: rat) \<le> of_int (sint s) \<longleftrightarrow> sint s = 32767"
      using sint_u16(2) [of s] by (metis antisym of_int_le_iff of_int_numeral order_refl)
    moreover have "(of_int (sint s) :: rat) \<le> -32768 \<longleftrightarrow> sint s = -32768"
      using sint_u16(1) [of s] by (metis antisym of_int_le_iff of_int_neg_numeral order_refl)
    moreover have "of_int (sint s) = s" by simp
    ultimately show ?thesis
      unfolding Let_def lrintf_int by (metis lrintf_int of_int_neg_numeral of_int_numeral)
  qed
  show ?thesis
    unfolding yate_codec_f32_to_slin_def yate_codec_slin_to_f32_def map_map comp_def
    by (intro map_idI one)
qed

text \<open>The nearest sample, for every number in range; numbers out of range are clipped.\<close>

lemma lrintf_near: "\<bar>of_int (lrintf q) - q\<bar> \<le> 1 / 2"
proof -
  have "of_int \<lfloor>q\<rfloor> \<le> q" "q < of_int \<lfloor>q\<rfloor> + 1" by linarith+
  then have "0 \<le> q - of_int \<lfloor>q\<rfloor>" "q - of_int \<lfloor>q\<rfloor> < 1" by simp_all
  then show ?thesis by (simp add: lrintf_def Let_def abs_le_iff)
qed

lemma lrintf_range:
  assumes "-32768 < q" and "q < 32767"
  shows "-32768 \<le> lrintf q" "lrintf q \<le> 32767"
proof -
  have "(of_int (lrintf q) :: rat) < of_int 32768" "of_int (-32769) < (of_int (lrintf q) :: rat)"
    using lrintf_near [of q] assms by (simp_all add: abs_if split: if_splits)
  then show "-32768 \<le> lrintf q" "lrintf q \<le> 32767"
    unfolding of_int_less_iff by simp_all
qed

lemma f32_to_slin_near:
  assumes "-1 \<le> f" and "f \<le> 1"
  shows "\<bar>of_int (sint (yate_codec_f32_to_slin [f] ! 0)) - f * 32768\<bar> \<le> 1"
proof -
  have u: "sint (of_int n :: u16) = n" if "-32768 \<le> n" "n \<le> 32767" for n
    using that by (simp add: signed_of_int signed_take_bit_int_eq_self)
  consider "32767 \<le> f * 32768" | "f * 32768 \<le> -32768" | "-32768 < f * 32768" "f * 32768 < 32767"
    by linarith
  then show ?thesis
  proof cases
    case 3
    with u lrintf_range [OF 3] lrintf_near [of "f * 32768"] show ?thesis
      by (simp add: yate_codec_f32_to_slin_def Let_def)
  qed (use assms u [of 32767] u [of "-32768"] in \<open>simp_all add: yate_codec_f32_to_slin_def Let_def abs_if\<close>)
qed

section \<open>Property\<close>

text \<open>
  C31: the modem hears the channel and the channel carries the modem. Of a buffer of up to
  2048 samples the modem process gets the A-law expansion of every byte as a fraction of
  full scale, exactly; when it returns the samples of some bytes, the channel gets these
  bytes, and silence for what the modem did not deliver; and a number between the samples
  becomes one at most one step away.
\<close>

theorem tty_samples_exact:
  assumes "table_ok (tty_s2a c)" and "2 * length in_buf \<le> 4096"
    and "rd = yate_codec_slin_to_f32 (yate_codec_alaw_to_slin bs)" and "length bs \<le> length in_buf"
  shows "\<exists>d. tty_handle_sample_buffer rd in_buf c = Inr (bs @ replicate (length in_buf - length bs) 0xd5, d) \<and>
    table_ok (tty_s2a d) \<and>
    minimodem_samples d = minimodem_samples c @ map (\<lambda>b. of_int (sint (a2s ! unat b)) / 32768) in_buf \<and>
    (\<forall>f. -1 \<le> f \<and> f \<le> 1 \<longrightarrow> \<bar>of_int (sint (yate_codec_f32_to_slin [f] ! 0)) - f * 32768\<bar> \<le> 1)"
proof -
  let ?n = "length in_buf" and ?s = "yate_codec_alaw_to_slin bs"
  let ?t = "snd (yate_codec_slin_to_alaw ?s (tty_s2a c))"
  have t: "?t = (if tty_s2a c 0 = 0 then yate_codec_alaw_slin_init (tty_s2a c) else tty_s2a c)"
    by (simp add: yate_codec_slin_to_alaw_def Let_def)
  have inv: "map (\<lambda>s. ?t (unat s)) ?s = bs" "table_ok ?t"
    using slin_to_alaw_inverse [OF assms(1), of bs ?s] unfolding t
    by (auto simp: yate_codec_slin_to_alaw_def Let_def)
  have z: "?t 0 = 0xd5"
    using assms(1) unfolding t by (auto simp: table_ok_def init_eq)
  have "yate_codec_f32_to_slin (take ?n (rd @ replicate ?n 0)) = ?s @ replicate (?n - length bs) 0"
    using assms(3,4) f32_to_slin_inverse [of ?s]
    by (simp add: yate_codec_f32_to_slin_def yate_codec_slin_to_f32_def yate_codec_alaw_to_slin_def take_replicate lrintf_def)
  then have "yate_codec_slin_to_alaw (yate_codec_f32_to_slin (take ?n (rd @ replicate ?n 0))) (tty_s2a c) =
      (bs @ replicate (?n - length bs) 0xd5, ?t)"
    using inv(1) z unfolding t by (simp add: yate_codec_slin_to_alaw_def Let_def)
  then show ?thesis
    using assms(2) inv(2) f32_to_slin_near
    by (simp add: tty_handle_sample_buffer_def Let_def yate_codec_slin_to_f32_def yate_codec_alaw_to_slin_def)
qed

theorem tty_samples_exact_witness:
  "\<exists>d. tty_handle_sample_buffer (yate_codec_slin_to_f32 (yate_codec_alaw_to_slin [0x12])) [0x55, 0xd5]
      \<lparr>tty_s2a = (\<lambda>i. 0), minimodem_samples = [], minimodem_data = [], tty_ofd = False, tty_out = [],
       tty_read = False, tcp_disconnected = False, tty_exit_timer = ()\<rparr> = Inr ([0x12, 0xd5], d) \<and>
     minimodem_samples d = [of_int (sint (0xFFF8 :: u16)) / 32768, of_int (sint (0x0008 :: u16)) / 32768]"
proof -
  have "a2s ! unat (0x55 :: byte) = 0xFFF8" "a2s ! unat (0xd5 :: byte) = 0x0008"
    by code_simp+
  with tty_samples_exact [of "\<lparr>tty_s2a = (\<lambda>i. 0), minimodem_samples = [], minimodem_data = [], tty_ofd = False, tty_out = [],
       tty_read = False, tcp_disconnected = False, tty_exit_timer = ()\<rparr>" "[0x55, 0xd5]" _ "[0x12]", OF _ _ refl]
  show ?thesis
    by (auto simp: table_ok_def)
qed

text \<open>
  The end of the telnet connection: reading stops, and the main loop starts the timer that
  ends the process.
\<close>

context osmo_lib
begin

lemma tty_disconnect_exits:
  "tty_main_step L (snd (tty_telnet_rx_cb None rc c)) = d \<Longrightarrow>
   \<not> tty_read d \<and> timer_pending L (tty_exit_timer d) \<and> timer_cb L (tty_exit_timer d) = Some Force_exit_cb"
  by (auto simp: tty_main_step_def tty_telnet_rx_cb_def text_read_def timer_simps)

end

end
