(* ===== verification/Minimodem.thy ===== *)
theory Minimodem
  imports Os_Files
begin

text \<open>
  The modem processes of a text telephone call, \<open>src/ttytdd/minimodem.c\<close>: a transmitter
  that turns text into samples and a receiver that turns samples into text, each behind two
  pipes.
\<close>

section \<open>The program\<close>

definition MINIMODEM_CMD :: string where
  "MINIMODEM_CMD = ''/root/yate/share/scripts/tty/minimodem/src/minimodem''"

definition TTY_MINIMODEM_BUFFER_SIZE :: nat where "TTY_MINIMODEM_BUFFER_SIZE = 8"

definition minimodem_child :: "int \<Rightarrow> int \<Rightarrow> fd_table \<Rightarrow> fd_table" where
  "minimodem_child parent_write_fd child_write_fd t =
     (let t = close_fd 1 (close_fd 0 t);
          t = dup2_fd child_write_fd 1 (dup2_fd parent_write_fd 0 t) in
      close_fd 4 (close_fd 3 (close_fd 2 t)))"

text \<open>The result, the process number, the state of the parent, what the child became.\<close>

definition minimodem_run ::
    "os_env \<Rightarrow> int \<Rightarrow> int \<Rightarrow> string list \<Rightarrow> proc_os \<Rightarrow> int \<times> int \<times> proc_os \<times> child option" where
  "minimodem_run env parent_write_fd child_write_fd stropt st =
     (let minimodem_pid = fork_rc env in
      if minimodem_pid < 0 then (- EINVAL, minimodem_pid, st, None)
      else (0, minimodem_pid,
            fold strfree stropt (sys_close child_write_fd (sys_close parent_write_fd st)),
            Some (execv env MINIMODEM_CMD stropt
              (minimodem_child parent_write_fd child_write_fd (fds st)))))"

record modem =
  md_rc :: int
  md_pid :: int
  md_in :: int
  md_out :: int
  md_os :: proc_os
  md_child :: "child option"

definition tx_args :: "string list" where
  "tx_args = [MINIMODEM_CMD, ''--tx'', ''--baudot'', ''--quiet'', ''--samplerate'', ''8000'',
     ''--stdio'', ''tdd'']"

definition rx_args :: "string list" where
  "rx_args = [MINIMODEM_CMD, ''--rx'', ''--baudot'', ''--samplerate'', ''8000'', ''--stdio'', ''tdd'']"

text \<open>
  \<open>pw\<close> and \<open>cw\<close> are what the uninitialised arrays for the descriptors of the pipes hold, \<open>pid\<close>,
  \<open>fd_in\<close> and \<open>fd_out\<close> the values of the variables of the caller.
\<close>

definition minimodem_run_tty_tx ::
    "os_env \<Rightarrow> int \<times> int \<Rightarrow> int \<times> int \<Rightarrow> int \<Rightarrow> int \<Rightarrow> int \<Rightarrow> proc_os \<Rightarrow> modem" where
  "minimodem_run_tty_tx env pw cw pid fd_in fd_out st =
     (let (parent_write, st) = sys_pipe env pw st;
          (child_write, st) = sys_pipe env cw st;
          capacity = 160 * 4 * TTY_MINIMODEM_BUFFER_SIZE;
          (ret, st) = fcntl_pipe_size env (fst child_write) capacity st;
          (ret, st) = fcntl_pipe_size env (snd child_write) capacity st;
          (ret, st) = fcntl_nonblock env (fst child_write) st in
      if ret \<noteq> 0 then \<lparr>md_rc = - EINVAL, md_pid = pid, md_in = fd_in, md_out = fd_out, md_os = st,
                        md_child = None\<rparr>
      else
        let st = fold strdup tx_args st;
            (rc, pid, st, ch) = minimodem_run env (fst parent_write) (snd child_write) tx_args st in
        \<lparr>md_rc = rc, md_pid = pid, md_in = snd parent_write, md_out = fst child_write, md_os = st,
         md_child = ch\<rparr>)"

definition minimodem_run_tty_rx ::
    "os_env \<Rightarrow> int \<times> int \<Rightarrow> int \<times> int \<Rightarrow> proc_os \<Rightarrow> modem" where
  "minimodem_run_tty_rx env pw cw st =
     (let (parent_write, st) = sys_pipe env pw st;
          (child_write, st) = sys_pipe env cw st;
          st = fold strdup rx_args st;
          (rc, pid, st, ch) = minimodem_run env (fst parent_write) (snd child_write) rx_args st in
      \<lparr>md_rc = rc, md_pid = pid, md_in = snd parent_write, md_out = fst child_write, md_os = st,
       md_child = ch\<rparr>)"

section \<open>Connections\<close>

lemma run_ok:
  assumes "fds st p = Some f" and "fds st c = Some g" and "5 \<le> p" and "5 \<le> c"
    and "0 < fork_rc env" and "exec_ok env MINIMODEM_CMD" and "heap st = h + mset stropt"
  obtains t where "minimodem_run env p c stropt st = (0, fork_rc env,
      st\<lparr>fds := (fds st)(p := None, c := None), heap := h\<rparr>, Some (Exec MINIMODEM_CMD stropt t))"
    and "\<And>j. t j = (if j = 0 then Some f else if j = 1 then Some g
      else if 2 \<le> j \<and> j \<le> 4 then None else fds st j)"
proof (rule that [of "minimodem_child p c (fds st)"])
  show "minimodem_run env p c stropt st = (0, fork_rc env,
      st\<lparr>fds := (fds st)(p := None, c := None), heap := h\<rparr>,
      Some (Exec MINIMODEM_CMD stropt (minimodem_child p c (fds st))))"
    using assms(5-7) by (simp add: minimodem_run_def Let_def execv_def fold_strfree sys_close_def close_fd_def)
  show "minimodem_child p c (fds st) j = (if j = 0 then Some f else if j = 1 then Some g
      else if 2 \<le> j \<and> j \<le> 4 then None else fds st j)" for j
    unfolding minimodem_child_def Let_def fdt.close_engine fdt.wired [of "fds st", OF assms(1-4)]
    by auto
qed

text \<open>The two pipes of a modem: descriptors, and the state with them.\<close>

definition with_pipes :: "int list \<Rightarrow> proc_os \<Rightarrow> proc_os" where
  "with_pipes ds st =
     (let k = pipes st in
      st\<lparr>fds := (fds st)(ds ! 0 \<mapsto> PipeRead k, ds ! 1 \<mapsto> PipeWrite k,
           ds ! 2 \<mapsto> PipeRead (Suc k), ds ! 3 \<mapsto> PipeWrite (Suc k)),
         pipes := k + 2, pipe_cap := (pipe_cap st)(k := 65536, Suc k := 65536)\<rparr>)"

definition new_fds :: "os_env \<Rightarrow> proc_os \<Rightarrow> int list \<Rightarrow> bool" where
  "new_fds env st ds \<longleftrightarrow> distinct ds \<and>
     list_all (\<lambda>i. 5 \<le> i \<and> i < int (open_max env) \<and> fds st i = None) ds"

lemma two_pipes:
  assumes "engine_fds (fds st)" and "4 \<le> free_fds (open_max env) (fds st)"
  obtains pr pw cr cw u where "sys_pipe env a st = ((pr, pw), u)"
    and "sys_pipe env b u = ((cr, cw), with_pipes [pr, pw, cr, cw] st)"
    and "new_fds env st [pr, pw, cr, cw]"
proof -
  obtain pr pw where 1: "sys_pipe env a st = ((pr, pw), st\<lparr>
      fds := (fds st)(pr \<mapsto> PipeRead (pipes st), pw \<mapsto> PipeWrite (pipes st)),
      pipes := Suc (pipes st), pipe_cap := (pipe_cap st)(pipes st := 65536)\<rparr>)"
    and p: "5 \<le> pr" "pr < int (open_max env)" "fds st pr = None"
      "5 \<le> pw" "pw < int (open_max env)" "fds st pw = None" "pr \<noteq> pw"
    using assms by (elim sys_pipe_ok [of st env a]) auto
  define u where "u = st\<lparr>
      fds := (fds st)(pr \<mapsto> PipeRead (pipes st), pw \<mapsto> PipeWrite (pipes st)),
      pipes := Suc (pipes st), pipe_cap := (pipe_cap st)(pipes st := 65536)\<rparr>"
  have "engine_fds (fds u)"
    using assms(1) p by (simp add: u_def engine_fds_upd)
  moreover have "2 \<le> free_fds (open_max env) (fds u)"
    using assms(2) p by (simp add: u_def free_fds_upd)
  ultimately obtain cr cw where 2: "sys_pipe env b u = ((cr, cw), u\<lparr>
      fds := (fds u)(cr \<mapsto> PipeRead (pipes u), cw \<mapsto> PipeWrite (pipes u)),
      pipes := Suc (pipes u), pipe_cap := (pipe_cap u)(pipes u := 65536)\<rparr>)"
    and c: "5 \<le> cr" "cr < int (open_max env)" "fds u cr = None"
      "5 \<le> cw" "cw < int (open_max env)" "fds u cw = None" "cr \<noteq> cw"
    by (rule sys_pipe_ok [of u env b]) (rule that)
  show ?thesis
  proof (rule that [of pr pw u cr cw])
    show "sys_pipe env a st = ((pr, pw), u)" using 1 by (simp add: u_def)
    show "sys_pipe env b u = ((cr, cw), with_pipes [pr, pw, cr, cw] st)"
      using 2 by (simp add: u_def with_pipes_def Let_def)
    show "new_fds env st [pr, pw, cr, cw]"
      using p c by (auto simp: u_def new_fds_def split: if_splits)
  qed
qed

text \<open>
  What one started modem is: the caller has the write end of the pipe that is the modem's
  standard input and the read end of the one that is its standard output, and no other new
  descriptor; the modem has the opposite ends, nothing of the engine, and besides everything
  the caller had open, its own copy of the write end of its input among it.
\<close>

definition modem_on :: "os_env \<Rightarrow> string list \<Rightarrow> proc_os \<Rightarrow> modem \<Rightarrow> bool" where
  "modem_on env args st m \<longleftrightarrow> (\<exists>t. md_rc m = 0 \<and> md_pid m = fork_rc env \<and>
     new_fds env st [md_in m, md_out m] \<and>
     fds (md_os m) = (fds st)(md_in m \<mapsto> PipeWrite (pipes st), md_out m \<mapsto> PipeRead (Suc (pipes st))) \<and>
     pipes (md_os m) = pipes st + 2 \<and> heap (md_os m) = heap st \<and>
     md_child m = Some (Exec MINIMODEM_CMD args t) \<and>
     t 0 = Some (PipeRead (pipes st)) \<and> t 1 = Some (PipeWrite (Suc (pipes st))) \<and>
     t 2 = None \<and> t 3 = None \<and> t 4 = None \<and> t (md_in m) = Some (PipeWrite (pipes st)) \<and>
     (\<forall>j f. 5 \<le> j \<longrightarrow> fds st j = Some f \<longrightarrow> t j = Some f))"

text \<open>The common part of both starts, from the state in which the arguments are copied.\<close>

lemma modem_started:
  assumes ds: "new_fds env st [pr, pw, cr, cw]" and "fds u = fds (with_pipes [pr, pw, cr, cw] st)"
    and "pipes u = pipes st + 2" and "heap u = heap st"
    and "0 < fork_rc env" and "exec_ok env MINIMODEM_CMD"
  obtains v ch where "minimodem_run env pr cw args (fold strdup args u) = (0, fork_rc env, v, Some ch)"
    and "modem_on env args st \<lparr>md_rc = 0, md_pid = fork_rc env, md_in = pw, md_out = cr,
      md_os = v, md_child = Some ch\<rparr>"
    and "nonblock v = nonblock u" and "pipe_cap v = pipe_cap u"
proof -
  let ?u = "fold strdup args u"
  let ?k = "pipes st"
  have u0: "fds u = (fds st)(pr \<mapsto> PipeRead ?k, pw \<mapsto> PipeWrite ?k,
      cr \<mapsto> PipeRead (Suc ?k), cw \<mapsto> PipeWrite (Suc ?k))"
    using assms(2) by (simp add: with_pipes_def Let_def)
  then have u: "fds ?u = fds u"
    by (simp add: fold_strdup)
  have d: "distinct [pr, pw, cr, cw]" "5 \<le> pr" "5 \<le> cw" "5 \<le> pw" "fds st pr = None" "fds st cw = None"
    "fds st pw = None" "fds st cr = None"
    using ds by (simp_all add: new_fds_def)
  have "fds ?u pr = Some (PipeRead ?k)" and "fds ?u cw = Some (PipeWrite (Suc ?k))"
    using d by (simp_all add: u u0)
  then obtain t where r: "minimodem_run env pr cw args ?u = (0, fork_rc env,
      ?u\<lparr>fds := (fds ?u)(pr := None, cw := None), heap := heap st\<rparr>, Some (Exec MINIMODEM_CMD args t))"
    and t: "\<And>j. t j = (if j = 0 then Some (PipeRead ?k) else if j = 1 then Some (PipeWrite (Suc ?k))
      else if 2 \<le> j \<and> j \<le> 4 then None else fds ?u j)"
    using assms(4-6) d
    by (elim run_ok [of ?u pr _ cw _ env "heap st" args]) (auto simp: fold_strdup)
  show ?thesis
  proof (rule that [OF r])
    have "(fds ?u)(pr := None, cw := None) = (fds st)(pw \<mapsto> PipeWrite ?k, cr \<mapsto> PipeRead (Suc ?k))"
      using d by (auto simp: u u0 fun_eq_iff)
    then show "modem_on env args st \<lparr>md_rc = 0, md_pid = fork_rc env, md_in = pw, md_out = cr,
        md_os = ?u\<lparr>fds := (fds ?u)(pr := None, cw := None), heap := heap st\<rparr>,
        md_child = Some (Exec MINIMODEM_CMD args t)\<rparr>"
      using ds d assms(3) t by (auto simp: modem_on_def fold_strdup u0 new_fds_def)
  qed (simp_all add: fold_strdup)
qed

lemma pipe_size_set:
  assumes "fds st i = Some (PipeRead k) \<or> fds st i = Some (PipeWrite k)" and "pipe_grant env n = Some c"
  shows "fcntl_pipe_size env i n st = (int c, st\<lparr>pipe_cap := (pipe_cap st)(k := c)\<rparr>)"
  using assms by (auto simp: fcntl_pipe_size_def)

definition modems_ready :: "os_env \<Rightarrow> bool" where
  "modems_ready env \<longleftrightarrow> (\<forall>k. setfl_ok env (PipeRead k)) \<and> 0 < fork_rc env \<and> exec_ok env MINIMODEM_CMD \<and>
     pipe_grant env (160 * 4 * TTY_MINIMODEM_BUFFER_SIZE) \<noteq> None"

lemma tx_started:
  fixes x y :: "int \<times> int" and pid fd_in fd_out :: int
  assumes "engine_fds (fds st)" and "4 \<le> free_fds (open_max env) (fds st)" and "modems_ready env"
  defines "m \<equiv> minimodem_run_tty_tx env x y pid fd_in fd_out st"
  shows "modem_on env tx_args st m" and "nonblock (md_os m) = PipeRead (Suc (pipes st)) # nonblock st"
    and "pipe_grant env (160 * 4 * TTY_MINIMODEM_BUFFER_SIZE) = Some (pipe_cap (md_os m) (Suc (pipes st)))"
proof -
  obtain pr pw cr cw u where p: "sys_pipe env x st = ((pr, pw), u)"
    "sys_pipe env y u = ((cr, cw), with_pipes [pr, pw, cr, cw] st)"
    and ds: "new_fds env st [pr, pw, cr, cw]"
    by (rule two_pipes [OF assms(1,2), of x y]) (rule that)
  let ?n = "160 * 4 * TTY_MINIMODEM_BUFFER_SIZE"
  let ?w = "with_pipes [pr, pw, cr, cw] st"
  obtain c where c: "pipe_grant env ?n = Some c"
    using assms(3) by (auto simp: modems_ready_def)
  have w: "fds ?w cr = Some (PipeRead (Suc (pipes st)))" "fds ?w cw = Some (PipeWrite (Suc (pipes st)))"
    using ds by (auto simp: with_pipes_def Let_def new_fds_def)
  define v where "v = ?w\<lparr>pipe_cap := (pipe_cap ?w)(Suc (pipes st) := c),
      nonblock := PipeRead (Suc (pipes st)) # nonblock st\<rparr>"
  have run: "fcntl_pipe_size env cr ?n ?w = (int c, ?w\<lparr>pipe_cap := (pipe_cap ?w)(Suc (pipes st) := c)\<rparr>)"
    "fcntl_pipe_size env cw ?n (?w\<lparr>pipe_cap := (pipe_cap ?w)(Suc (pipes st) := c)\<rparr>) =
      (int c, ?w\<lparr>pipe_cap := (pipe_cap ?w)(Suc (pipes st) := c)\<rparr>)"
    using w c by (simp_all add: pipe_size_set)
  have nb: "fcntl_nonblock env cr (?w\<lparr>pipe_cap := (pipe_cap ?w)(Suc (pipes st) := c)\<rparr>) = (0, v)"
    using w assms(3) by (simp add: fcntl_nonblock_def modems_ready_def v_def with_pipes_def Let_def)
  have go: "0 < fork_rc env" "exec_ok env MINIMODEM_CMD"
    using assms(3) by (simp_all add: modems_ready_def)
  have v: "fds v = fds ?w" "pipes v = pipes st + 2" "heap v = heap st"
    by (simp_all add: v_def with_pipes_def Let_def)
  obtain z ch where z: "minimodem_run env pr cw tx_args (fold strdup tx_args v) =
      (0, fork_rc env, z, Some ch)"
    and on: "modem_on env tx_args st \<lparr>md_rc = 0, md_pid = fork_rc env, md_in = pw, md_out = cr,
      md_os = z, md_child = Some ch\<rparr>"
    and rest: "nonblock z = nonblock v" "pipe_cap z = pipe_cap v"
    by (rule modem_started [OF ds v go, of tx_args]) (rule that)
  have m: "m = \<lparr>md_rc = 0, md_pid = fork_rc env, md_in = pw, md_out = cr, md_os = z, md_child = Some ch\<rparr>"
    unfolding m_def minimodem_run_tty_tx_def using p run nb z by (simp add: Let_def)
  show "modem_on env tx_args st m" unfolding m by (rule on)
  show "nonblock (md_os m) = PipeRead (Suc (pipes st)) # nonblock st"
    and "pipe_grant env ?n = Some (pipe_cap (md_os m) (Suc (pipes st)))"
    using rest c by (simp_all add: m v_def)
qed

lemma rx_started:
  fixes x y :: "int \<times> int"
  assumes "engine_fds (fds st)" and "4 \<le> free_fds (open_max env) (fds st)" and "modems_ready env"
  defines "m \<equiv> minimodem_run_tty_rx env x y st"
  shows "modem_on env rx_args st m" and "nonblock (md_os m) = nonblock st"
    and "k < pipes st \<Longrightarrow> pipe_cap (md_os m) k = pipe_cap st k"
proof -
  obtain pr pw cr cw u where p: "sys_pipe env x st = ((pr, pw), u)"
    "sys_pipe env y u = ((cr, cw), with_pipes [pr, pw, cr, cw] st)"
    and ds: "new_fds env st [pr, pw, cr, cw]"
    by (rule two_pipes [OF assms(1,2), of x y]) (rule that)
  let ?w = "with_pipes [pr, pw, cr, cw] st"
  have go: "0 < fork_rc env" "exec_ok env MINIMODEM_CMD"
    using assms(3) by (simp_all add: modems_ready_def)
  have w: "pipes ?w = pipes st + 2" "heap ?w = heap st" "nonblock ?w = nonblock st"
    "k < pipes st \<Longrightarrow> pipe_cap ?w k = pipe_cap st k"
    by (simp_all add: with_pipes_def Let_def)
  obtain z ch where z: "minimodem_run env pr cw rx_args (fold strdup rx_args ?w) =
      (0, fork_rc env, z, Some ch)"
    and on: "modem_on env rx_args st \<lparr>md_rc = 0, md_pid = fork_rc env, md_in = pw, md_out = cr,
      md_os = z, md_child = Some ch\<rparr>"
    and rest: "nonblock z = nonblock ?w" "pipe_cap z = pipe_cap ?w"
    by (rule modem_started [OF ds refl w(1,2) go, of rx_args]) (rule that)
  have m: "m = \<lparr>md_rc = 0, md_pid = fork_rc env, md_in = pw, md_out = cr, md_os = z, md_child = Some ch\<rparr>"
    unfolding m_def minimodem_run_tty_rx_def using p z by (simp add: Let_def)
  show "modem_on env rx_args st m" unfolding m by (rule on)
  show "nonblock (md_os m) = nonblock st" and "k < pipes st \<Longrightarrow> pipe_cap (md_os m) k = pipe_cap st k"
    using rest w by (simp_all add: m)
qed

text \<open>Both starts, one after the other.\<close>

lemma modems_started:
  assumes "engine_fds (fds st)" and "6 \<le> free_fds (open_max env) (fds st)"
    and "modems_ready env" and "modems_ready env'" and "open_max env' = open_max env"
  shows "\<exists>tx rx. minimodem_run_tty_tx env a b pid fd_in fd_out st = tx \<and>
    minimodem_run_tty_rx env' c d (md_os tx) = rx \<and>
    modem_on env tx_args st tx \<and> modem_on env' rx_args (md_os tx) rx \<and>
    fds (md_os rx) = (fds st)(md_in tx \<mapsto> PipeWrite (pipes st), md_out tx \<mapsto> PipeRead (pipes st + 1),
      md_in rx \<mapsto> PipeWrite (pipes st + 2), md_out rx \<mapsto> PipeRead (pipes st + 3)) \<and>
    nonblock (md_os rx) = PipeRead (pipes st + 1) # nonblock st \<and>
    pipe_grant env (160 * 4 * TTY_MINIMODEM_BUFFER_SIZE) = Some (pipe_cap (md_os rx) (pipes st + 1)) \<and>
    heap (md_os rx) = heap st"
proof -
  define tx where "tx = minimodem_run_tty_tx env a b pid fd_in fd_out st"
  define rx where "rx = minimodem_run_tty_rx env' c d (md_os tx)"
  have "4 \<le> free_fds (open_max env) (fds st)" using assms(2) by simp
  note t = tx_started [OF assms(1) this assms(3), of a b pid fd_in fd_out, folded tx_def]
  have new: "new_fds env st [md_in tx, md_out tx]" and f: "fds (md_os tx) =
      (fds st)(md_in tx \<mapsto> PipeWrite (pipes st), md_out tx \<mapsto> PipeRead (Suc (pipes st)))"
    and p: "pipes (md_os tx) = pipes st + 2" and h: "heap (md_os tx) = heap st"
    using t(1) by (auto simp: modem_on_def)
  have "engine_fds (fds (md_os tx))"
    using assms(1) new by (simp add: f new_fds_def engine_fds_upd)
  moreover have "4 \<le> free_fds (open_max env') (fds (md_os tx))"
    using assms(2,5) new by (simp add: f new_fds_def free_fds_upd)
  ultimately have r: "modem_on env' rx_args (md_os tx) rx" "nonblock (md_os rx) = nonblock (md_os tx)"
      "pipe_cap (md_os rx) (Suc (pipes st)) = pipe_cap (md_os tx) (Suc (pipes st))"
    unfolding rx_def using rx_started assms(4) p by auto
  have "fds (md_os rx) = (fds (md_os tx))(md_in rx \<mapsto> PipeWrite (pipes (md_os tx)),
      md_out rx \<mapsto> PipeRead (Suc (pipes (md_os tx))))" and "heap (md_os rx) = heap (md_os tx)"
    using r(1) by (auto simp: modem_on_def)
  then show ?thesis
    using t r f p h unfolding tx_def [symmetric] rx_def [symmetric]
    by (intro exI [of _ tx] exI [of _ rx]) (simp add: numeral_3_eq_3 add.commute [of _ 3] rx_def [symmetric])
qed

text \<open>
  C21: the two modem processes of a call, started one after the other as the main routine
  does, when there are descriptors for them and the system grants what is asked of it: four pipes,
  of which the caller keeps four ends and nothing else; what it writes to
  the transmitter and to the receiver is their standard input, what they write is what it
  reads; none of them has the engine's standard error or sample descriptors, although a comment in the code
  says of the former that it is kept. Reading samples does not block the caller, and the pipe of the
  transmitter's samples has the capacity that the system grants for the one asked for.
\<close>

theorem modems_connected:
  assumes "engine_fds (fds st)" and "6 \<le> free_fds (open_max env) (fds st)"
    and "modems_ready env" and "modems_ready env'" and "open_max env' = open_max env"
  shows "\<exists>tx rx. minimodem_run_tty_tx env a b pid fd_in fd_out st = tx \<and>
    minimodem_run_tty_rx env' c d (md_os tx) = rx \<and>
    modem_on env tx_args st tx \<and> modem_on env' rx_args (md_os tx) rx \<and>
    fds (md_os rx) = (fds st)(md_in tx \<mapsto> PipeWrite (pipes st), md_out tx \<mapsto> PipeRead (pipes st + 1),
      md_in rx \<mapsto> PipeWrite (pipes st + 2), md_out rx \<mapsto> PipeRead (pipes st + 3)) \<and>
    nonblock (md_os rx) = PipeRead (pipes st + 1) # nonblock st \<and>
    pipe_grant env (160 * 4 * TTY_MINIMODEM_BUFFER_SIZE) = Some (pipe_cap (md_os rx) (pipes st + 1)) \<and>
    heap (md_os rx) = heap st"
  using assms by (rule modems_started)

definition lab_system :: os_env where
  "lab_system = \<lparr>open_max = 16, dev_open = (\<lambda>p. None), unlockpt_rc = (\<lambda>f. 0), pts_name = (\<lambda>f. None),
     tcgetattr_ok = (\<lambda>f. True), tcsetattr_ok = (\<lambda>f. True), setfl_ok = (\<lambda>f. True),
     pipe_grant = (\<lambda>n. Some 8192), fork_rc = 4711, exec_ok = (\<lambda>p. True)\<rparr>"

definition lab_handler :: proc_os where
  "lab_handler = \<lparr>fds = (\<lambda>i. if 0 \<le> i \<and> i < 5 then Some (Stream ''engine'') else None),
     nonblock = [], pipes = 0, pipe_cap = (\<lambda>k. 0), tio = (\<lambda>n. \<lparr>c_cflag = 0, c_lflag = 0\<rparr>), heap = {#}\<rparr>"

lemma lab_modems: "engine_fds (fds lab_handler)" "6 \<le> free_fds (open_max lab_system) (fds lab_handler)"
  by code_simp+

lemma lab_system_ready: "modems_ready lab_system"
  by (simp add: modems_ready_def lab_system_def)

theorem modems_connected_witness:
  "\<exists>tx rx. minimodem_run_tty_tx lab_system (0, 0) (0, 0) (- 1) (- 1) (- 1) lab_handler = tx \<and>
    minimodem_run_tty_rx lab_system (0, 0) (0, 0) (md_os tx) = rx \<and> md_rc tx = 0 \<and> md_rc rx = 0 \<and>
    pipe_cap (md_os rx) 1 = 8192"
  using modems_connected [of lab_handler lab_system lab_system "(0, 0)" "(0, 0)" "- 1" "- 1" "- 1" "(0, 0)" "(0, 0)",
      OF lab_modems lab_system_ready lab_system_ready refl]
  by (auto simp: modem_on_def lab_system_def lab_handler_def)

text \<open>
  A process sees the end of a pipe only when no process has the write end. The transmitter
  has one itself, so that the end of the text never reaches it: closing the caller's end of
  the pipe does not end the process.
\<close>

definition pipe_ended :: "nat \<Rightarrow> fd_table list \<Rightarrow> bool" where
  "pipe_ended k ts \<longleftrightarrow> (\<forall>t \<in> set ts. \<forall>i. t i \<noteq> Some (PipeWrite k))"

lemma modem_never_ends:
  assumes "modem_on env args st m" and "md_child m = Some (Exec path argv t)" and "t \<in> set ts"
  shows "\<not> pipe_ended (pipes st) ts"
  using assms by (auto simp: modem_on_def pipe_ended_def)

end
