(* ===== verification/Tty_Process.thy ===== *)
theory Tty_Process
  imports Tty_Call Minimodem
begin

text \<open>
  The whole process of a text telephone call, \<open>src/yate_tty.c\<close>: the start of \<open>main\<close> with its two
  modem processes, and every sequence of the events its loop dispatches. The handler is a
  relay: text goes from the telnet connection to the transmitting modem and from the
  receiving modem to the telnet connection, as far as the writes take it, and the receiving
  modem hears the channel.
\<close>

section \<open>The start\<close>

record 't tty_main =
  tm_hostname :: string
  tm_port :: u16
  tm_tx :: modem
  tm_rx :: modem
  tm_call :: "'t tty_call"

definition tty_statics :: "'t \<Rightarrow> 't tty_call" where
  "tty_statics t =
     \<lparr>tty_s2a = (\<lambda>i. 0), minimodem_samples = [], minimodem_data = [], tty_ofd = False, tty_out = [],
      tty_read = False, tcp_disconnected = False, tty_exit_timer = t\<rparr>"

text \<open>
  \<open>ctx\<close> tells whether the memory context can be had; \<open>env\<close> and \<open>env'\<close> are the answers of the system
  during the two starts, \<open>a\<close> to \<open>d\<close> what the uninitialised arrays of \<open>minimodem.c\<close> hold. The
  results of the starts are not looked at.
\<close>

definition tty_main_init ::
    "string list \<Rightarrow> bool \<Rightarrow> os_env \<Rightarrow> os_env \<Rightarrow> int \<times> int \<Rightarrow> int \<times> int \<Rightarrow> int \<times> int \<Rightarrow> int \<times> int \<Rightarrow> 't
     \<Rightarrow> proc_os \<Rightarrow> fault + 't tty_main" where
  "tty_main_init argv ctx env env' a b c d t st =
     (case main_args argv of
        Inl e \<Rightarrow> Inl e
      | Inr (hostname, port) \<Rightarrow>
          if \<not> ctx then Inl ExitFailure
          else
            let tx = minimodem_run_tty_tx env a b (-1) (-1) (-1) st;
                rx = minimodem_run_tty_rx env' c d (md_os tx) in
            Inr \<lparr>tm_hostname = hostname, tm_port = port, tm_tx = tx, tm_rx = rx, tm_call = tty_statics t\<rparr>)"

section \<open>Events\<close>

text \<open>
  The handler of the samples with what it reads from the modem, the start of the call by the
  engine, the handlers of the telnet connection and of the modem's text, each with what its
  \<open>read\<close> and its \<open>write\<close> return, the timer, and the part of the loop after the dispatch.
\<close>

datatype tty_event = Tty_line "rat list" "byte list" | Tty_start sock_api int osmo_fd
  | Tty_telnet "byte list option" int | Tty_modem "byte list option" int | Tty_exit | Tty_pass

definition tty_handler ::
    "('m, 'q, 't) osmo_api \<Rightarrow> string \<Rightarrow> u16 \<Rightarrow> tty_event \<Rightarrow> 't tty_call \<Rightarrow> fault + 't tty_call" where
  "tty_handler L hostname port ev c =
     (case ev of
        Tty_line rd in_buf \<Rightarrow> map_sum id snd (tty_handle_sample_buffer rd in_buf c)
      | Tty_start S on ofd \<Rightarrow> tty_call_initialize S on hostname port ofd c
      | Tty_telnet rd rc \<Rightarrow> Inr (snd (tty_telnet_rx_cb rd rc c))
      | Tty_modem rd rc \<Rightarrow> Inr (snd (minimodem_rx_cb rd rc c))
      | Tty_exit \<Rightarrow> tty_force_exit_cb c
      | Tty_pass \<Rightarrow> Inr (tty_main_step L c))"

primrec tty_run :: "('m, 'q, 't) osmo_api \<Rightarrow> tty_event list \<Rightarrow> 't tty_main \<Rightarrow> fault + 't tty_main" where
  "tty_run L [] m = Inr m"
| "tty_run L (ev # evs) m =
     (case tty_handler L (tm_hostname m) (tm_port m) ev (tm_call m) of
        Inl e \<Rightarrow> Inl e
      | Inr c \<Rightarrow> tty_run L evs (m\<lparr>tm_call := c\<rparr>))"

section \<open>The relay\<close>

text \<open>
  What the process is for: whether the engine has had the connection set up, the text the
  transmitter got, the text the telnet connection got, and the bytes of the channel the receiver
  has heard. The end of the connection does not clear the first: the code goes on writing the
  receiver's text to the socket.
\<close>

record relay =
  called :: bool
  to_modem :: "byte list"
  to_telnet :: "byte list"
  heard :: "byte list"

definition socket_ok :: "sock_api \<Rightarrow> int \<Rightarrow> string \<Rightarrow> u16 \<Rightarrow> osmo_fd \<Rightarrow> bool" where
  "socket_ok S on host port ofd \<longleftrightarrow>
     (case sock_init S host port of (rc, stored) \<Rightarrow>
        set_nodelay S (case stored of None \<Rightarrow> ofd_fd ofd | Some i \<Rightarrow> i) on = 0)"

definition relay_step :: "string \<Rightarrow> u16 \<Rightarrow> tty_event \<Rightarrow> relay \<Rightarrow> relay" where
  "relay_step host port ev r =
     (case ev of
        Tty_line rd in_buf \<Rightarrow> r\<lparr>heard := heard r @ in_buf\<rparr>
      | Tty_start S on ofd \<Rightarrow> r\<lparr>called := called r \<or> socket_ok S on host port ofd\<rparr>
      | Tty_telnet rd rc \<Rightarrow> r\<lparr>to_modem := to_modem r @ took rc (text_read rd)\<rparr>
      | Tty_modem rd rc \<Rightarrow> (if called r then r\<lparr>to_telnet := to_telnet r @ took rc (text_read rd)\<rparr> else r)
      | _ \<Rightarrow> r)"

definition relays :: "'t tty_call \<Rightarrow> relay \<Rightarrow> bool" where
  "relays c r \<longleftrightarrow> table_ok (tty_s2a c) \<and> tty_ofd c = called r \<and> minimodem_data c = to_modem r \<and> tty_out c = to_telnet r \<and>
     minimodem_samples c = yate_codec_slin_to_f32 (yate_codec_alaw_to_slin (heard r))"

text \<open>How an event may end the process, and the events that do not.\<close>

definition tty_ends :: "string \<Rightarrow> u16 \<Rightarrow> tty_event \<Rightarrow> fault option" where
  "tty_ends host port ev =
     (case ev of
        Tty_line rd in_buf \<Rightarrow> if 2048 < length in_buf then Some ArrayOverrun else None
      | Tty_start S on ofd \<Rightarrow> if fst (sock_init S host port) < 0 then Some ExitFailure else None
      | Tty_exit \<Rightarrow> Some ExitFailure
      | _ \<Rightarrow> None)"

lemma table_kept:
  assumes "table_ok t"
  shows "table_ok (snd (yate_codec_slin_to_alaw ss t))"
  using assms slin_to_alaw_inverse [OF assms, of "[]"]
  by (auto simp: yate_codec_slin_to_alaw_def yate_codec_alaw_to_slin_def Let_def)

lemma heard_append:
  "yate_codec_slin_to_f32 (yate_codec_alaw_to_slin (bs @ cs)) =
   yate_codec_slin_to_f32 (yate_codec_alaw_to_slin bs) @ yate_codec_slin_to_f32 (yate_codec_alaw_to_slin cs)"
  by (simp add: yate_codec_slin_to_f32_def yate_codec_alaw_to_slin_def)

lemma handler_relays:
  assumes "relays c r"
  shows "case tty_ends host port ev of
      Some e \<Rightarrow> tty_handler L host port ev c = Inl e
    | None \<Rightarrow> \<exists>d. tty_handler L host port ev c = Inr d \<and> relays d (relay_step host port ev r)"
proof (cases ev)
  case (Tty_line rd in_buf)
  let ?f = "yate_codec_f32_to_slin (take (length in_buf) (rd @ replicate (length in_buf) 0))"
  obtain out s2a where "yate_codec_slin_to_alaw ?f (tty_s2a c) = (out, s2a)" by force
  with assms Tty_line table_kept [of "tty_s2a c" ?f] show ?thesis
    by (auto simp: tty_ends_def tty_handler_def tty_handle_sample_buffer_def relays_def relay_step_def heard_append
        Let_def simp del: take_append)
next
  case (Tty_start S on ofd)
  obtain rc stored where "sock_init S host port = (rc, stored)" by force
  with assms Tty_start show ?thesis
    by (cases stored) (auto simp: tty_ends_def tty_handler_def tty_call_initialize_def telnet_init_def relays_def
        relay_step_def socket_ok_def Let_def)
next
  case (Tty_telnet rd rc)
  with assms show ?thesis
    by (auto simp: took_def Let_def tty_ends_def tty_handler_def tty_telnet_rx_cb_def relays_def relay_step_def)
next
  case (Tty_modem rd rc)
  with assms show ?thesis
    by (auto simp: took_def Let_def tty_ends_def tty_handler_def minimodem_rx_cb_def relays_def relay_step_def)
qed (use assms in \<open>auto simp: tty_ends_def tty_handler_def tty_force_exit_cb_def tty_main_step_def relays_def relay_step_def\<close>)

lemma run_relays:
  assumes "relays (tm_call m) r" and "\<forall>ev \<in> set evs. tty_ends (tm_hostname m) (tm_port m) ev = None"
  shows "\<exists>c. tty_run L evs m = Inr (m\<lparr>tm_call := c\<rparr>) \<and> relays c (fold (relay_step (tm_hostname m) (tm_port m)) evs r)"
  using assms
proof (induction evs arbitrary: m r)
  case Nil
  then show ?case by (auto intro: exI [of _ "tm_call m"])
next
  case (Cons ev evs)
  from handler_relays [OF Cons.prems(1), where host = "tm_hostname m" and port = "tm_port m" and ev = ev and L = L] Cons.prems(2)
  obtain c where c: "tty_handler L (tm_hostname m) (tm_port m) ev (tm_call m) = Inr c"
    "relays c (relay_step (tm_hostname m) (tm_port m) ev r)" by auto
  with Cons.IH [of "m\<lparr>tm_call := c\<rparr>"] Cons.prems(2) show ?case by auto
qed

section \<open>Property\<close>

text \<open>
  C22: a text telephone call as a relay. Started with a host and a port that the command line
  gives, with the memory and the descriptors it needs, the process has its two modems behind
  four pipes, and for every sequence of events that has neither the exit timer, nor a failing
  connection, nor more than 2048 samples at once, it does not fail: the transmitter has got
  exactly what the writes took of the text read from the telnet connection, the telnet
  connection exactly what the writes took of the receiver's text since the connection was set up
  (text read after the end of the connection is still written to the socket), and the receiver
  the samples of exactly the bytes of the channel, each in order.
\<close>

theorem tty_call_relayed:
  assumes "main_args argv = Inr (host, port)"
    and "engine_fds (fds st)" and "6 \<le> free_fds (open_max env) (fds st)"
    and "modems_ready env" and "modems_ready env'" and "open_max env' = open_max env"
    and "\<forall>ev \<in> set evs. tty_ends host port ev = None"
    and "r = fold (relay_step host port) evs \<lparr>called = False, to_modem = [], to_telnet = [], heard = []\<rparr>"
  shows "\<exists>m0 m. tty_main_init argv True env env' a b c d t st = Inr m0 \<and> tty_run L evs m0 = Inr m \<and>
    modem_on env tx_args st (tm_tx m) \<and> modem_on env' rx_args (md_os (tm_tx m)) (tm_rx m) \<and>
    minimodem_data (tm_call m) = to_modem r \<and> tty_out (tm_call m) = to_telnet r \<and>
    minimodem_samples (tm_call m) = map (\<lambda>b. of_int (sint (a2s ! unat b)) / 32768) (heard r)"
proof -
  let ?tx = "minimodem_run_tty_tx env a b (-1) (-1) (-1) st"
  let ?rx = "minimodem_run_tty_rx env' c d (md_os ?tx)"
  let ?m = "\<lparr>tm_hostname = host, tm_port = port, tm_tx = ?tx, tm_rx = ?rx, tm_call = tty_statics t\<rparr>"
  have start: "tty_main_init argv True env env' a b c d t st = Inr ?m"
    using assms(1) by (simp add: tty_main_init_def Let_def)
  have on: "modem_on env tx_args st ?tx" "modem_on env' rx_args (md_os ?tx) ?rx"
    using modems_started [OF assms(2-6), of a b "-1" "-1" "-1" c d] by auto
  have "relays (tm_call ?m) \<lparr>called = False, to_modem = [], to_telnet = [], heard = []\<rparr>"
    by (simp add: relays_def tty_statics_def table_ok_def yate_codec_slin_to_f32_def yate_codec_alaw_to_slin_def)
  from run_relays [OF this, of evs L] assms(7,8)
  obtain c' where "tty_run L evs ?m = Inr (?m\<lparr>tm_call := c'\<rparr>)" "relays c' r" by auto
  with start on show ?thesis
    by (auto simp: relays_def yate_codec_slin_to_f32_def yate_codec_alaw_to_slin_def comp_def)
qed

definition lab_tty_events :: "tty_event list" where
  "lab_tty_events = [Tty_start \<lparr>sock_init = (\<lambda>host port. (0, Some 6)), set_nodelay = (\<lambda>i on. 0)\<rparr> 1
       \<lparr>ofd_fd = 0, ofd_when = 0, ofd_cb = False\<rparr>,
     Tty_telnet (Some [72, 73]) 2, Tty_line [] [0x55, 0xd5], Tty_modem (Some [71, 65]) 1, Tty_modem (Some [10]) (- 1),
     Tty_telnet None 0, Tty_modem (Some [33]) 1, Tty_pass]"

theorem tty_call_relayed_witness:
  "\<exists>m0 m. tty_main_init [''yate_tty'', ''bbs 23''] True lab_system lab_system (0, 0) (0, 0) (0, 0) (0, 0) \<lparr>tmr_cb = None, tmr_due = None\<rparr> lab_handler
      = Inr m0 \<and> tty_run list_osmo lab_tty_events m0 = Inr m \<and>
    minimodem_data (tm_call m) = [72, 73] \<and> tty_out (tm_call m) = [71, 33] \<and> length (minimodem_samples (tm_call m)) = 2"
proof -
  have a: "main_args [''yate_tty'', ''bbs 23''] = Inr (''bbs'', 23)" by code_simp
  have e: "\<forall>ev \<in> set lab_tty_events. tty_ends ''bbs'' 23 ev = None"
    by (simp add: lab_tty_events_def tty_ends_def)
  show ?thesis
    using tty_call_relayed [OF a lab_modems lab_system_ready lab_system_ready refl e refl,
        of "(0, 0)" "(0, 0)" "(0, 0)" "(0, 0)" "\<lparr>tmr_cb = None, tmr_due = None\<rparr>" list_osmo]
    by (auto simp: lab_tty_events_def relay_step_def socket_ok_def text_read_def took_def)
qed

end
