(* ===== verification/Fax_Sync.thy ===== *)
theory Fax_Sync
  imports Fax_Pages V110_Call "HOL-Library.Sublist"
begin

text \<open>
  The program that decodes a recorded fax call, \<open>src/fax_test.c\<close>: the data bits of V.110 frames
  are searched for a synchronisation word of 64 bits, then cut into blocks of 64 bits, which
  go to the fax decoder once a block with the pattern of data mode has been seen.

  Demultiplexer, frame synchronisation and the decoder of V.110 frames are libosmocore's and
  enter as parameters. The two counters of the C code, of 8 and 32 bits, never exceed 64, so
  that they are natural numbers here.
\<close>

section \<open>State\<close>

definition syncword :: "byte list" where
  "syncword = [0x3E, 0x37, 0x50, 0x96, 0xC1, 0xC8, 0xAF, 0x69]"

record ('h, 't) fax_line =
  syncword_bits :: "byte list"
  syncpos :: nat
  nbit :: nat
  frame_bits :: "byte list"
  in_sync :: bool
  data_mode :: bool
  decoder :: "('h, 't) fax"

section \<open>Bits\<close>

text \<open>The loop that hands a block to the fax decoder.\<close>

primrec fax_feed :: "('h, 't) span_api \<Rightarrow> byte list \<Rightarrow> ('h, 't) fax \<Rightarrow> fault + ('h, 't) fax" where
  "fax_feed S [] f = Inr f"
| "fax_feed S (b # bs) f = (case span_fax_bits S b f of Inl e \<Rightarrow> Inl e | Inr f \<Rightarrow> fax_feed S bs f)"

definition data_pattern :: "bits_api \<Rightarrow> byte list \<Rightarrow> bool" where
  "data_pattern B bs \<longleftrightarrow> osmo_ubit2pbit B bs = [0x33, 0x0f, 0x33, 0x0f, 0x33, 0x0f, 0x33, 0x0f]"

definition fax_sync_search :: "('h, 't) span_api \<Rightarrow> byte \<Rightarrow> ('h, 't) fax_line \<Rightarrow> ('h, 't) fax_line" where
  "fax_sync_search S b s =
     (let s = (if syncword_bits s ! syncpos s \<noteq> b then s\<lparr>syncpos := 0\<rparr> else s);
          s = (if syncword_bits s ! syncpos s = b then s\<lparr>syncpos := Suc (syncpos s)\<rparr> else s);
          s = s\<lparr>frame_bits := (frame_bits s)[nbit s := b], nbit := Suc (nbit s)\<rparr> in
      if syncpos s = 64 then
        let s = s\<lparr>syncpos := 0, nbit := 0\<rparr> in
        if \<not> in_sync s then s\<lparr>in_sync := True, decoder := span_in_sync S (decoder s)\<rparr> else s
      else s)"

definition fax_block :: "bits_api \<Rightarrow> ('h, 't) span_api \<Rightarrow> ('h, 't) fax_line \<Rightarrow> fault + ('h, 't) fax_line" where
  "fax_block B S s =
     (if nbit s = 64 then
        let s = s\<lparr>nbit := 0\<rparr>; block = take 64 (frame_bits s) in
        if data_pattern B block then Inr (s\<lparr>data_mode := True\<rparr>)
        else if data_mode s then
          (case fax_feed S block (decoder s) of Inl e \<Rightarrow> Inl e | Inr f \<Rightarrow> Inr (s\<lparr>decoder := f\<rparr>))
        else Inr s
      else Inr s)"

text \<open>The body of the loop over the data bits; both arrays are accessed within their bounds.\<close>

definition fax_bit :: "bits_api \<Rightarrow> ('h, 't) span_api \<Rightarrow> byte \<Rightarrow> ('h, 't) fax_line \<Rightarrow> fault + ('h, 't) fax_line" where
  "fax_bit B S b s =
     (if length (syncword_bits s) \<le> syncpos s \<or> length (frame_bits s) \<le> nbit s then Inl ArrayOverrun
      else fax_block B S (fax_sync_search S b s))"

primrec fax_bits ::
    "bits_api \<Rightarrow> ('h, 't) span_api \<Rightarrow> byte list \<Rightarrow> ('h, 't) fax_line \<Rightarrow> fault + ('h, 't) fax_line" where
  "fax_bits B S [] s = Inr s"
| "fax_bits B S (b # bs) s = (case fax_bit B S b s of Inl e \<Rightarrow> Inl e | Inr s \<Rightarrow> fax_bits B S bs s)"

text \<open>\<open>dec\<close> decodes a V.110 frame to its data bits, or fails.\<close>

definition v110_bits_cb ::
    "bits_api \<Rightarrow> ('h, 't) span_api \<Rightarrow> (byte list \<Rightarrow> byte list option) \<Rightarrow> byte list \<Rightarrow> ('h, 't) fax_line
     \<Rightarrow> fault + ('h, 't) fax_line" where
  "v110_bits_cb B S dec bits s = (case dec bits of None \<Rightarrow> Inr s | Some d \<Rightarrow> fax_bits B S d s)"

text \<open>The frames that demultiplexer and synchronisation hand over one after the other.\<close>

primrec fax_frames ::
    "bits_api \<Rightarrow> ('h, 't) span_api \<Rightarrow> (byte list \<Rightarrow> byte list option) \<Rightarrow> byte list list \<Rightarrow> ('h, 't) fax_line
     \<Rightarrow> fault + ('h, 't) fax_line" where
  "fax_frames B S dec [] s = Inr s"
| "fax_frames B S dec (f # fs) s =
     (case v110_bits_cb B S dec f s of Inl e \<Rightarrow> Inl e | Inr s \<Rightarrow> fax_frames B S dec fs s)"

section \<open>The recording\<close>

text \<open>What \<open>fread\<close> gives of a file, piece by piece.\<close>

function pieces :: "nat \<Rightarrow> 'a list \<Rightarrow> 'a list list" where
  "pieces n xs = (if n = 0 \<or> xs = [] then [] else take n xs # pieces n (drop n xs))"
  by auto

termination
  by (relation "measure (\<lambda>(n, xs). length xs)") auto

declare pieces.simps [simp del]

primrec fax_read ::
    "bits_api \<Rightarrow> ('h, 't) span_api \<Rightarrow> (byte list \<Rightarrow> byte list option) \<Rightarrow> ('i \<Rightarrow> byte list \<Rightarrow> 'i \<times> byte list list)
     \<Rightarrow> byte list list \<Rightarrow> 'i \<times> ('h, 't) fax_line \<Rightarrow> fault + 'i \<times> ('h, 't) fax_line" where
  "fax_read B S dec demux [] u = Inr u"
| "fax_read B S dec demux (data # ps) u =
     (let (ts, fs) = demux (fst u) data in
      case fax_frames B S dec fs (snd u) of Inl e \<Rightarrow> Inl e | Inr s \<Rightarrow> fax_read B S dec demux ps (ts, s))"

text \<open>
  \<open>main\<close>: \<open>word\<close> are the unpacked bits of the synchronisation word, \<open>f0\<close> the static data of the fax
  decoder, \<open>file\<close> the contents of the recording when it can be opened.
\<close>

definition fax_test_main ::
    "bits_api \<Rightarrow> ('h, 't) span_api \<Rightarrow> (byte list \<Rightarrow> byte list option) \<Rightarrow> ('i \<Rightarrow> byte list \<Rightarrow> 'i \<times> byte list list)
     \<Rightarrow> (byte list \<Rightarrow> byte list) \<Rightarrow> 'i \<Rightarrow> ('h, 't) fax \<Rightarrow> byte list option \<Rightarrow> fault + 'i \<times> ('h, 't) fax_line" where
  "fax_test_main B S dec demux pbit2ubit ts f0 file =
     (case span_fax_init S f0 of
        Inl e \<Rightarrow> Inl e
      | Inr (rc, f) \<Rightarrow>
          (case file of
             None \<Rightarrow> Inl NullDeref
           | Some bytes \<Rightarrow>
               fax_read B S dec demux (pieces 160 bytes)
                 (ts, \<lparr>syncword_bits = pbit2ubit syncword, syncpos = 0, nbit = 0,
                       frame_bits = replicate (512 * 1024 * 8) 0, in_sync = False, data_mode = False,
                       decoder = f\<rparr>)))"

section \<open>The search as an automaton\<close>

definition sync_next :: "byte list \<Rightarrow> nat \<Rightarrow> byte \<Rightarrow> nat" where
  "sync_next w p b = (let p = (if w ! p \<noteq> b then 0 else p) in if w ! p = b then Suc p else p)"

text \<open>The position after some bits, none when the word was completed on the way.\<close>

primrec sync_run :: "byte list \<Rightarrow> nat \<Rightarrow> byte list \<Rightarrow> nat option" where
  "sync_run w p [] = Some p"
| "sync_run w p (b # bs) = (let q = sync_next w p b in if q = 64 then None else sync_run w q bs)"

definition sync_ok :: "('h, 't) fax_line \<Rightarrow> bool" where
  "sync_ok s \<longleftrightarrow> length (syncword_bits s) = 64 \<and> syncpos s < 64 \<and> 64 \<le> length (frame_bits s) \<and> nbit s < 64"

lemma sync_next_le: "p < 64 \<Longrightarrow> sync_next w p b \<le> 64"
  by (simp add: sync_next_def Let_def)

lemma run_less: "sync_run w p bs = Some q \<Longrightarrow> p < 64 \<Longrightarrow> q < 64"
proof (induction bs arbitrary: p)
  case (Cons b bs)
  from Cons.prems have "sync_next w p b \<noteq> 64" and "sync_run w (sync_next w p b) bs = Some q"
    by (auto simp: Let_def split: if_splits)
  with Cons sync_next_le [of p w b] show ?case by simp
qed simp

lemma search_eq:
  "fax_sync_search S b s =
    (let q = sync_next (syncword_bits s) (syncpos s) b;
         s = s\<lparr>frame_bits := (frame_bits s)[nbit s := b]\<rparr> in
     if q = 64 then s\<lparr>syncpos := 0, nbit := 0, in_sync := True,
         decoder := (if in_sync s then decoder s else span_in_sync S (decoder s))\<rparr>
     else s\<lparr>syncpos := q, nbit := Suc (nbit s)\<rparr>)"
  by (simp add: fax_sync_search_def sync_next_def Let_def)

lemma block_short: "nbit s \<noteq> 64 \<Longrightarrow> fax_block B S s = Inr s"
  by (simp add: fax_block_def)

text \<open>What a block does not touch.\<close>

lemma block_frame:
  assumes "fax_block B S s = Inr z"
  shows "syncword_bits z = syncword_bits s" and "syncpos z = syncpos s" and "in_sync z = in_sync s"
    and "frame_bits z = frame_bits s" and "nbit z = (if nbit s = 64 then 0 else nbit s)"
  using assms by (auto simp: fax_block_def Let_def split: if_splits sum.splits)

lemma bit_ok:
  assumes "sync_ok s" and "fax_bit B S b s = Inr z"
  shows "sync_ok z" and "syncword_bits z = syncword_bits s"
    and "in_sync z \<longleftrightarrow> in_sync s \<or> sync_next (syncword_bits s) (syncpos s) b = 64"
    and "syncpos z = (let q = sync_next (syncword_bits s) (syncpos s) b in if q = 64 then 0 else q)"
proof -
  have "fax_block B S (fax_sync_search S b s) = Inr z"
    using assms by (simp add: fax_bit_def sync_ok_def split: if_splits)
  note f = block_frame [OF this]
  have "sync_next (syncword_bits s) (syncpos s) b \<le> 64"
    using assms(1) by (intro sync_next_le) (simp add: sync_ok_def)
  with f assms(1) show "sync_ok z" and "syncword_bits z = syncword_bits s"
    and "in_sync z \<longleftrightarrow> in_sync s \<or> sync_next (syncword_bits s) (syncpos s) b = 64"
    and "syncpos z = (let q = sync_next (syncword_bits s) (syncpos s) b in if q = 64 then 0 else q)"
    by (auto simp: sync_ok_def search_eq Let_def split: if_splits)
qed

text \<open>The automaton follows prefixes of the word that end the bits seen so far.\<close>

lemma sync_next_suffix:
  assumes "suffix (take p w) h" and "p < length w"
  shows "suffix (take (sync_next w p b) w) (h @ [b])"
proof -
  have "take (Suc k) w = take k w @ [w ! k]" if "k < length w" for k
    using that by (rule take_Suc_conv_app_nth)
  moreover have "0 < length w" using assms(2) by linarith
  ultimately show ?thesis
    using assms by (auto simp: sync_next_def Let_def suffix_def)
qed

text \<open>
  Invariant of the search over the bits \<open>h\<close> received so far.
\<close>

lemma bits_sync:
  assumes "sync_ok s" and "fax_bits B S bs s = Inr z" and "suffix (take (syncpos s) (syncword_bits s)) h"
    and "in_sync s \<longrightarrow> sublist (syncword_bits s) h"
  shows "in_sync z \<longrightarrow> sublist (syncword_bits s) (h @ bs)"
  using assms
proof (induction bs arbitrary: s h)
  case Nil
  then show ?case by simp
next
  case (Cons b bs)
  then obtain u where u: "fax_bit B S b s = Inr u" "fax_bits B S bs u = Inr z"
    by (auto split: sum.splits)
  let ?w = "syncword_bits s" and ?q = "sync_next (syncword_bits s) (syncpos s) b"
  note ok = bit_ok [OF Cons.prems(1) u(1)]
  have q: "suffix (take ?q ?w) (h @ [b])"
    using Cons.prems(1,3) by (intro sync_next_suffix) (auto simp: sync_ok_def)
  have "sublist ?w (h @ [b])" if "?q = 64"
    using q that Cons.prems(1) by (simp add: sync_ok_def suffix_imp_sublist)
  moreover have "sublist ?w (h @ [b])" if "in_sync s"
    using Cons.prems(4) that by (auto simp: sublist_appendI sublist_order.order_trans)
  ultimately have "in_sync u \<longrightarrow> sublist ?w (h @ [b])"
    using ok(3) by blast
  moreover have "suffix (take (syncpos u) ?w) (h @ [b])"
    using q ok(4) by (simp add: Let_def)
  ultimately show ?case
    using Cons.IH [OF ok(1) u(2), of "h @ [b]"] ok(2) by simp
qed

section \<open>Synchronisation\<close>

text \<open>The word itself, received when the search is at its start, is found.\<close>

lemma run_word:
  assumes "length w = 64" and "n < 64"
  shows "sync_run w 0 (take n w) = Some n"
proof -
  have "sync_run w k (take m (drop k w)) = Some (k + m)" if "k + m < 64" for k m
    using that
  proof (induction m arbitrary: k)
    case (Suc m)
    then have "drop k w = w ! k # drop (Suc k) w"
      using assms(1) by (simp add: Cons_nth_drop_Suc)
    with Suc show ?case by (simp add: sync_next_def)
  qed simp
  from this [of 0 n] assms(2) show ?thesis by simp
qed

text \<open>The bits of bytes, the most significant first.\<close>

definition msb_bits :: "byte list \<Rightarrow> byte list" where
  "msb_bits bs = concat (map (\<lambda>b. map (\<lambda>i. of_bool (bit b (7 - i))) [0..<8]) bs)"

text \<open>
  The search forgets what it has seen when a bit does not fit: with one more zero in front
  the word is passed over, because the search has then taken that zero for the first one.
\<close>

lemma sync_missed: "sync_run (msb_bits syncword) 0 (0 # msb_bits syncword) = Some 3"
  by code_simp

section \<open>Blocks\<close>

text \<open>What goes to the fax decoder: the blocks after the first one with the pattern.\<close>

primrec fed :: "(byte list \<Rightarrow> bool) \<Rightarrow> bool \<Rightarrow> byte list list \<Rightarrow> byte list" where
  "fed pat on [] = []"
| "fed pat on (b # bs) =
     (if pat b then fed pat True bs else if on then b @ fed pat on bs else fed pat on bs)"

lemma bit_plain:
  assumes "sync_ok s" and "sync_next (syncword_bits s) (syncpos s) b \<noteq> 64"
  shows "fax_bit B S b s = fax_block B S (s\<lparr>syncpos := sync_next (syncword_bits s) (syncpos s) b,
    frame_bits := (frame_bits s)[nbit s := b], nbit := Suc (nbit s)\<rparr>)"
  using assms by (cases s) (simp add: fax_bit_def sync_ok_def search_eq Let_def)

lemma bits_collect:
  assumes "sync_ok s" and "sync_run (syncword_bits s) (syncpos s) bs = Some q" and "nbit s + length bs < 64"
  shows "fax_bits B S bs s = Inr (s\<lparr>syncpos := q, nbit := nbit s + length bs,
      frame_bits := store (frame_bits s) (nbit s) bs\<rparr>)"
  using assms
proof (induction bs arbitrary: s)
  case Nil
  then show ?case by (simp add: store_def)
next
  case (Cons b bs)
  let ?q = "sync_next (syncword_bits s) (syncpos s) b"
  let ?s = "s\<lparr>syncpos := ?q, frame_bits := (frame_bits s)[nbit s := b], nbit := Suc (nbit s)\<rparr>"
  have q: "?q \<noteq> 64" "sync_run (syncword_bits s) ?q bs = Some q"
    using Cons.prems(2) by (auto simp: Let_def split: if_splits)
  have "?q \<le> 64" using Cons.prems(1) by (intro sync_next_le) (simp add: sync_ok_def)
  with q(1) have "sync_ok ?s" using Cons.prems by (simp add: sync_ok_def)
  moreover have "fax_bit B S b s = Inr ?s"
    unfolding bit_plain [OF Cons.prems(1) q(1)] using Cons.prems(3) by (intro block_short) simp
  moreover have "store ((frame_bits s)[nbit s := b]) (Suc (nbit s)) bs = store (frame_bits s) (nbit s) (b # bs)"
    using Cons.prems(1)
    by (simp add: store_def sync_ok_def take_Suc_conv_app_nth)
  ultimately show ?case
    using Cons.IH [of ?s] q(2) Cons.prems(3) by (cases s) simp
qed

lemma bits_append:
  "fax_bits B S (xs @ ys) s = (case fax_bits B S xs s of Inl e \<Rightarrow> Inl e | Inr z \<Rightarrow> fax_bits B S ys z)"
  by (induction xs arbitrary: s) (simp_all split: sum.splits)

lemma run_append: "sync_run w p (xs @ ys) = Option.bind (sync_run w p xs) (\<lambda>q. sync_run w q ys)"
  by (induction xs arbitrary: p) (simp_all add: Let_def)

lemma feed_append:
  "fax_feed S (xs @ ys) f = (case fax_feed S xs f of Inl e \<Rightarrow> Inl e | Inr g \<Rightarrow> fax_feed S ys g)"
  by (induction xs arbitrary: f) (simp_all split: sum.splits)

lemma bits_block:
  assumes "sync_ok s" and "sync_run (syncword_bits s) (syncpos s) b = Some q" and "nbit s = 0" and "length b = 64"
  shows "fax_bits B S b s = fax_block B S (s\<lparr>syncpos := q, frame_bits := store (frame_bits s) 0 b, nbit := 64\<rparr>)"
proof -
  obtain bs c where b: "b = bs @ [c]" "length bs = 63"
    using assms(4) by (cases b rule: rev_cases) auto
  obtain r where r: "sync_run (syncword_bits s) (syncpos s) bs = Some r"
    and q: "sync_next (syncword_bits s) r c = q" "q \<noteq> 64"
    using assms(2) by (auto simp: b run_append bind_eq_Some_conv Let_def split: if_splits)
  let ?s = "s\<lparr>syncpos := r, nbit := nbit s + length bs, frame_bits := store (frame_bits s) (nbit s) bs\<rparr>"
  have 1: "fax_bits B S bs s = Inr ?s"
    using assms(1,3) b r by (intro bits_collect) auto
  have "r < 64" using r assms(1) unfolding sync_ok_def
    by (elim conjE) (rule run_less)
  then have "sync_ok ?s"
    using assms(1,3) b by (simp add: sync_ok_def length_store)
  then have "fax_bit B S c ?s = fax_block B S (?s\<lparr>syncpos := q,
      frame_bits := (frame_bits ?s)[nbit ?s := c], nbit := Suc (nbit ?s)\<rparr>)"
    using q by (subst bit_plain) auto
  moreover have "(store (frame_bits s) 0 bs)[63 := c] = store (frame_bits s) 0 (bs @ [c])"
    using assms(1) b
    by (simp add: store_def sync_ok_def list_update_append Cons_nth_drop_Suc [symmetric])
  ultimately have "fax_bit B S c ?s =
      fax_block B S (s\<lparr>syncpos := q, frame_bits := store (frame_bits s) 0 b, nbit := 64\<rparr>)"
    using assms(3) b by (cases s) simp
  then show ?thesis
    by (simp add: b(1) bits_append 1 split: sum.splits)
qed

lemma blocks_fed:
  assumes "sync_ok s" and "nbit s = 0" and "list_all (\<lambda>b. length b = 64) blocks"
    and "sync_run (syncword_bits s) (syncpos s) (concat blocks) = Some q"
  shows "map_sum id decoder (fax_bits B S (concat blocks) s) =
    fax_feed S (fed (data_pattern B) (data_mode s) blocks) (decoder s)"
  using assms
proof (induction blocks arbitrary: s)
  case (Cons b blocks)
  then obtain r where r: "sync_run (syncword_bits s) (syncpos s) b = Some r"
    "sync_run (syncword_bits s) r (concat blocks) = Some q"
    by (auto simp: run_append bind_eq_Some_conv)
  have len: "length b = 64" using Cons.prems(3) by simp
  let ?s = "s\<lparr>syncpos := r, frame_bits := store (frame_bits s) 0 b, nbit := 64\<rparr>"
  have run: "fax_bits B S b s = fax_block B S ?s"
    by (rule bits_block [OF Cons.prems(1) r(1) Cons.prems(2) len])
  have "r < 64" using r(1) Cons.prems(1) unfolding sync_ok_def by (elim conjE) (rule run_less)
  then have ok: "sync_ok (?s\<lparr>nbit := 0\<rparr>)" "sync_ok (?s\<lparr>nbit := 0, data_mode := d\<rparr>)"
      "sync_ok (?s\<lparr>nbit := 0, decoder := f\<rparr>)" for d f
    using Cons.prems(1) len by (simp_all add: sync_ok_def length_store)
  have take: "take 64 (store (frame_bits s) 0 b) = b"
    using len by (simp add: store_def)
  show ?case
    using Cons.IH [OF ok(1)] Cons.IH [OF ok(2)] Cons.IH [OF ok(3)] Cons.prems(3) r(2)
    by (auto simp: bits_append run fax_block_def Let_def take feed_append split: sum.splits)
qed simp

lemma bits_track:
  assumes "sync_ok s" and "fax_bits B S bs s = Inr z"
  shows "sync_ok z \<and> syncword_bits z = syncword_bits s \<and> (in_sync s \<longrightarrow> in_sync z) \<and>
    (\<forall>q. sync_run (syncword_bits s) (syncpos s) bs = Some q \<longrightarrow> syncpos z = q)"
  using assms
proof (induction bs arbitrary: s)
  case (Cons b bs)
  then obtain u where u: "fax_bit B S b s = Inr u" "fax_bits B S bs u = Inr z"
    by (auto split: sum.splits)
  note ok = bit_ok [OF Cons.prems(1) u(1)]
  from Cons.IH [OF ok(1) u(2)] ok show ?case
    by (auto simp: Let_def split: if_splits)
qed simp

lemma frames_bits:
  "fax_frames B S dec fs s = fax_bits B S (concat (List.map_filter dec fs)) s"
  by (induction fs arbitrary: s)
    (auto simp: v110_bits_cb_def map_filter_simps bits_append split: option.splits sum.splits)

lemma word_returns:
  assumes "sync_ok s" and "syncpos s = 0" and "nbit s = 0"
  shows "\<exists>z. fax_bits B S (syncword_bits s) s = Inr z"
proof -
  let ?w = "syncword_bits s"
  have len: "length ?w = 64" using assms(1) by (simp add: sync_ok_def)
  then have w: "?w = take 63 ?w @ [?w ! 63]"
    using take_Suc_conv_app_nth [of 63 ?w] by simp
  let ?u = "s\<lparr>syncpos := 63, nbit := 63, frame_bits := store (frame_bits s) 0 (take 63 ?w)\<rparr>"
  have u: "fax_bits B S (take 63 ?w) s = Inr ?u"
    using bits_collect [OF assms(1), of "take 63 ?w" 63] run_word [OF len, of 63] assms(2,3) len by simp
  have "63 < length (store (frame_bits s) 0 (take 63 ?w))"
    using assms(1) len by (simp add: sync_ok_def length_store)
  then have "fax_bit B S (?w ! 63) ?u = Inr (fax_sync_search S (?w ! 63) ?u)"
    using len by (simp add: fax_bit_def search_eq sync_next_def Let_def block_short)
  then have "\<exists>z. fax_bits B S (take 63 ?w @ [?w ! 63]) s = Inr z"
    by (simp add: bits_append u)
  then show ?thesis using w by simp
qed

lemma word_found:
  assumes "sync_ok s" and "syncpos s = 0" and "fax_bits B S (syncword_bits s) s = Inr z"
  shows "in_sync z"
proof -
  let ?w = "syncword_bits s"
  have len: "length ?w = 64" using assms(1) by (simp add: sync_ok_def)
  then have w: "?w = take 63 ?w @ [?w ! 63]"
    using take_Suc_conv_app_nth [of 63 ?w] by simp
  then have "fax_bits B S (take 63 ?w @ [?w ! 63]) s = Inr z" using assms(3) by simp
  then obtain u where u: "fax_bits B S (take 63 ?w) s = Inr u" "fax_bits B S [?w ! 63] u = Inr z"
    by (auto simp: bits_append split: sum.splits)
  then have t: "sync_ok u" "syncword_bits u = ?w" "syncpos u = 63"
    using bits_track [OF assms(1) u(1)] run_word [OF len, of 63] assms(2) by auto
  have "fax_bit B S (?w ! 63) u = Inr z" using u(2) by (simp split: sum.splits)
  from bit_ok(3) [OF t(1) this] show ?thesis
    by (simp add: t sync_next_def)
qed

text \<open>
  C27: Synchronisation of a fax call. The decoder goes into sync only when the synchronisation
  word was among the bits it received since the start of the search, and it does when the word
  comes first.
\<close>

theorem fax_synchronised:
  assumes "sync_ok s" and "syncpos s = 0" and "\<not> in_sync s" and "fax_frames B S dec fs s = Inr z"
  shows "(in_sync z \<longrightarrow> sublist (syncword_bits s) (concat (List.map_filter dec fs))) \<and>
    (prefix (syncword_bits s) (concat (List.map_filter dec fs)) \<longrightarrow> in_sync z)"
proof
  have run: "fax_bits B S (concat (List.map_filter dec fs)) s = Inr z"
    using assms(4) by (simp add: frames_bits)
  show "in_sync z \<longrightarrow> sublist (syncword_bits s) (concat (List.map_filter dec fs))"
    using bits_sync [OF assms(1) run, of "[]"] assms(2,3) by simp
  show "prefix (syncword_bits s) (concat (List.map_filter dec fs)) \<longrightarrow> in_sync z"
  proof
    assume "prefix (syncword_bits s) (concat (List.map_filter dec fs))"
    then obtain t where "concat (List.map_filter dec fs) = syncword_bits s @ t" by (auto simp: prefix_def)
    with run obtain u where u: "fax_bits B S (syncword_bits s) s = Inr u" "fax_bits B S t u = Inr z"
      by (auto simp: bits_append split: sum.splits)
    have "sync_ok u" using bits_track [OF assms(1) u(1)] by simp
    from bits_track [OF this u(2)] word_found [OF assms(1,2) u(1)] show "in_sync z" by simp
  qed
qed

definition lab_line :: "(byte list, lab_t4) fax_line" where
  "lab_line = \<lparr>syncword_bits = msb_bits syncword, syncpos = 0, nbit = 0, frame_bits = replicate 64 0,
     in_sync = False, data_mode = False, decoder = lab_fax False\<rparr>"

lemma lab_line_ok: "sync_ok lab_line" "syncpos lab_line = 0" "nbit lab_line = 0" "\<not> in_sync lab_line"
  by (simp_all add: lab_line_def sync_ok_def msb_bits_def syncword_def)

theorem fax_synchronised_witness:
  "\<exists>z. fax_frames lab_bits lab_span Some [take 40 (msb_bits syncword), drop 40 (msb_bits syncword)] lab_line = Inr z \<and>
    in_sync z"
proof -
  let ?fs = "[take 40 (msb_bits syncword), drop 40 (msb_bits syncword)]"
  obtain z where z: "fax_frames lab_bits lab_span Some ?fs lab_line = Inr z"
    using word_returns [OF lab_line_ok(1-3), of lab_bits lab_span] by (auto simp: frames_bits map_filter_simps lab_line_def)
  from fax_synchronised [OF lab_line_ok(1,2,4) z] z show ?thesis
    by (simp add: map_filter_simps lab_line_def)
qed

text \<open>
  C23: the blocks of a fax call. From the start of a block on, and as long as no
  synchronisation word is completed in the bits (one would restart the block), the data bits of the V.110 frames reach the fax decoder
  in blocks of 64: exactly the blocks after the first one with the pattern of data mode,
  without the blocks that have the pattern, whatever the borders of the frames are.
\<close>

theorem fax_blocks_fed:
  assumes "sync_ok s" and "nbit s = 0" and "list_all (\<lambda>b. length b = 64) blocks"
    and "concat (List.map_filter dec fs) = concat blocks"
    and "sync_run (syncword_bits s) (syncpos s) (concat blocks) \<noteq> None"
  shows "map_sum id decoder (fax_frames B S dec fs s) =
    fax_feed S (fed (data_pattern B) (data_mode s) blocks) (decoder s)"
  using blocks_fed [OF assms(1-3)] assms(4,5) by (auto simp: frames_bits)

lemma lab_feed:
  "\<not> error_correcting_mode f \<Longrightarrow> fax_feed lab_span (replicate n 1) f =
    Inr (f\<lparr>t4_state := (t4_state f)\<lparr>lab_page := lab_page (t4_state f) @ replicate n 1\<rparr>\<rparr>)"
proof (induction n arbitrary: f)
  case (Suc n)
  then show ?case
    by (simp add: span_fax_bits_def lab_span_def Let_def)
qed simp

theorem fax_blocks_fed_witness:
  "map_sum id (\<lambda>s. lab_page (t4_state (decoder s)))
      (fax_frames lab_bits lab_span Some [replicate 48 1, replicate 80 1] (lab_line\<lparr>data_mode := True\<rparr>)) =
    Inr (replicate 128 1)"
proof -
  let ?s = "lab_line\<lparr>data_mode := True\<rparr>"
  have s: "sync_ok ?s" "nbit ?s = 0"
    using lab_line_ok by (simp_all add: sync_ok_def)
  have c: "concat (List.map_filter Some [replicate 48 (1 :: byte), replicate 80 1]) =
      concat [replicate 64 1, replicate 64 1]"
    by (simp add: map_filter_simps flip: replicate_add)
  have r: "sync_run (syncword_bits ?s) (syncpos ?s) (concat [replicate 64 1, replicate 64 1]) \<noteq> None"
    by code_simp
  have d: "\<not> data_pattern lab_bits (replicate 64 1)"
    by code_simp
  have l: "list_all (\<lambda>b. length b = 64) [replicate 64 (1 :: byte), replicate 64 1]"
    by simp
  from fax_blocks_fed [OF s l c r, of lab_bits lab_span] d
  have "map_sum id decoder (fax_frames lab_bits lab_span Some [replicate 48 1, replicate 80 1] ?s) =
      fax_feed lab_span (replicate 128 1) (lab_fax False)"
    by (simp add: lab_line_def flip: replicate_add)
  also have "\<dots> = Inr ((lab_fax False)\<lparr>t4_state := (t4_state (lab_fax False))\<lparr>lab_page := replicate 128 1\<rparr>\<rparr>)"
    by (subst lab_feed) (simp_all add: lab_fax_def)
  finally show ?thesis
    by (cases "fax_frames lab_bits lab_span Some [replicate 48 1, replicate 80 1] ?s") simp_all
qed

end
