(* ===== verification/File_Decoder.thy ===== *)
theory File_Decoder
  imports Isdn_Line Gsmtap Fax_Sync
begin

text \<open>
  The program that decodes a recorded channel, \<open>src/file_hdlc_decoder.c\<close>: the samples of a file
  go through the HDLC decoder of libosmocore in pieces of sixteen, and every frame is
  captured.
\<close>

section \<open>The program\<close>

record 'h file_dec =
  fd_hdlc :: 'h
  fd_rx_buf :: "byte list"
  fd_gsmtap :: gsmtap

text \<open>
  One pass of the loop, over \<open>samplesProcessed\<close> and the globals; the result of the capture is not
  looked at.
\<close>

definition file_pass ::
    "gsmtap_api \<Rightarrow> 'h hdlc_api \<Rightarrow> byte \<Rightarrow> bool \<Rightarrow> byte list \<Rightarrow> nat \<times> 'h file_dec
     \<Rightarrow> fault + nat \<times> 'h file_dec" where
  "file_pass G H sub_type network_to_user in_buf = (\<lambda>(samplesProcessed, d).
     let (rv, count, h, dst) = hdlc_decode H (fd_hdlc d) (drop samplesProcessed in_buf)
            (fd_rx_buf d) (length (fd_rx_buf d) - 3);
         d = d\<lparr>fd_hdlc := h, fd_rx_buf := dst\<rparr>
     in if 0 < rv then
          (case gsmtap_send_packet G sub_type network_to_user dst (of_int rv) (fd_gsmtap d) of
             Inl e \<Rightarrow> Inl e
           | Inr (ret, g) \<Rightarrow> Inr (samplesProcessed + count, d\<lparr>fd_gsmtap := g\<rparr>))
        else Inr (samplesProcessed + count, d))"

definition file_handle_sample_buffer ::
    "gsmtap_api \<Rightarrow> 'h hdlc_api \<Rightarrow> byte \<Rightarrow> bool \<Rightarrow> byte list \<Rightarrow> 'h file_dec \<Rightarrow> fault + 'h file_dec" where
  "file_handle_sample_buffer G H sub_type network_to_user in_buf d =
     (case while_option
         (\<lambda>r. case r of Inl e \<Rightarrow> False | Inr (samplesProcessed, d) \<Rightarrow> samplesProcessed < length in_buf)
         (\<lambda>r. case r of Inl e \<Rightarrow> r | Inr s \<Rightarrow> file_pass G H sub_type network_to_user in_buf s)
         (Inr (0, d)) of
        None \<Rightarrow> Inl Hang
      | Some (Inl e) \<Rightarrow> Inl e
      | Some (Inr (samplesProcessed, d)) \<Rightarrow> Inr d)"

primrec file_read ::
    "gsmtap_api \<Rightarrow> 'h hdlc_api \<Rightarrow> byte list list \<Rightarrow> 'h file_dec \<Rightarrow> fault + 'h file_dec" where
  "file_read G H [] d = Inr d"
| "file_read G H (data # ps) d =
     (case file_handle_sample_buffer G H (GSMTAP_E1T1_X75 G) True data d of
        Inl e \<Rightarrow> Inl e
      | Inr d \<Rightarrow> file_read G H ps d)"

text \<open>
  \<open>source\<close>: whether the capture socket opens; \<open>h\<close> is an initialised decoder.
\<close>

definition file_decoder_main ::
    "gsmtap_api \<Rightarrow> 'h hdlc_api \<Rightarrow> bool \<Rightarrow> 'h \<Rightarrow> byte list option \<Rightarrow> fault + 'h file_dec" where
  "file_decoder_main G H source h file =
     (let g = snd (gsmtap_init source gsmtap_statics) in
      case file of
        None \<Rightarrow> Inl NullDeref
      | Some bytes \<Rightarrow>
          file_read G H (pieces 16 bytes)
            \<lparr>fd_hdlc = h, fd_rx_buf = replicate (2048 * 2) 0, fd_gsmtap = g\<rparr>)"

section \<open>What is captured\<close>

text \<open>From \<open>c\<close> to \<open>d\<close> the decoder reported frames and exactly these were handed to the capture.\<close>

definition file_captured :: "gsmtap_api \<Rightarrow> ('h \<Rightarrow> byte list list) \<Rightarrow> gsmtap_hdr \<Rightarrow> 'h file_dec \<Rightarrow> 'h file_dec \<Rightarrow> bool" where
  "file_captured G dec_frames hdr c d \<longleftrightarrow> (\<exists>frames.
     dec_frames (fd_hdlc d) = dec_frames (fd_hdlc c) @ frames \<and>
     gsmtap_log (fd_gsmtap d) = gsmtap_log (fd_gsmtap c) @ map (Pair hdr) frames \<and>
     (gsmtap_ok G (fd_gsmtap c) \<longrightarrow> gsmtap_ok G (fd_gsmtap d)) \<and>
     g_gti (fd_gsmtap d) \<and> length (fd_rx_buf d) = 4096)"

lemma captured_refl: "g_gti (fd_gsmtap c) \<Longrightarrow> length (fd_rx_buf c) = 4096 \<Longrightarrow> file_captured G dec_frames hdr c c"
  by (simp add: file_captured_def)

lemma captured_trans:
  assumes "file_captured G dec_frames hdr c d" and "file_captured G dec_frames hdr d e"
  shows "file_captured G dec_frames hdr c e"
proof -
  obtain fs where "dec_frames (fd_hdlc d) = dec_frames (fd_hdlc c) @ fs"
    "gsmtap_log (fd_gsmtap d) = gsmtap_log (fd_gsmtap c) @ map (Pair hdr) fs"
    "gsmtap_ok G (fd_gsmtap c) \<longrightarrow> gsmtap_ok G (fd_gsmtap d)"
    using assms(1) by (auto simp: file_captured_def)
  moreover obtain gs where "dec_frames (fd_hdlc e) = dec_frames (fd_hdlc d) @ gs"
    "gsmtap_log (fd_gsmtap e) = gsmtap_log (fd_gsmtap d) @ map (Pair hdr) gs"
    "gsmtap_ok G (fd_gsmtap d) \<longrightarrow> gsmtap_ok G (fd_gsmtap e)"
    "g_gti (fd_gsmtap e)" "length (fd_rx_buf e) = 4096"
    using assms(2) by (auto simp: file_captured_def)
  ultimately show ?thesis by (auto simp: file_captured_def intro!: exI [of _ "fs @ gs"])
qed

locale capture_file = hdlc_decoder H dec_frames dec_left + gsmtap_lib G
  for H :: "'h hdlc_api" and dec_frames dec_left G
begin

text \<open>A frame in the buffer is handed over, whatever \<open>malloc\<close> and the write return.\<close>

lemma packet_captured:
  assumes "0 < rv" and "rv \<le> int (length dst)" and "length dst = 4096" and "g_gti g"
  obtains ret g' where "gsmtap_send_packet G st dir dst (of_int rv) g = Inr (ret, g')"
    and "gsmtap_next G (packet_hdr G st dir, take (nat rv) dst) g g'"
proof -
  let ?p = "take (nat rv) dst"
  have len: "length ?p = nat rv" "nat rv < 2 ^ 31" and le: "\<not> length dst < nat rv" using assms by simp_all
  have "gsmtap_send_packet G st dir dst (of_int rv) g = gsmtap_send_packet G st dir ?p (of_nat (length ?p)) g"
    using assms(1) len gross_len [of ?p] le
    by (simp add: gsmtap_send_packet_def gsmtap_send_def Let_def)
  then show ?thesis
    using packet_next [of ?p g st dir] len assms(4) that by (auto simp: ends_def split: sum.splits)
qed

lemma pass_captured:
  assumes "sp < length in_buf" and "g_gti (fd_gsmtap d)" and "length (fd_rx_buf d) = 4096"
  obtains sp' e where "file_pass G H st dir in_buf (sp, d) = Inr (sp', e)"
    and "file_captured G dec_frames (packet_hdr G st dir) d e" and "sp \<le> sp'" and "sp' \<le> length in_buf"
    and "sp' = sp \<Longrightarrow> dec_left (fd_hdlc e) < dec_left (fd_hdlc d)"
proof -
  obtain rv k h dst where dec: "hdlc_decode H (fd_hdlc d) (drop sp in_buf) (fd_rx_buf d)
      (length (fd_rx_buf d) - 3) = (rv, k, h, dst)"
    by (metis prod_cases4)
  have "drop sp in_buf \<noteq> []" using assms(1) by simp
  note c = decode_count [OF this dec]
  have f: "rv \<le> int (length dst)" "length dst = 4096"
    "dec_frames h = dec_frames (fd_hdlc d) @ (if 0 < rv then [take (nat rv) dst] else [])"
    using decode_frame [OF dec] assms(3) by auto
  have dec': "hdlc_decode H (fd_hdlc d) (drop sp in_buf) (fd_rx_buf d) 4093 = (rv, k, h, dst)"
    using dec assms(3) by simp
  let ?d = "d\<lparr>fd_hdlc := h, fd_rx_buf := dst\<rparr>"
  show ?thesis
  proof (cases "0 < rv")
    case True
    then obtain ret g where "gsmtap_send_packet G st dir dst (of_int rv) (fd_gsmtap d) = Inr (ret, g)"
      "gsmtap_next G (packet_hdr G st dir, take (nat rv) dst) (fd_gsmtap d) g"
      using f(1,2) assms(2) by (rule packet_captured)
    then show ?thesis
      using True c f assms
      by (intro that [of "sp + k" "?d\<lparr>fd_gsmtap := g\<rparr>"])
        (auto simp: file_pass_def dec' file_captured_def gsmtap_next_def)
  next
    case False
    then show ?thesis
      using c f assms by (intro that [of "sp + k" ?d]) (auto simp: file_pass_def dec' file_captured_def)
  qed
qed

lemma buffer_captured:
  assumes "g_gti (fd_gsmtap d)" and "length (fd_rx_buf d) = 4096"
  shows "\<exists>e. file_handle_sample_buffer G H st dir in_buf d = Inr e \<and>
    file_captured G dec_frames (packet_hdr G st dir) d e"
proof -
  let ?hdr = "packet_hdr G st dir"
  let ?b = "\<lambda>r :: fault + nat \<times> 'h file_dec. case r of Inl e \<Rightarrow> False | Inr (sp, d) \<Rightarrow> sp < length in_buf"
  let ?c = "\<lambda>r. case r of Inl e \<Rightarrow> r | Inr s \<Rightarrow> file_pass G H st dir in_buf s"
  let ?P = "\<lambda>r. \<exists>sp e. r = Inr (sp, e) \<and> sp \<le> length in_buf \<and> file_captured G dec_frames ?hdr d e"
  let ?r = "measures [\<lambda>r. case r of Inl e \<Rightarrow> 0 | Inr (sp, d) \<Rightarrow> length in_buf - sp,
    \<lambda>r. case r of Inl e \<Rightarrow> 0 | Inr (sp, d) \<Rightarrow> dec_left (fd_hdlc d)]"
  have "\<exists>r. while_option ?b ?c (Inr (0, d)) = Some r \<and> ?P r \<and> \<not> ?b r"
  proof (rule while_option_ends_wf [of ?r])
    show "?P (Inr (0, d))" using captured_refl [OF assms] by simp
  next
    fix r assume "?P r" and "?b r"
    then obtain sp e where r: "r = Inr (sp, e)" "sp < length in_buf" "file_captured G dec_frames ?hdr d e" by auto
    then have "g_gti (fd_gsmtap e)" and "length (fd_rx_buf e) = 4096" by (auto simp: file_captured_def)
    then obtain sp' e' where p: "file_pass G H st dir in_buf (sp, e) = Inr (sp', e')"
      "file_captured G dec_frames ?hdr e e'" "sp \<le> sp'" "sp' \<le> length in_buf"
      "sp' = sp \<longrightarrow> dec_left (fd_hdlc e') < dec_left (fd_hdlc e)"
      using pass_captured [OF r(2)] by metis
    have "?P (?c r)" using p captured_trans [OF r(3) p(2)] by (auto simp: r(1))
    moreover have "(?c r, r) \<in> ?r" using p r(2) by (auto simp: r(1))
    ultimately show "?P (?c r) \<and> (?c r, r) \<in> ?r" ..
  qed simp
  then show ?thesis by (auto simp: file_handle_sample_buffer_def)
qed

lemma read_captured:
  assumes "g_gti (fd_gsmtap d)" and "length (fd_rx_buf d) = 4096"
  shows "\<exists>e. file_read G H ps d = Inr e \<and> file_captured G dec_frames (packet_hdr G (GSMTAP_E1T1_X75 G) True) d e"
  using assms
proof (induction ps arbitrary: d)
  case Nil
  then show ?case by (simp add: captured_refl)
next
  case (Cons data ps)
  obtain u where u: "file_handle_sample_buffer G H (GSMTAP_E1T1_X75 G) True data d = Inr u"
    "file_captured G dec_frames (packet_hdr G (GSMTAP_E1T1_X75 G) True) d u"
    using buffer_captured [OF Cons.prems] by blast
  then have "g_gti (fd_gsmtap u)" "length (fd_rx_buf u) = 4096" by (auto simp: file_captured_def)
  from Cons.IH [OF this] u captured_trans [OF u(2)] show ?case by auto
qed

end

interpretation lab_file: capture_file lab_hdlc lab_decoded "\<lambda>h. 0" lab_gsmtap
  by unfold_locales

text \<open>
  C24: a recording is decoded completely. When the capture's socket could be opened, the loops over
  the pieces of a recording end, and every frame the decoder reports is handed to the capture once,
  in the order of the recording; the socket gets, each behind its header, the frames for which
  there was memory and whose write did not fail.
\<close>

theorem recording_captured:
  assumes "hdlc_decoder H dec_frames dec_left" and "gsmtap_lib G"
  shows "\<exists>d frames. file_decoder_main G H True h (Some bytes) = Inr d \<and>
    dec_frames (fd_hdlc d) = dec_frames h @ frames \<and>
    gsmtap_log (fd_gsmtap d) = map (Pair (packet_hdr G (GSMTAP_E1T1_X75 G) True)) frames \<and>
    gsmtap_out (fd_gsmtap d) = packets G 0 (map (Pair (packet_hdr G (GSMTAP_E1T1_X75 G) True)) frames)"
proof -
  let ?d = "\<lparr>fd_hdlc = h, fd_rx_buf = replicate (2048 * 2) 0, fd_gsmtap = snd (gsmtap_init True gsmtap_statics)\<rparr>"
  have "capture_file H dec_frames dec_left G"
    using assms by (rule capture_file.intro)
  then obtain e where e: "file_read G H (pieces 16 bytes) ?d = Inr e"
    "file_captured G dec_frames (packet_hdr G (GSMTAP_E1T1_X75 G) True) ?d e"
    using capture_file.read_captured [of H dec_frames dec_left G ?d "pieces 16 bytes"] by auto
  then show ?thesis
    by (auto simp: file_decoder_main_def file_captured_def gsmtap_ok_def)
qed

text \<open>Two frames, of which the system fails to send the first.\<close>

definition lab_lossy :: gsmtap_api where
  "lab_lossy = lab_gsmtap\<lparr>gsmtap_write := (\<lambda>n. if n = 0 then - 1 else 18)\<rparr>"

interpretation lgl: gsmtap_lib lab_lossy
  by unfold_locales (simp_all add: lab_lossy_def lab_gsmtap_def)

theorem recording_captured_witness:
  "\<exists>d frames. file_decoder_main lab_lossy lab_hdlc True
      \<lparr>lab_pos = 0, lab_decoded = [], lab_sent = [], lab_part = []\<rparr> (Some [1, 2, 0x7e, 3, 0x7e]) = Inr d \<and>
    lab_decoded (fd_hdlc d) = frames \<and>
    gsmtap_out (fd_gsmtap d) = packets lab_lossy 0 (map (Pair (packet_hdr lab_lossy (GSMTAP_E1T1_X75 lab_lossy) True)) frames)"
  using recording_captured [OF lab.hdlc_decoder_axioms lgl.gsmtap_lib_axioms, of
      "\<lparr>lab_pos = 0, lab_decoded = [], lab_sent = [], lab_part = []\<rparr>" "[1, 2, 0x7e, 3, 0x7e]"]
  by auto

end
