(* ===== verification/Encoder_Test.thy ===== *)
theory Encoder_Test
  imports Isdn_Line
begin

text \<open>
  The test program \<open>src/test.c\<close>: it gives forty bytes to the HDLC encoder and prints what the
  encoder stores, until the encoder has taken all of them.
\<close>

section \<open>The program\<close>

definition test_data :: "byte list" where
  "test_data = map of_nat [0..<40]"

text \<open>\<open>et_printed\<close>: for every report the counts and the first 160 bytes of the buffer.\<close>

record 'h encoder_test =
  et_tx :: 'h
  et_out :: "byte list"
  bytes_sent :: nat
  et_printed :: "(nat \<times> int \<times> byte list) list"

definition test_pass :: "'h hdlc_api \<Rightarrow> 'h encoder_test \<Rightarrow> 'h encoder_test" where
  "test_pass H s =
     (let (rv, count, h, bs) = hdlc_encode H (et_tx s) (drop (bytes_sent s) test_data) 160;
          s = s\<lparr>et_tx := h, et_out := store (et_out s) 0 bs\<rparr> in
      if 0 < rv
      then s\<lparr>bytes_sent := bytes_sent s + count, et_printed := et_printed s @ [(count, rv, take 160 (et_out s))]\<rparr>
      else s)"

text \<open>\<open>tx\<close> is the encoder as the library initialises it.\<close>

definition test_main :: "'h hdlc_api \<Rightarrow> 'h \<Rightarrow> fault + 'h encoder_test" where
  "test_main H tx =
     (case while_option (\<lambda>s. bytes_sent s \<noteq> length test_data) (test_pass H)
         \<lparr>et_tx = tx, et_out = replicate 512 0, bytes_sent = 0, et_printed = []\<rparr> of
        None \<Rightarrow> Inl Hang
      | Some s \<Rightarrow> Inr s)"

section \<open>What it shows of the encoder\<close>

text \<open>
  An encoder that sends something else before it takes a byte, such as flags, comes closer to
  taking one.
\<close>

locale hdlc_fed_encoder = hdlc_encoder H enc_frames enc_part
  for H :: "'h hdlc_api" and enc_frames :: "'h \<Rightarrow> byte list list" and enc_part :: "'h \<Rightarrow> byte list" +
  fixes enc_left :: "'h \<Rightarrow> nat"
  assumes encode_left: "src \<noteq> [] \<Longrightarrow> hdlc_encode H h src 160 = (rv, 0, h', bs) \<Longrightarrow> enc_left h' < enc_left h"
begin

definition fed :: "byte list list \<Rightarrow> 'h encoder_test \<Rightarrow> bool" where
  "fed fs s \<longleftrightarrow> bytes_sent s \<le> length test_data \<and> length (et_out s) = 512 \<and>
     sum_list (map fst (et_printed s)) = bytes_sent s \<and>
     (if bytes_sent s < length test_data
      then enc_frames (et_tx s) = fs \<and> enc_part (et_tx s) = take (bytes_sent s) test_data
      else enc_frames (et_tx s) = fs @ [test_data] \<and> enc_part (et_tx s) = [])"

lemma pass_fed:
  assumes "fed fs s" and "bytes_sent s \<noteq> length test_data"
  shows "fed fs (test_pass H s) \<and>
    (test_pass H s, s) \<in> measures [\<lambda>s. length test_data - bytes_sent s, \<lambda>s. enc_left (et_tx s)]"
proof -
  let ?src = "drop (bytes_sent s) test_data"
  have lt: "bytes_sent s < length test_data" and src: "?src \<noteq> []"
    using assms by (simp_all add: fed_def)
  obtain rv c h bs where enc: "hdlc_encode H (et_tx s) ?src 160 = (rv, c, h, bs)" by (metis prod_cases4)
  have p: "0 < rv" "rv \<le> 160" "length bs = nat rv" "c \<le> length ?src"
    using encode_progress [OF _ enc] by auto
  have st: "length (store (et_out s) 0 bs) = 512"
    using assms(1) p by (subst length_store) (auto simp: fed_def)
  show ?thesis
  proof (cases "c = length ?src")
    case True
    with encode_whole [OF _ src enc] assms lt p st show ?thesis
      by (auto simp: test_pass_def enc fed_def Let_def)
  next
    case False
    then have "c < length ?src" using p by simp
    with encode_part [OF _ src enc] encode_left [OF src, of "et_tx s" rv h bs] assms lt p st enc show ?thesis
      by (auto simp: test_pass_def fed_def Let_def take_add [symmetric])
  qed
qed

text \<open>
  The program ends; the encoder has then been given the forty bytes as one frame, the buffer
  was never left, and the counts that were printed add up to the bytes.
\<close>

theorem test_ends:
  assumes "enc_part tx = []"
  shows "\<exists>s. test_main H tx = Inr s \<and> enc_frames (et_tx s) = enc_frames tx @ [test_data] \<and>
    length (et_out s) = 512 \<and> sum_list (map fst (et_printed s)) = 40"
proof -
  let ?s = "\<lparr>et_tx = tx, et_out = replicate 512 0, bytes_sent = 0, et_printed = []\<rparr>"
  have "\<exists>s. while_option (\<lambda>s. bytes_sent s \<noteq> length test_data) (test_pass H) ?s = Some s \<and>
      fed (enc_frames tx) s \<and> \<not> bytes_sent s \<noteq> length test_data"
  proof (rule while_option_ends_wf [OF wf_measures])
    show "fed (enc_frames tx) ?s" using assms by (simp add: fed_def test_data_def)
  qed (rule pass_fed)
  then show ?thesis
    by (auto simp: test_main_def fed_def test_data_def)
qed

end

interpretation lab_fed: hdlc_fed_encoder lab_hdlc lab_sent lab_part "\<lambda>h. 0"
  by unfold_locales (auto simp: lab_hdlc_def Let_def min_def split: if_splits)

text \<open>An encoder that reports an error each time is asked for ever.\<close>

lemma test_hangs:
  assumes "\<And>h src. fst (hdlc_encode H h src 160) \<le> 0"
  shows "test_main H tx = Inl Hang"
proof -
  let ?P = "\<lambda>s :: 'a encoder_test. bytes_sent s = 0"
  have step: "?P (test_pass H s)" if "?P s" for s
    using that assms [of "et_tx s" "drop (bytes_sent s) test_data"]
    by (auto simp: test_pass_def Let_def split: prod.splits)
  have False if "while_option (\<lambda>s. bytes_sent s \<noteq> length test_data) (test_pass H)
      \<lparr>et_tx = tx, et_out = replicate 512 0, bytes_sent = 0, et_printed = []\<rparr> = Some t" for t
    using while_option_rule [of ?P, OF _ that] while_option_stop [OF that] step by (simp add: test_data_def)
  then have "while_option (\<lambda>s. bytes_sent s \<noteq> length test_data) (test_pass H)
      \<lparr>et_tx = tx, et_out = replicate 512 0, bytes_sent = 0, et_printed = []\<rparr> = None"
    by (meson not_None_eq)
  then show ?thesis by (simp add: test_main_def)
qed

lemma lab_test: "map_sum id et_printed (test_main lab_hdlc
    \<lparr>lab_pos = 0, lab_decoded = [], lab_sent = [], lab_part = []\<rparr>) =
  Inr [(40, 160, test_data @ replicate 120 0x7e)]"
  by code_simp

end
