(* ===== verification/Spec2Isabelle.thy ===== *)
theory Spec2Isabelle
  imports X75_Issues X75_Handshake Isdn_Progress X75_Capture Yate_Proofs Yate_Lines Uart_Receive V110_Call Fax_Pages
    Ppp_Process Ppp_Bridge Tty_Process Fax_Sync File_Decoder Encoder_Test
begin

text \<open>
  A verification library for the remote access server for ISDN.

  The program. The telephony engine Yate starts one process per call. The process gets the
  64 kbit/s channel as linear samples on a file descriptor and messages of the engine on its
  standard input. There is one call handler per protocol: \<open>src/yate_x75.c\<close> (X.75 between the
  channel and a telnet connection), \<open>src/yate_hdlc_ppp.c\<close> (PPP packets between the channel and
  a pppd process), \<open>src/yate_v110.c\<close> (V.110 with RLP frames), \<open>src/yate_tty.c\<close> (text telephone,
  through modem processes). They share \<open>src/yate.c\<close> (samples to channel bytes and back),
  \<open>src/yate_message.c\<close> (the engine's messages), the X.75 link layer in \<open>src/x75\<close>, the PPP
  framing in \<open>src/ppp/pppd.c\<close> and the software UART in \<open>src/v110\<close>. \<open>src/ppp/pty.c\<close>,
  \<open>src/ttytdd/minimodem.c\<close> and \<open>src/telnet.c\<close> start the processes and connections the handlers
  work with. \<open>src/fax_decode.c\<close> is a fax receiver over the spandsp library; \<open>src/fax_test.c\<close> and
  \<open>src/file_hdlc_decoder.c\<close> decode recorded calls, and \<open>src/test.c\<close> exercises the HDLC encoder.

  Conventions. Definitions have the names of the C functions; where two handlers use the
  same name a prefix tells them apart (\<open>ppp_\<close>, \<open>x75_\<close>, \<open>v110_\<close>, \<open>tty_\<close>). Structures and groups of
  globals are records, machine integers are words, or natural numbers where the code bounds
  them. A routine that can end the process returns a sum: \<open>Inl\<close> one of the faults of
  \<open>Ras_Prelude\<close> (null pointer, abort in the message library, access outside an array, failed
  assertion, exit, signed overflow, a loop that never ends), \<open>Inr\<close> the new state. \<open>ends E Q r\<close> says that the
  result \<open>r\<close> is a fault of \<open>E\<close> or a state of \<open>Q\<close>. Loops are \<open>while_option\<close>, so that a loop that does
  not end is the fault \<open>Hang\<close>, or recursion with a measure. There is no fuel. What \<open>read\<close>
  returned is an argument, cut to the size of the buffer it is read into; what is written,
  captured or handed to a call-back is kept in the state. The result of a write to a non-blocking
  descriptor is an argument too: \<open>took rc buf\<close> is what a write that returned \<open>rc\<close> took of \<open>buf\<close>,
  nothing when it failed. The writes to pppd are numbered and \<open>W n\<close> is the result of the n-th one;
  the answers of \<open>malloc\<close> and \<open>write\<close> for the captures are functions of the number of the packet. A capture
  without its socket (the parameter \<open>source\<close> of the main routines is False) is a null pointer.
  The one write taken as complete is that of the samples of a text telephone call, to a pipe in
  blocking mode.

  Libraries. Code that is not in the repository is a parameter, a record of its operations,
  with a locale for the behaviour relied on: \<open>osmo_lib\<close>, \<open>osmo_mem\<close> (memory does not run out) and
  \<open>msgb_word\<close> (16 bit sizes) for the message buffers, queues and timers of libosmocore in
  \<open>Osmo_Core\<close>; \<open>hdlc_decoder\<close>, \<open>hdlc_encoder\<close>, \<open>hdlc_sender\<close> and \<open>hdlc_channel\<close> for its HDLC coder in
  \<open>Isdn_Line\<close> and \<open>hdlc_fed_encoder\<close> for the part of it \<open>Encoder_Test\<close> needs; \<open>bits_lib\<close> for its bit conversions in \<open>V110_Call\<close>; \<open>span_lib\<close> for spandsp in
  \<open>Fax_Decode\<close>; \<open>gsmtap_lib\<close> for the capture header in \<open>Gsmtap\<close>. Each is interpreted on an
  executable instance, on which the witnesses run. What the program uses of POSIX is modelled:
  \<open>Os_Files\<close> has the descriptor table of a process, pipes, terminals, \<open>fork\<close> and \<open>execv\<close>; the
  answers of the system that do not follow from them (which device can be opened, the
  result of \<open>fork\<close>) are a record of parameters. \<open>descriptors\<close> is the interface of the table,
  interpreted on it. \<open>hdlc_encoder_live\<close> and \<open>hdlc_sender_live\<close> in \<open>Isdn_Progress\<close> say that an encoder
  ends the frames it was given. \<open>capture_file\<close> in \<open>File_Decoder\<close>, \<open>ppp_channel\<close>, \<open>ppp_queue\<close> and
  \<open>ppp_bridge\<close> in the theories of the PPP call, and \<open>rlp_capture\<close> in \<open>V110_Call\<close> join such libraries.
  \<open>x75_user\<close> in \<open>X75_Dev\<close> is the contract between the link layer and its user, \<open>yate_line\<close> in
  \<open>X75_Channel\<close> what the X.75 handler relies on; the latter is an instance of the former.

  \<^item> The prelude \<open>Ras_Prelude\<close>: words, faults, sequencing of statements, the rules for \<open>ends\<close>,
  arithmetic on sequence numbers, loops that end, stores into arrays.

  \<^item> The X.75 link layer. \<open>X75_Base\<close> has the control block (\<open>x75.h\<close>, \<open>x75_int.h\<close>), the call-backs and
  timers; \<open>X75_Subr\<close>, \<open>X75_Out\<close>, \<open>X75_In\<close>, \<open>X75_Iface\<close> follow \<open>x75_subr.c\<close>, \<open>x75_out.c\<close>, \<open>x75_in.c\<close>
  and \<open>x75_iface.c\<close> with \<open>x75_timer.c\<close>, routine by routine. \<open>X75_Wire\<close> and \<open>X75_Codec\<close> give the
  bytes of frames and show that what one station sends is what its peer parses. \<open>X75_Queues\<close>
  and \<open>X75_Kick\<close> compute the loops. \<open>X75_Inv\<close> and \<open>X75_Safety\<close> have the invariants and that every
  call keeps them, with \<open>idle_inv\<close> also the link set-up and clearing while nothing is queued,
  \<open>X75_Session\<close> the runs: no sequence of calls hangs or overruns a message,
  and sessions that discard nothing never fault and never exceed the window.
  \<open>X75_Behaviour\<close>, \<open>X75_Receive\<close> and \<open>X75_Link\<close> show what the calls do: transmission up to the
  window, acknowledgement, delivery in sequence, rejection, the end-to-end transfer of
  queued messages, the state table, the retries with a silent peer and what each of them sends,
  the parameters.
  \<open>X75_Handshake\<close> follows the frames that set up and clear a link between two stations.
  \<open>X75_Issues\<close> proves where the code departs from the protocol: queue counters that outlive their
  queues, and frames of one byte, which are parsed. For these the parser's octets behind the end of
  the message are whatever the library's buffer has there; all theorems hold for any such value. \<open>X75_Dev\<close> shows that the layer
  touches its user's data through the call-backs only.

  \<^item> The PPP framing: \<open>Ppp_Framing\<close> models the checksum, encoder, decoder and the stream handler
  of \<open>pppd.c\<close>; \<open>Ppp_Proofs\<close>, \<open>Ppp_Stream\<close> and \<open>Ppp_Input\<close> show that the checksum is the CRC of
  RFC 1662, that the stream handler refines a byte-wise deframer and that packets survive
  framing in whatever pieces they are read, with the bounds of the buffers and what happens
  beyond them.

  \<^item> The channel: \<open>Yate_Codec\<close> and \<open>Yate_Proofs\<close> (\<open>yate.c\<close>: the conversion of channel bytes to samples
  and back is lossless and the sample handler transparent), \<open>Isdn_Line\<close> (the sending loop of
  both HDLC handlers: the encoder gets exactly the queued packets as frames), \<open>Isdn_Progress\<close> (each
  buffer brings what waits closer to the encoder, in a well-founded order).

  \<^item> The call handlers: \<open>Ppp_Call\<close> and \<open>Ppp_Bridge\<close> (\<open>yate_hdlc_ppp.c\<close>: frames are handed to
  pppd, packets reach the line, and over every sequence of events the call is a bridge
  between two reference streams), \<open>X75_Call\<close>, \<open>X75_Channel\<close> and \<open>X75_Telnet\<close> (\<open>yate_x75.c\<close>: the loops end, nothing
  is overrun, data of one telnet connection arrives at the other, flow control bounds the
  queue), \<open>X75_Process\<close> (the whole process: the start of \<open>main\<close> and an inductive relation of all
  sequences of events, over which link and line stay in order; as long as nothing queued is
  thrown away no handler fails), \<open>X75_Capture\<close> (the captures of such a call, through \<open>Gsmtap\<close>),
  \<open>V110_Call\<close> (\<open>yate_v110.c\<close>: RLP frames are reassembled, over any demultiplexer and
  synchronisation; the static UART is never fed), \<open>Tty_Call\<close> and \<open>Tty_Process\<close> (\<open>yate_tty.c\<close>: the
  samples of the modem are exact, and the call from the start of \<open>main\<close> is a relay).

  \<^item> Processes and connections: \<open>Ppp_Start\<close> models \<open>pty.c\<close>, \<open>start_pppd\<close> and the main loop of
  \<open>yate_hdlc_ppp.c\<close>, \<open>Ppp_Process\<close> shows how the descriptors of handler and \<open>pppd\<close> are connected,
  what the error paths leave open, at which pass the loop ends, and that its counter of type \<open>int\<close>
  overflows in a call that lasts; \<open>Minimodem\<close> does the same for the
  two modems of a text telephone call; \<open>Telnet\<close> models \<open>telnet.c\<close> and the command line.

  \<^item> The engine's messages: \<open>Yate_Message\<close> models \<open>yate_message.c\<close> over the message buffer,
  \<open>Yate_Parse\<close> and \<open>Yate_Lines\<close> show that it refines an abstract reader of messages, and the
  lines on which it reads past the buffer.

  \<^item> The software UART: \<open>Soft_Uart\<close> models \<open>soft_uart.c\<close>, \<open>Uart_Proofs\<close> and \<open>Uart_Receive\<close> show
  that the receiver implements a framing automaton and receives framed characters, and
  that its configuration and buffers are handled, with the sizes that make it abort.

  \<^item> The fax decoder: \<open>Fax_Decode\<close> models \<open>fax_decode.c\<close>, \<open>Fax_Pages\<close> shows that its state stays
  well-formed and that pages with error correction are put together from their pieces.

  \<^item> The packet capture: \<open>Gsmtap\<close> models \<open>gsmtap.c\<close> and shows what is handed over (the history
  \<open>gsmtap_log\<close>) and what of it the socket took (\<open>gsmtap_out\<close>), and that a negative
  length or a capture without its socket ends the process. All call handlers capture through it.

  \<^item> Recorded calls: \<open>Fax_Sync\<close> models \<open>fax_test.c\<close> (the search for the synchronisation word is
  sound, and the fax decoder gets exactly the blocks of data mode), \<open>File_Decoder\<close> models
  \<open>file_hdlc_decoder.c\<close> (every frame of a recording is handed to the capture). \<open>Encoder_Test\<close> models \<open>test.c\<close>: it
  ends when the encoder takes bytes, and not when the encoder reports an error.

  \<^item> This theory joins the engine's samples and the call handlers for PPP and X.75.

  Bounds. Message sizes are below 65536 as the library's are; telnet is read in pieces of up
  to 128 bytes, pppd in pieces of up to 2048, and PPP packets have up to 2046, as the buffers of
  the code have it; reads of pppd with a single byte, which the code drops, are excluded where
  the stream matters. The
  bounds 1021 (PPP) and 2048 (X.75) on frames of the line are the largest for which the code
  does not overrun its own buffers, and are assumed of the samples only.

  Not modelled: what is printed for the user, other than by \<open>test.c\<close>; the registration of
  handlers with the event loop, whose dispatch is the order of the events; the bits of HDLC
  frames, V.110 synchronisation and T.4 images, which are the libraries'; the build files.
\<close>

section \<open>A PPP call behind the engine\<close>

text \<open>
  The handler as it is registered with \<open>yate_osmo_fd_register\<close>: once the process has died,
  nothing follows.
\<close>

definition ppp_sample_cb ::
    "('m, 'q, 't) osmo_api \<Rightarrow> 'h hdlc_api \<Rightarrow> gsmtap_api \<Rightarrow> (nat \<Rightarrow> int) \<Rightarrow> fault + ('m, 'q, 'h) ppp_call
     \<Rightarrow> byte list \<Rightarrow> byte list \<Rightarrow> (fault + ('m, 'q, 'h) ppp_call) \<times> byte list" where
  "ppp_sample_cb L H G W u out_buf in_buf =
     (case u of
        Inl e \<Rightarrow> (Inl e, out_buf)
      | Inr c \<Rightarrow>
          (case ppp_handle_sample_buffer L H G W out_buf in_buf c of
             Inl e \<Rightarrow> (Inl e, out_buf)
           | Inr (out', d) \<Rightarrow> (Inr d, out')))"

text \<open>
  C17: from the engine to pppd and back. For the samples of any bytes of the channel, with
  frames of at most 1021 bytes in them and the capture's socket open, the process writes as
  many samples as it read, and they decode to the bytes the encoder filled the output buffer
  with. Every frame the decoder found in the bytes was captured and handed to \<open>write\<close> for pppd in
  PPP framing, once and in order, and pppd has what the writes took. What the encoder has been given and
  what waits for it are together what they were: nothing is lost, doubled or overtaken. And
  when something waits, the buffer brings it closer to the encoder, in a well-founded order, so that
  buffers that keep coming drain the queue.
\<close>

theorem ppp_engine_call:
  assumes "hdlc_channel L H enc_frames enc_part dec_frames dec_left" and "hdlc_encoder_live H enc_left"
    and "gsmtap_lib G" and "g_gti (ppp_gsmtap c)"
    and "table_ok (io_s2a io)" and "io_user io = Inr c" and "bytes \<noteq> []"
    and "length bytes \<le> length (outSampleBuf io)" and "tx_ok enc_part (ppp_line c)"
    and "frames_bounded H 1021 bytes (ppp_hdlc_rx c) (ppp_hdlc_rx_buf c)"
  shows "\<exists>io' w d fs. yate_sample_input_cb (ppp_sample_cb L H G W) (le_bytes (yate_codec_alaw_to_slin bytes)) io = Some (io', w) \<and>
    length w = length (le_bytes (yate_codec_alaw_to_slin bytes)) \<and> io_user io' = Inr d \<and>
    fst (yate_codec_slin_to_alaw (le_samples w) (io_s2a io')) = take (length bytes) (outSampleBuf io') \<and>
    dec_frames (ppp_hdlc_rx d) = dec_frames (ppp_hdlc_rx c) @ fs \<and>
    gsmtap_log (ppp_gsmtap d) = gsmtap_log (ppp_gsmtap c) @ map (ppp_capture G False) fs \<and>
    pppd_writes d = pppd_writes c @ map pppd_rfc1662_encode fs \<and>
    pppd_written d = pppd_written c @ written W (length (pppd_writes c)) (map pppd_rfc1662_encode fs) \<and>
    enc_frames (hdlc_tx (ppp_line d)) @ tx_waiting L (ppp_line d) =
      enc_frames (hdlc_tx (ppp_line c)) @ tx_waiting L (ppp_line c) \<and>
    (tx_busy L (ppp_line c) \<longrightarrow> (tx_rank L enc_left (ppp_line d), tx_rank L enc_left (ppp_line c)) \<in> rank_less) \<and>
    wf rank_less"
proof -
  have loc: "ppp_channel L H enc_frames enc_part dec_frames dec_left G"
    using assms(1,3) by (rule ppp_channel.intro)
  have live: "hdlc_sender_live L H enc_frames enc_part enc_left"
    using hdlc_channel.axioms(1) [OF assms(1)] assms(2) by (rule hdlc_sender_live.intro)
  obtain out' e fs t where h: "ppp_handle_sample_buffer L H G W (outSampleBuf io) bytes c = Inr (out', e\<lparr>ppp_line := t\<rparr>)"
    "length out' = length (outSampleBuf io)" "ppp_received G W dec_frames fs c e"
    "hdlc_tx_loop L H (length bytes) (outSampleBuf io) (ppp_line c) = Inr (out', t)"
    "enc_frames (hdlc_tx t) @ tx_waiting L t = enc_frames (hdlc_tx (ppp_line c)) @ tx_waiting L (ppp_line c)"
    using ppp_channel.ppp_samples [OF loc assms(10,4,9,8)] by metis
  have cb: "ppp_sample_cb L H G W (io_user io) (outSampleBuf io) bytes = (Inr (e\<lparr>ppp_line := t\<rparr>), out')"
    using h(1) by (simp add: ppp_sample_cb_def assms(6))
  have len: "length bytes \<le> length out'" using h(2) assms(8) by simp
  have rank: "tx_busy L (ppp_line c) \<longrightarrow> (tx_rank L enc_left t, tx_rank L enc_left (ppp_line c)) \<in> rank_less"
    using hdlc_sender_live.loop_rank [OF live assms(9) _ _ assms(8) h(4)] assms(7) by simp
  obtain io' w where io: "yate_sample_input_cb (ppp_sample_cb L H G W) (le_bytes (yate_codec_alaw_to_slin bytes)) io = Some (io', w)"
    "length w = length (le_bytes (yate_codec_alaw_to_slin bytes))" "io_user io' = Inr (e\<lparr>ppp_line := t\<rparr>)"
    "fst (yate_codec_slin_to_alaw (le_samples w) (io_s2a io')) = take (length bytes) (outSampleBuf io')"
    using sample_handler [where handler = "ppp_sample_cb L H G W", OF assms(5,7) cb len] by metis
  show ?thesis
    by (rule exI [of _ io'], rule exI [of _ w], rule exI [of _ "e\<lparr>ppp_line := t\<rparr>"], rule exI [of _ fs])
      (use io h(3,5) rank wf_rank_less in \<open>simp add: ppp_received_def\<close>)
qed

definition lab_io :: "byte list list \<Rightarrow> (fault + (buf, buf list, lab_coder) ppp_call) yate_io" where
  "lab_io queued = \<lparr>io_s2a = (\<lambda>i. 0), outSampleBuf = [0, 0, 0, 0], io_user = Inr (lab_call_ppp queued)\<rparr>"

theorem ppp_engine_call_witness:
  "\<exists>io' w d fs. yate_sample_input_cb (ppp_sample_cb list_osmo lab_hdlc lab_gsmtap (\<lambda>n. 3))
        (le_bytes (yate_codec_alaw_to_slin [0x21, 5, 0x7e])) (lab_io [[1, 2]]) = Some (io', w) \<and> io_user io' = Inr d \<and>
     pppd_written d = written (\<lambda>n. 3) 0 (map pppd_rfc1662_encode fs) \<and>
     lab_sent (hdlc_tx (ppp_line d)) @ tx_waiting list_osmo (ppp_line d) = [[1, 2]] \<and>
     (tx_rank list_osmo (\<lambda>h. 0) (ppp_line d), (2, 0, 0)) \<in> rank_less"
proof -
  have io: "table_ok (io_s2a (lab_io [[1, 2]]))" "io_user (lab_io [[1, 2]]) = Inr (lab_call_ppp [[1, 2]])"
    "length [0x21, 5, 0x7e :: byte] \<le> length (outSampleBuf (lab_io [[1, 2]]))" "[0x21, 5, 0x7e :: byte] \<noteq> []"
    by (simp_all add: lab_io_def table_ok_def)
  have c: "lab_sent (hdlc_tx (ppp_line (lab_call_ppp [[1, 2]]))) = []" "pppd_written (lab_call_ppp [[1, 2]]) = []"
    "pppd_writes (lab_call_ppp [[1, 2]]) = []" "tx_busy list_osmo (ppp_line (lab_call_ppp [[1, 2]]))"
    "tx_rank list_osmo (\<lambda>h. 0) (ppp_line (lab_call_ppp [[1, 2]])) = (2, 0, 0)"
    by (simp_all add: lab_call_ppp_def tx_busy_def tx_rank_def list_osmo_def)
  from ppp_engine_call [OF lab.hdlc_channel_axioms lab_live.hdlc_encoder_live_axioms lg.gsmtap_lib_axioms
      lab_call_ppp_ok(3) io(1,2,4,3) lab_call_ppp_ok(1) lab_bounded [OF order_refl], where W = "\<lambda>n. 3"]
  show ?thesis
    by (auto simp: c lab_call_ppp_ok(2))
qed

section \<open>An X.75 call behind the engine\<close>

definition x75_sample_cb ::
    "('m, 'q, 't) osmo_api \<Rightarrow> 'h hdlc_api \<Rightarrow> gsmtap_api \<Rightarrow> x75_frame \<Rightarrow> fault + ('m, 'q, 't, 'h) yate_x75
     \<Rightarrow> byte list \<Rightarrow> byte list \<Rightarrow> (fault + ('m, 'q, 't, 'h) yate_x75) \<times> byte list" where
  "x75_sample_cb L H G stack u out_buf in_buf =
     (case u of
        Inl e \<Rightarrow> (Inl e, out_buf)
      | Inr y \<Rightarrow>
          (case x75_handle_sample_buffer L H G stack out_buf in_buf y of
             Inl e \<Rightarrow> (Inl e, out_buf)
           | Inr (out', z) \<Rightarrow> (Inr z, out')))"

text \<open>
  C18: from the engine to the link layer and back. In any state an X.75 process can reach, for
  the samples of any bytes of the channel with frames of at most 2048 bytes in them: either
  the process dies on a null pointer, or it writes as many samples as it read, they decode
  to the bytes the encoder filled the output buffer with, no frame given to the line is lost
  or overtaken, and the state is again one the process can reach.
\<close>

theorem x75_engine_call:
  assumes "osmo_mem L" and "msgb_word L" and "hdlc_channel L H enc_frames enc_part dec_frames dec_left"
    and "gsmtap_lib G" and "enc_part tx = []" and "y0 = x75_main_init L G source rx tx (x75_statics q t h)" and "x75_reach L H G False y0 y"
    and "table_ok (io_s2a io)" and "io_user io = Inr y" and "bytes \<noteq> []"
    and "length bytes \<le> length (outSampleBuf io)"
    and "frames_bounded H 2048 bytes (x_hdlc_rx y) (x_hdlc_rx_buf y)"
  shows "\<exists>io' w. yate_sample_input_cb (x75_sample_cb L H G stack) (le_bytes (yate_codec_alaw_to_slin bytes)) io = Some (io', w) \<and>
    (io_user io' = Inl NullDeref \<or>
     (\<exists>z ps. io_user io' = Inr z \<and> length w = length (le_bytes (yate_codec_alaw_to_slin bytes)) \<and>
       fst (yate_codec_slin_to_alaw (le_samples w) (io_s2a io')) = take (length bytes) (outSampleBuf io') \<and>
       line_frames L enc_frames z = line_frames L enc_frames y @ ps \<and> x75_reach L H G False y0 z))"
proof -
  have line: "yate_line L H enc_frames enc_part dec_frames dec_left G"
    using assms(1-4) by (rule yate_line.intro)
  have ok: "process_ok L G enc_part False y"
    using reach_process [OF line yate_line.main_init_ok [OF line assms(5)] assms(7) [unfolded assms(6)]] by blast
  let ?ev = "Line stack (outSampleBuf io) bytes"
  have fits: "event_fits H ?ev y" using assms(11,12) by (simp add: event_fits_def)
  note run = line_process [OF line ok fits]
  show ?thesis
  proof (cases "x75_handle_sample_buffer L H G stack (outSampleBuf io) bytes y")
    case (Inl e)
    then have "e = NullDeref" using run by simp
    then have "x75_sample_cb L H G stack (io_user io) (outSampleBuf io) bytes = (Inl NullDeref, outSampleBuf io)"
      using Inl by (simp add: x75_sample_cb_def assms(9))
    from sample_handler [where handler = "x75_sample_cb L H G stack", OF assms(8,10) this assms(11)]
    show ?thesis by metis
  next
    case (Inr r)
    then obtain out' z where r: "x75_handle_sample_buffer L H G stack (outSampleBuf io) bytes y = Inr (out', z)"
      by (cases r) auto
    have d: "x75_dispatch L H G ?ev y = Inr z"
      using r by (simp add: x75_dispatch_def)
    have "x75_reach L H G False y0 z"
      by (rule x75_reach.event [OF assms(7) fits _ d]) simp
    moreover obtain ps where "line_frames L enc_frames z = line_frames L enc_frames y @ ps"
      and "length bytes \<le> length out'"
      using run r assms(11) by (auto dest: line_growsD)
    moreover have "x75_sample_cb L H G stack (io_user io) (outSampleBuf io) bytes = (Inr z, out')"
      using r by (simp add: x75_sample_cb_def assms(9))
    ultimately show ?thesis
      using sample_handler [where handler = "x75_sample_cb L H G stack" and io = io and bytes = bytes
          and u = "Inr z" and out = out', OF assms(8,10)]
      by metis
  qed
qed

definition lab_x75_io :: "(fault + (buf, buf list, tmr, lab_coder) yate_x75) yate_io" where
  "lab_x75_io = \<lparr>io_s2a = (\<lambda>i. 0), outSampleBuf = [0, 0, 0, 0], io_user = Inr lab_start\<rparr>"

theorem x75_engine_call_witness:
  "\<exists>io' w. yate_sample_input_cb (x75_sample_cb list16_osmo lab_hdlc lab_gsmtap lab_frame)
        (le_bytes (yate_codec_alaw_to_slin [1, 0x3f, 0x7e])) lab_x75_io = Some (io', w) \<and>
     (io_user io' = Inl NullDeref \<or> (\<exists>z. io_user io' = Inr z \<and> x75_reach list16_osmo lab_hdlc lab_gsmtap False lab_start z))"
proof -
  have io: "table_ok (io_s2a lab_x75_io)" "io_user lab_x75_io = Inr lab_start"
    "[1, 0x3f, 0x7e :: byte] \<noteq> []" "length [1, 0x3f, 0x7e :: byte] \<le> length (outSampleBuf lab_x75_io)"
    by (simp_all add: lab_x75_io_def table_ok_def)
  have b: "frames_bounded lab_hdlc 2048 [1, 0x3f, 0x7e] (x_hdlc_rx lab_start) (x_hdlc_rx_buf lab_start)"
    by (rule lab_bounded) simp
  have part: "lab_part lab_coder_0 = []" by (simp add: lab_coder_0_def)
  from x75_engine_call [OF lo16.osmo_mem_axioms lw16.msgb_word_axioms lab16.hdlc_channel_axioms lg.gsmtap_lib_axioms part
      lab_start_def x75_reach.start io b]
  show ?thesis by blast
qed

end
